theory Spec2Isabelle
  imports Complex_Main "HOL-Library.Word"
begin

section \<open>Zypher packaging engine: embedding of the packager, unpacker and batch packager\<close>

text \<open>
  The theory embeds \<^verbatim>\<open>core/packager/packager.py\<close> (class \<^verbatim>\<open>Packager\<close>),
  \<^verbatim>\<open>core/unpacker/unpacker.py\<close> (class \<^verbatim>\<open>Unpacker\<close>) and
  \<^verbatim>\<open>core/packager/batch_packager.py\<close> (class \<^verbatim>\<open>BatchPackager\<close>).
  Files are byte lists, the file system is a map from paths to contents, exceptions are
  values of a sum type and every function that touches the file system takes the world
  and returns the new one.  The libraries the code calls but does not contain
  (\<^verbatim>\<open>zstandard\<close>, \<^verbatim>\<open>hashlib\<close>, \<^verbatim>\<open>json\<close>, \<^verbatim>\<open>fitz\<close>) are a record of
  functions that every operation takes as its first argument.
\<close>

subsection \<open>Bytes, paths and exceptions\<close>

type_synonym byte = "8 word"
type_synonym bytes = "byte list"
type_synonym path = string

text \<open>
  The exceptions the code can see are subclasses of \<^verbatim>\<open>Exception\<close>.  The handlers
  only ever ask whether one is a \<^verbatim>\<open>ValueError\<close> (\<^verbatim>\<open>except ValueError\<close>) or not
  (\<^verbatim>\<open>except Exception\<close>), so there is one constructor for \<^verbatim>\<open>ValueError\<close> with its
  subclasses, carrying the message, and one for every other class, carrying the class
  name and the message.  Messages the code formats with floating point
  (\<^verbatim>\<open>File too large: ...MB\<close>) keep the integers they are formatted from.
\<close>

datatype message =
    UnsupportedFormat string
  | FileIsEmpty path
  | FileTooLarge nat int
  | BadMagic
  | ChecksumMismatch
  | InputDirNotFound path
  | Text string

datatype exn =
    ValueError message
  | OtherError string string

fun is_ValueError :: "exn \<Rightarrow> bool" where
  "is_ValueError (ValueError m) = True"
| "is_ValueError (OtherError c m) = False"

subsection \<open>pathlib and str helpers (POSIX flavour)\<close>

definition strip_slashes :: "path \<Rightarrow> path" where
  "strip_slashes p = rev (dropWhile (\<lambda>c. c = CHR ''/'') (rev p))"

definition path_name :: "path \<Rightarrow> string" where
  "path_name p = rev (takeWhile (\<lambda>c. c \<noteq> CHR ''/'') (rev (strip_slashes p)))"

text \<open>\<^verbatim>\<open>PurePath.suffix\<close>: the part of the name from its last dot on, unless that dot
  is the first or the last character of the name.\<close>

definition path_suffix :: "path \<Rightarrow> string" where
  "path_suffix p =
     (let name = path_name p;
          r = takeWhile (\<lambda>c. c \<noteq> CHR ''.'') (rev name)
      in if CHR ''.'' \<in> set name \<and> r \<noteq> [] \<and> length r + 1 < length name
         then CHR ''.'' # rev r else [])"

text \<open>\<^verbatim>\<open>PurePath.stem\<close>: the name without its suffix.\<close>

definition path_stem :: "path \<Rightarrow> string" where
  "path_stem p = take (length (path_name p) - length (path_suffix p)) (path_name p)"

definition path_parent :: "path \<Rightarrow> path" where
  "path_parent p =
     (let d = rev (dropWhile (\<lambda>c. c \<noteq> CHR ''/'') (rev (strip_slashes p)))
      in if d = [] then ''.''
         else if strip_slashes d = [] then ''/''
         else strip_slashes d)"

text \<open>\<^verbatim>\<open>dir / name\<close>: an absolute right operand replaces the left one.\<close>

definition path_div :: "path \<Rightarrow> string \<Rightarrow> path" where
  "path_div d n =
     (if n \<noteq> [] \<and> hd n = CHR ''/'' then n
      else if d = [] \<or> d = ''.'' then n
      else if strip_slashes d = [] then CHR ''/'' # n
      else strip_slashes d @ ''/'' @ n)"

definition lower_char :: "char \<Rightarrow> char" where
  "lower_char c =
     (if (65::nat) \<le> of_char c \<and> of_char c \<le> (90::nat)
      then char_of (of_char c + (32::nat)) else c)"

definition lower :: "string \<Rightarrow> string" where
  "lower s = map lower_char s"

definition lstrip_dot :: "string \<Rightarrow> string" where
  "lstrip_dot s = dropWhile (\<lambda>c. c = CHR ''.'') s"

subsection \<open>Manifests: the values \<^verbatim>\<open>json.loads\<close> returns\<close>

datatype json =
    JNull
  | JBool bool
  | JInt int
  | JFloat real
  | JStr string
  | JArr "json list"
  | JObj "(string \<times> json) list"

text \<open>Python truthiness of a parsed JSON value (\<^verbatim>\<open>if stored_checksum:\<close>).\<close>

fun truthy :: "json \<Rightarrow> bool" where
  "truthy JNull = False"
| "truthy (JBool b) = b"
| "truthy (JInt i) = (i \<noteq> 0)"
| "truthy (JFloat r) = (r \<noteq> 0)"
| "truthy (JStr s) = (s \<noteq> [])"
| "truthy (JArr xs) = (xs \<noteq> [])"
| "truthy (JObj kvs) = (kvs \<noteq> [])"

text \<open>\<^verbatim>\<open>manifest.get(key)\<close> and \<^verbatim>\<open>manifest.get(key, default)\<close>; on a value that is
  not a dict the attribute \<^verbatim>\<open>get\<close> does not exist.\<close>

fun json_get :: "json \<Rightarrow> string \<Rightarrow> json \<Rightarrow> exn + json" where
  "json_get (JObj kvs) k dflt = Inr (case map_of kvs k of Some v \<Rightarrow> v | None \<Rightarrow> dflt)"
| "json_get (JArr xs) k dflt = Inl (OtherError ''AttributeError'' ''get'')"
| "json_get j k dflt = Inl (OtherError ''AttributeError'' ''get'')"

subsection \<open>The libraries the code calls\<close>

text \<open>What \<^verbatim>\<open>ZstdCompressionParameters.from_level\<close> and \<^verbatim>\<open>ZstdCompressor\<close> are
  given.\<close>

record cparams =
  level :: int
  enable_ldm :: int
  ldm_hash_log :: int
  threads :: int
  dict_data :: "bytes option"

text \<open>
  \<^item> \<open>sha256_hexdigest\<close>: \<^verbatim>\<open>hashlib.sha256\<close> fed the chunks of a file, then
    \<^verbatim>\<open>hexdigest()\<close>, as a function of the bytes fed;
  \<^item> \<open>json_dumps\<close>: \<^verbatim>\<open>json.dumps(m).encode('utf-8')\<close>;
  \<^item> \<open>json_loads\<close>: \<^verbatim>\<open>json.loads(b.decode('utf-8'))\<close>;
  \<^item> \<open>zstd_compress\<close>: what a \<^verbatim>\<open>stream_writer\<close> of a compressor with the given
    parameters has written once it is closed, as a function of the chunks written to it;
  \<^item> \<open>zstd_decompress\<close>: the bytes a \<^verbatim>\<open>stream_reader\<close> of a decompressor with the
    given dictionary yields for a payload, and the error it then raises, if any;
  \<^item> \<open>fitz_available\<close>: whether \<^verbatim>\<open>import fitz\<close> succeeds;
  \<^item> \<open>fitz_deflate\<close>: \<^verbatim>\<open>fitz.open(p).tobytes(deflate=True)\<close>, \<open>None\<close> when
    it raises.
\<close>

record ext_lib =
  sha256_hexdigest :: "bytes \<Rightarrow> string"
  json_dumps :: "json \<Rightarrow> bytes"
  json_loads :: "bytes \<Rightarrow> exn + json"
  zstd_compress :: "cparams \<Rightarrow> bytes list \<Rightarrow> bytes"
  zstd_decompress :: "bytes option \<Rightarrow> bytes \<Rightarrow> bytes \<times> exn option"
  fitz_available :: bool
  fitz_deflate :: "bytes \<Rightarrow> bytes option"

subsection \<open>\<^verbatim>\<open>struct.pack('>BL', ...)\<close> and \<^verbatim>\<open>struct.unpack('>BL', ...)\<close>\<close>

definition be32 :: "nat \<Rightarrow> bytes" where
  "be32 n = [of_nat (n div 16777216), of_nat (n div 65536), of_nat (n div 256), of_nat n]"

definition struct_pack_BL :: "nat \<Rightarrow> nat \<Rightarrow> exn + bytes" where
  "struct_pack_BL v n =
     (if v < 256 \<and> n < 4294967296 then Inr (of_nat v # be32 n)
      else Inl (OtherError ''struct.error'' ''argument out of range''))"

definition struct_unpack_BL :: "bytes \<Rightarrow> exn + (nat \<times> nat)" where
  "struct_unpack_BL bs =
     (case bs of
        [v, a, b, c, d] \<Rightarrow>
          Inr (unat v, unat a * 16777216 + unat b * 65536 + unat c * 256 + unat d)
      | _ \<Rightarrow> Inl (OtherError ''struct.error'' ''unpack requires a buffer of 5 bytes''))"

subsection \<open>The world: files, injected I/O failures, temp names, observations\<close>

datatype fs_event =
    Created path
  | Written path
  | Renamed path path
  | Removed path

text \<open>
  \<^item> \<open>files\<close>: the contents of every file that exists;
  \<^item> \<open>faults\<close>: what the next I/O operations do, in order: \<open>Some e\<close> makes the
    operation raise \<open>e\<close>, \<open>None\<close> (or an empty list) lets it succeed;
  \<^item> \<open>tmp_names\<close>: the random names \<^verbatim>\<open>tempfile.mkstemp\<close> will try, in order;
  \<^item> \<open>progress\<close>: the calls of the per-chunk progress callback so far;
  \<^item> \<open>sleeps\<close>: the arguments of the \<^verbatim>\<open>time.sleep\<close> calls so far;
  \<^item> \<open>attempt_log\<close>: one entry for every call of \<^verbatim>\<open>compress_file\<close> so far: the
    exception it raised, or \<open>None\<close> when it returned;
  \<^item> \<open>fs_log\<close>: the changes made to the file system so far.
\<close>

record world =
  files :: "path \<rightharpoonup> bytes"
  faults :: "exn option list"
  tmp_names :: "string list"
  progress :: "(nat \<times> nat) list"
  sleeps :: "real list"
  attempt_log :: "exn option list"
  fs_log :: "fs_event list"

definition io_point :: "world \<Rightarrow> exn option \<times> world" where
  "io_point w =
     (case faults w of
        [] \<Rightarrow> (None, w)
      | f # fs \<Rightarrow> (f, w\<lparr>faults := fs\<rparr>))"

definition getsize :: "path \<Rightarrow> world \<Rightarrow> (exn + nat) \<times> world" where
  "getsize p w =
     (case io_point w of
        (Some e, w1) \<Rightarrow> (Inl e, w1)
      | (None, w1) \<Rightarrow>
          (case files w1 p of
             None \<Rightarrow> (Inl (OtherError ''FileNotFoundError'' p), w1)
           | Some d \<Rightarrow> (Inr (length d), w1)))"

definition read_file :: "path \<Rightarrow> world \<Rightarrow> (exn + bytes) \<times> world" where
  "read_file p w =
     (case io_point w of
        (Some e, w1) \<Rightarrow> (Inl e, w1)
      | (None, w1) \<Rightarrow>
          (case files w1 p of
             None \<Rightarrow> (Inl (OtherError ''FileNotFoundError'' p), w1)
           | Some d \<Rightarrow> (Inr d, w1)))"

text \<open>\<^verbatim>\<open>while chunk := f.read(n)\<close>: the chunks a file is read in.\<close>

function read_chunks :: "nat \<Rightarrow> bytes \<Rightarrow> bytes list" where
  "read_chunks n d = (if n = 0 \<or> d = [] then [] else take n d # read_chunks n (drop n d))"
  by pat_completeness auto
termination
  by (relation "measure (\<lambda>(n, d). length d)") auto

declare read_chunks.simps [simp del]

text \<open>\<^verbatim>\<open>tempfile.mkstemp(suffix, dir)\<close>: the first candidate name that does not exist
  is created empty (\<^verbatim>\<open>O_EXCL\<close>).\<close>

fun pick_fresh :: "(path \<rightharpoonup> bytes) \<Rightarrow> path \<Rightarrow> string \<Rightarrow> string list \<Rightarrow> (path \<times> string list) option" where
  "pick_fresh fs dir sfx [] = None"
| "pick_fresh fs dir sfx (n # ns) =
     (if fs (path_div dir (''tmp'' @ n @ sfx)) = None
      then Some (path_div dir (''tmp'' @ n @ sfx), ns)
      else pick_fresh fs dir sfx ns)"

definition mkstemp :: "string \<Rightarrow> path \<Rightarrow> world \<Rightarrow> (exn + path) \<times> world" where
  "mkstemp sfx dir w =
     (case io_point w of
        (Some e, w1) \<Rightarrow> (Inl e, w1)
      | (None, w1) \<Rightarrow>
          (case pick_fresh (files w1) dir sfx (tmp_names w1) of
             None \<Rightarrow> (Inl (OtherError ''FileExistsError'' ''No usable temporary file name found''),
                       w1\<lparr>tmp_names := []\<rparr>)
           | Some (p, ns) \<Rightarrow>
               (Inr p, w1\<lparr>files := (files w1)(p \<mapsto> []), tmp_names := ns,
                          fs_log := fs_log w1 @ [Created p]\<rparr>)))"

text \<open>\<^verbatim>\<open>out_f.write(data)\<close> on the open temp file.\<close>

definition append_file :: "path \<Rightarrow> bytes \<Rightarrow> world \<Rightarrow> (exn + unit) \<times> world" where
  "append_file p data w =
     (case io_point w of
        (Some e, w1) \<Rightarrow> (Inl e, w1)
      | (None, w1) \<Rightarrow>
          (Inr (), w1\<lparr>files := (files w1)(p \<mapsto> (case files w1 p of None \<Rightarrow> [] | Some d \<Rightarrow> d) @ data),
                       fs_log := fs_log w1 @ [Written p]\<rparr>))"

text \<open>\<^verbatim>\<open>shutil.move(src, dst)\<close> within one directory tree: a rename that replaces
  the destination.\<close>

definition shutil_move :: "path \<Rightarrow> path \<Rightarrow> world \<Rightarrow> (exn + unit) \<times> world" where
  "shutil_move src dst w =
     (case io_point w of
        (Some e, w1) \<Rightarrow> (Inl e, w1)
      | (None, w1) \<Rightarrow>
          (case files w1 src of
             None \<Rightarrow> (Inl (OtherError ''FileNotFoundError'' src), w1)
           | Some d \<Rightarrow>
               (Inr (), w1\<lparr>files := ((files w1)(src := None))(dst \<mapsto> d),
                            fs_log := fs_log w1 @ [Renamed src dst]\<rparr>)))"

definition os_rename :: "path \<Rightarrow> path \<Rightarrow> world \<Rightarrow> (exn + unit) \<times> world" where
  "os_rename src dst w = shutil_move src dst w"

definition os_remove :: "path \<Rightarrow> world \<Rightarrow> (exn + unit) \<times> world" where
  "os_remove p w =
     (case io_point w of
        (Some e, w1) \<Rightarrow> (Inl e, w1)
      | (None, w1) \<Rightarrow>
          (case files w1 p of
             None \<Rightarrow> (Inl (OtherError ''FileNotFoundError'' p), w1)
           | Some d \<Rightarrow>
               (Inr (), w1\<lparr>files := (files w1)(p := None),
                            fs_log := fs_log w1 @ [Removed p]\<rparr>)))"

text \<open>\<^verbatim>\<open>Path.mkdir(parents=True, exist_ok=True)\<close>: directories are not part of
  the file map, so all that is kept is that the call can fail.\<close>

definition mkdir :: "path \<Rightarrow> world \<Rightarrow> (exn + unit) \<times> world" where
  "mkdir p w = (case io_point w of (Some e, w1) \<Rightarrow> (Inl e, w1) | (None, w1) \<Rightarrow> (Inr (), w1))"

text \<open>The \<^verbatim>\<open>finally\<close> clause: \<^verbatim>\<open>if tmp_path and os.path.exists(tmp_path):
  os.remove(tmp_path)\<close>.\<close>

definition cleanup :: "path option \<Rightarrow> world \<Rightarrow> world" where
  "cleanup tmp_path w =
     (case tmp_path of
        None \<Rightarrow> w
      | Some t \<Rightarrow>
          (if t \<noteq> [] \<and> files w t \<noteq> None
           then w\<lparr>files := (files w)(t := None), fs_log := fs_log w @ [Removed t]\<rparr>
           else w))"

subsection \<open>\<^verbatim>\<open>Packager\<close>\<close>

definition SUPPORTED_FORMATS :: "string list" where
  "SUPPORTED_FORMATS =
     [''.pdf'', ''.jpg'', ''.jpeg'', ''.png'', ''.tiff'', ''.docx'', ''.xlsx'', ''.pptx'',
      ''.txt'', ''.csv'']"

definition COMPRESSION_LEVELS :: "(string \<times> int) list" where
  "COMPRESSION_LEVELS = [(''low'', 3), (''medium'', 10), (''high'', 19), (''ultra'', 22)]"

text \<open>\<^verbatim>\<open>MAGIC = b'ZPKG'\<close>, \<^verbatim>\<open>VERSION = 1\<close>, \<^verbatim>\<open>CHUNK_SIZE = 65536\<close>.\<close>

definition MAGIC :: bytes where
  "MAGIC = [90, 80, 75, 71]"

definition VERSION :: nat where
  "VERSION = 1"

definition CHUNK_SIZE :: nat where
  "CHUNK_SIZE = 65536"

text \<open>The fields of a \<^verbatim>\<open>Packager\<close> that the methods read: the dictionary loaded at
  construction (\<open>None\<close> when there is no dictionary file or loading it failed) and the
  size ceiling in bytes.\<close>

record packager =
  cached_dict :: "bytes option"
  MAX_FILE_SIZE :: int

definition Packager_init :: "bytes option \<Rightarrow> int \<Rightarrow> packager" where
  "Packager_init dict max_file_size_mb =
     \<lparr>cached_dict = dict, MAX_FILE_SIZE = max_file_size_mb * 1024 * 1024\<rparr>"

text \<open>Truthiness of \<^verbatim>\<open>self._cached_dict\<close>: \<^verbatim>\<open>None\<close> is false, and so is a
  \<^verbatim>\<open>ZstdCompressionDict\<close> of length 0.\<close>

definition dict_truthy :: "bytes option \<Rightarrow> bool" where
  "dict_truthy d = (case d of None \<Rightarrow> False | Some b \<Rightarrow> b \<noteq> [])"

definition get_chunk_size :: "nat \<Rightarrow> nat" where
  "get_chunk_size file_size =
     (if file_size < 10000000 then 65536
      else if file_size < 100000000 then 524288
      else 1048576)"

definition build_compressor :: "packager \<Rightarrow> int \<Rightarrow> nat \<Rightarrow> bool \<Rightarrow> cparams" where
  "build_compressor self lvl file_size track_progress =
     (let use_ldm = (file_size > 1000000)
      in \<lparr>level = lvl,
          enable_ldm = (if use_ldm then 1 else 0),
          ldm_hash_log = (if use_ldm then 20 else 0),
          threads = (if \<not> track_progress then - 1 else 0),
          dict_data = (if dict_truthy (cached_dict self) then cached_dict self else None)\<rparr>)"

text \<open>\<^verbatim>\<open>self.COMPRESSION_LEVELS.get(compression_level, 19)\<close>.\<close>

definition level_of :: "string \<Rightarrow> int" where
  "level_of compression_level =
     (case map_of COMPRESSION_LEVELS compression_level of Some l \<Rightarrow> l | None \<Rightarrow> 19)"

text \<open>\<^verbatim>\<open>_checksum_file\<close>: SHA-256 over the chunks of the file.\<close>

definition checksum_file :: "ext_lib \<Rightarrow> path \<Rightarrow> world \<Rightarrow> (exn + string) \<times> world" where
  "checksum_file lib file_path w =
     (case read_file file_path w of
        (Inl e, w1) \<Rightarrow> (Inl e, w1)
      | (Inr d, w1) \<Rightarrow> (Inr (sha256_hexdigest lib (concat (read_chunks CHUNK_SIZE d))), w1))"

text \<open>The manifest dict of \<^verbatim>\<open>compress_file\<close>, keys in the order the code writes
  them.\<close>

definition build_manifest :: "packager \<Rightarrow> path \<Rightarrow> nat \<Rightarrow> string \<Rightarrow> string \<Rightarrow> string \<Rightarrow> json" where
  "build_manifest self input_path original_size compression_level ext checksum =
     JObj [(''original_filename'', JStr (path_name input_path)),
           (''original_size'', JInt (int original_size)),
           (''compression_level'', JStr compression_level),
           (''format'', JStr (lstrip_dot ext)),
           (''checksum'', JStr checksum),
           (''has_dict'', JBool (cached_dict self \<noteq> None))]"

text \<open>The progress callback: called with (bytes read, total), it returns or raises.\<close>

type_synonym progress_cb = "nat \<Rightarrow> nat \<Rightarrow> exn option"

text \<open>The body of the read loop, once per chunk: read the chunk and hand it to the
  compressor (an I/O point), add its length to \<^verbatim>\<open>bytes_read\<close>, call the callback.\<close>

fun stream_chunks :: "progress_cb option \<Rightarrow> nat \<Rightarrow> bytes list \<Rightarrow> nat \<Rightarrow> world \<Rightarrow> (exn + unit) \<times> world" where
  "stream_chunks on_progress total_size [] bytes_read w = (Inr (), w)"
| "stream_chunks on_progress total_size (chunk # rest) bytes_read w =
     (case io_point w of
        (Some e, w1) \<Rightarrow> (Inl e, w1)
      | (None, w1) \<Rightarrow>
          (case on_progress of
             None \<Rightarrow> stream_chunks on_progress total_size rest (bytes_read + length chunk) w1
           | Some cb \<Rightarrow>
               (case cb (bytes_read + length chunk) total_size of
                  Some e \<Rightarrow>
                    (Inl e, w1\<lparr>progress := progress w1 @ [(bytes_read + length chunk, total_size)]\<rparr>)
                | None \<Rightarrow>
                    stream_chunks on_progress total_size rest (bytes_read + length chunk)
                      (w1\<lparr>progress := progress w1 @ [(bytes_read + length chunk, total_size)]\<rparr>))))"

text \<open>Lines 115 to 134: the header, the manifest and the compressed stream go into the
  open temp file; the stream is complete when the writer is closed.\<close>

definition write_archive ::
  "ext_lib \<Rightarrow> cparams \<Rightarrow> bytes \<Rightarrow> path \<Rightarrow> nat \<Rightarrow> progress_cb option \<Rightarrow> path \<Rightarrow> world
     \<Rightarrow> (exn + unit) \<times> world" where
  "write_archive lib cctx manifest_bytes input_path original_size on_progress tmp w =
     (case append_file tmp MAGIC w of
        (Inl e, w1) \<Rightarrow> (Inl e, w1)
      | (Inr u1, w1) \<Rightarrow>
     (case struct_pack_BL VERSION (length manifest_bytes) of
        Inl e \<Rightarrow> (Inl e, w1)
      | Inr hdr \<Rightarrow>
     (case append_file tmp hdr w1 of
        (Inl e, w2) \<Rightarrow> (Inl e, w2)
      | (Inr u2, w2) \<Rightarrow>
     (case append_file tmp manifest_bytes w2 of
        (Inl e, w3) \<Rightarrow> (Inl e, w3)
      | (Inr u3, w3) \<Rightarrow>
     (case read_file input_path w3 of
        (Inl e, w4) \<Rightarrow> (Inl e, w4)
      | (Inr d, w4) \<Rightarrow>
     (case stream_chunks on_progress original_size
             (read_chunks (get_chunk_size original_size) d) 0 w4 of
        (Inl e, w5) \<Rightarrow> (Inl e, w5)
      | (Inr u5, w5) \<Rightarrow>
          append_file tmp
            (zstd_compress lib cctx (read_chunks (get_chunk_size original_size) d)) w5))))))"

text \<open>Lines 81 to 94: the checks on the input.\<close>

definition validate_input :: "packager \<Rightarrow> path \<Rightarrow> world \<Rightarrow> (exn + string \<times> nat) \<times> world" where
  "validate_input self input_path w =
     (let ext = lower (path_suffix input_path)
      in if ext \<notin> set SUPPORTED_FORMATS then (Inl (ValueError (UnsupportedFormat ext)), w)
         else (case getsize input_path w of
                 (Inl e, w1) \<Rightarrow> (Inl e, w1)
               | (Inr original_size, w1) \<Rightarrow>
                   if original_size = 0 then (Inl (ValueError (FileIsEmpty input_path)), w1)
                   else if int original_size > MAX_FILE_SIZE self
                   then (Inl (ValueError (FileTooLarge original_size (MAX_FILE_SIZE self))), w1)
                   else (Inr (ext, original_size), w1)))"

text \<open>What \<^verbatim>\<open>compress_file\<close> returns; the fields computed in floating point
  (ratio, percentage, elapsed time) are left out.\<close>

record pack_result =
  output_file :: path
  original_size :: nat
  compressed_size :: nat

text \<open>Lines 96 to 157 of the \<^verbatim>\<open>try\<close> block, after the checks.  The second component
  of the result is the value of \<^verbatim>\<open>tmp_path\<close> when the block is left.\<close>

definition pack_checked ::
  "ext_lib \<Rightarrow> packager \<Rightarrow> path \<Rightarrow> path \<Rightarrow> string \<Rightarrow> progress_cb option \<Rightarrow> string \<Rightarrow> nat
     \<Rightarrow> world \<Rightarrow> (exn + pack_result) \<times> path option \<times> world" where
  "pack_checked lib self input_path output_path compression_level on_progress ext osize w =
     (case checksum_file lib input_path w of
        (Inl e, w1) \<Rightarrow> (Inl e, None, w1)
      | (Inr checksum, w1) \<Rightarrow>
     (let cctx = build_compressor self (level_of compression_level) osize (on_progress \<noteq> None);
          manifest_bytes =
            json_dumps lib (build_manifest self input_path osize compression_level ext checksum)
      in
     (case mkstemp ''.zpkg.tmp'' (path_parent output_path) w1 of
        (Inl e, w2) \<Rightarrow> (Inl e, None, w2)
      | (Inr tmp, w2) \<Rightarrow>
     (case write_archive lib cctx manifest_bytes input_path osize on_progress tmp w2 of
        (Inl e, w3) \<Rightarrow> (Inl e, Some tmp, w3)
      | (Inr u, w3) \<Rightarrow>
     (case shutil_move tmp output_path w3 of
        (Inl e, w4) \<Rightarrow> (Inl e, Some tmp, w4)
      | (Inr u', w4) \<Rightarrow>
     (case getsize output_path w4 of
        (Inl e, w5) \<Rightarrow> (Inl e, None, w5)
      | (Inr final_size, w5) \<Rightarrow>
          (Inr \<lparr>output_file = output_path, original_size = osize,
                compressed_size = final_size\<rparr>, None, w5)))))))"

definition compress_try ::
  "ext_lib \<Rightarrow> packager \<Rightarrow> path \<Rightarrow> path \<Rightarrow> string \<Rightarrow> progress_cb option
     \<Rightarrow> world \<Rightarrow> (exn + pack_result) \<times> path option \<times> world" where
  "compress_try lib self input_path output_path compression_level on_progress w =
     (case validate_input self input_path w of
        (Inl e, w1) \<Rightarrow> (Inl e, None, w1)
      | (Inr (ext, osize), w1) \<Rightarrow>
          pack_checked lib self input_path output_path compression_level on_progress ext osize w1)"

text \<open>\<^verbatim>\<open>compress_file\<close>: the \<^verbatim>\<open>try\<close> block, then the \<^verbatim>\<open>finally\<close> clause; the
  \<^verbatim>\<open>except\<close> clause logs and re-raises.\<close>

definition compress_file ::
  "ext_lib \<Rightarrow> packager \<Rightarrow> path \<Rightarrow> path \<Rightarrow> string \<Rightarrow> progress_cb option
     \<Rightarrow> world \<Rightarrow> (exn + pack_result) \<times> world" where
  "compress_file lib self input_path output_path compression_level on_progress w =
     (case compress_try lib self input_path output_path compression_level on_progress w of
        (r, tmp_path, w1) \<Rightarrow>
          (r, (cleanup tmp_path w1)
                \<lparr>attempt_log :=
                   attempt_log w1 @ [case r of Inl e \<Rightarrow> Some e | Inr res \<Rightarrow> None]\<rparr>))"

text \<open>\<^verbatim>\<open>time.sleep(d)\<close> raises \<^verbatim>\<open>ValueError\<close> on a negative argument.\<close>

definition time_sleep :: "real \<Rightarrow> world \<Rightarrow> (exn + unit) \<times> world" where
  "time_sleep d w =
     (if d < 0 then (Inl (ValueError (Text ''sleep length must be non-negative'')), w)
      else (Inr (), w\<lparr>sleeps := sleeps w @ [d]\<rparr>))"

text \<open>The loop of \<^verbatim>\<open>compress_with_retry\<close> with \<open>k\<close> iterations of
  \<^verbatim>\<open>range(1, max_retries + 1)\<close> left, so that \<^verbatim>\<open>attempt < max_retries\<close> is
  \<open>0 < k\<close> after the current one; after the loop, \<^verbatim>\<open>raise last_error\<close>, which is a
  \<^verbatim>\<open>TypeError\<close> when \<^verbatim>\<open>last_error\<close> is still \<^verbatim>\<open>None\<close>.\<close>

fun retry_loop ::
  "ext_lib \<Rightarrow> packager \<Rightarrow> path \<Rightarrow> path \<Rightarrow> string \<Rightarrow> progress_cb option
     \<Rightarrow> nat \<Rightarrow> real \<Rightarrow> exn option \<Rightarrow> world \<Rightarrow> (exn + pack_result) \<times> world" where
  "retry_loop lib self input_path output_path lvl on_progress 0 retry_delay last_error w =
     (case last_error of
        None \<Rightarrow> (Inl (OtherError ''TypeError'' ''exceptions must derive from BaseException''), w)
      | Some e \<Rightarrow> (Inl e, w))"
| "retry_loop lib self input_path output_path lvl on_progress (Suc k) retry_delay last_error w =
     (case compress_file lib self input_path output_path lvl on_progress w of
        (Inr r, w1) \<Rightarrow> (Inr r, w1)
      | (Inl e, w1) \<Rightarrow>
          if is_ValueError e then (Inl e, w1)
          else if 0 < k then
            (case time_sleep retry_delay w1 of
               (Inl e', w2) \<Rightarrow> (Inl e', w2)
             | (Inr u, w2) \<Rightarrow>
                 retry_loop lib self input_path output_path lvl on_progress k
                   (retry_delay * 2) (Some e) w2)
          else retry_loop lib self input_path output_path lvl on_progress k
                 retry_delay (Some e) w1)"

definition compress_with_retry ::
  "ext_lib \<Rightarrow> packager \<Rightarrow> path \<Rightarrow> path \<Rightarrow> string \<Rightarrow> progress_cb option \<Rightarrow> int \<Rightarrow> real
     \<Rightarrow> world \<Rightarrow> (exn + pack_result) \<times> world" where
  "compress_with_retry lib self input_path output_path compression_level on_progress
       max_retries retry_delay w =
     retry_loop lib self input_path output_path compression_level on_progress
       (nat max_retries) retry_delay None w"

subsection \<open>\<^verbatim>\<open>Unpacker\<close>\<close>

text \<open>The magic numbers \<^verbatim>\<open>unpack\<close> accepts: \<^verbatim>\<open>b'ZPKG'\<close> and \<^verbatim>\<open>b'ZPKV'\<close>.\<close>

definition UNPACK_MAGICS :: "bytes list" where
  "UNPACK_MAGICS = [[90, 80, 75, 71], [90, 80, 75, 86]]"

record unpacker =
  unpacker_dict :: "bytes option"

text \<open>\<^verbatim>\<open>_build_decompressor\<close>: the dictionary the decompressor is built with,
  \<open>None\<close> for a plain \<^verbatim>\<open>ZstdDecompressor()\<close>.\<close>

definition build_decompressor :: "unpacker \<Rightarrow> json \<Rightarrow> bytes option" where
  "build_decompressor self has_dict =
     (if truthy has_dict \<and> dict_truthy (unpacker_dict self) then unpacker_dict self else None)"

text \<open>Lines 49 to 54: magic, version, manifest length, manifest; what is left of the
  file is the payload.\<close>

definition read_header :: "ext_lib \<Rightarrow> bytes \<Rightarrow> exn + (nat \<times> json \<times> bytes)" where
  "read_header lib data =
     (if take 4 data \<notin> set UNPACK_MAGICS then Inl (ValueError BadMagic)
      else (case struct_unpack_BL (take 5 (drop 4 data)) of
              Inl e \<Rightarrow> Inl e
            | Inr (version, manifest_len) \<Rightarrow>
                (case json_loads lib (take manifest_len (drop 9 data)) of
                   Inl e \<Rightarrow> Inl e
                 | Inr manifest \<Rightarrow> Inr (version, manifest, drop (9 + manifest_len) data))))"

fun write_chunks :: "path \<Rightarrow> bytes list \<Rightarrow> world \<Rightarrow> (exn + unit) \<times> world" where
  "write_chunks p [] w = (Inr (), w)"
| "write_chunks p (chunk # rest) w =
     (case append_file p chunk w of
        (Inl e, w1) \<Rightarrow> (Inl e, w1)
      | (Inr u, w1) \<Rightarrow> write_chunks p rest w1)"

text \<open>Lines 63 to 66: the chunks the reader yields go into the temp file; an error of
  the reader comes after the chunks it yielded.\<close>

definition decompress_to :: "ext_lib \<Rightarrow> bytes option \<Rightarrow> bytes \<Rightarrow> path \<Rightarrow> world \<Rightarrow> (exn + unit) \<times> world" where
  "decompress_to lib dctx payload tmp w =
     (case zstd_decompress lib dctx payload of
        (restored, err) \<Rightarrow>
          (case write_chunks tmp (read_chunks CHUNK_SIZE restored) w of
             (Inl e, w1) \<Rightarrow> (Inl e, w1)
           | (Inr u, w1) \<Rightarrow>
               (case err of Some e \<Rightarrow> (Inl e, w1) | None \<Rightarrow> (Inr (), w1))))"

text \<open>Lines 68 to 76; \<^verbatim>\<open>Unpacker._checksum_file\<close> is the same code as the packager's.\<close>

definition verify_checksum :: "ext_lib \<Rightarrow> json \<Rightarrow> path \<Rightarrow> world \<Rightarrow> (exn + unit) \<times> world" where
  "verify_checksum lib manifest tmp w =
     (case json_get manifest ''checksum'' JNull of
        Inl e \<Rightarrow> (Inl e, w)
      | Inr stored_checksum \<Rightarrow>
          if truthy stored_checksum then
            (case checksum_file lib tmp w of
               (Inl e, w1) \<Rightarrow> (Inl e, w1)
             | (Inr actual_checksum, w1) \<Rightarrow>
                 if JStr actual_checksum \<noteq> stored_checksum
                 then (Inl (ValueError ChecksumMismatch), w1)
                 else (Inr (), w1))
          else (Inr (), w))"

text \<open>\<^verbatim>\<open>_recompress_pdf_streams\<close>: every exception is caught and logged, so the
  result is only the world.\<close>

definition recompress_pdf_streams :: "ext_lib \<Rightarrow> path \<Rightarrow> world \<Rightarrow> world" where
  "recompress_pdf_streams lib pdf_path w =
     (if \<not> fitz_available lib then w
      else (case mkstemp ''.pdf'' (path_parent pdf_path) w of
        (Inl e, w1) \<Rightarrow> w1
      | (Inr tmp_recomp, w1) \<Rightarrow>
     (case read_file pdf_path w1 of
        (Inl e, w2) \<Rightarrow> w2
      | (Inr d, w2) \<Rightarrow>
     (case fitz_deflate lib d of
        None \<Rightarrow> w2
      | Some data \<Rightarrow>
     (case append_file tmp_recomp data w2 of
        (Inl e, w3) \<Rightarrow> w3
      | (Inr u3, w3) \<Rightarrow>
     (case os_remove pdf_path w3 of
        (Inl e, w4) \<Rightarrow> w4
      | (Inr u4, w4) \<Rightarrow>
     (case os_rename tmp_recomp pdf_path w4 of
        (Inl e, w5) \<Rightarrow> w5
      | (Inr u5, w5) \<Rightarrow> w5)))))))"

text \<open>\<^verbatim>\<open>out_dir / manifest['original_filename']\<close>.\<close>

definition final_path_of :: "path \<Rightarrow> json \<Rightarrow> exn + path" where
  "final_path_of output_dir manifest =
     (case manifest of
        JObj kvs \<Rightarrow>
          (case map_of kvs ''original_filename'' of
             None \<Rightarrow> Inl (OtherError ''KeyError'' ''original_filename'')
           | Some (JStr name) \<Rightarrow> Inr (path_div output_dir name)
           | Some other \<Rightarrow> Inl (OtherError ''TypeError'' ''unsupported operand type(s) for /''))
      | other \<Rightarrow> Inl (OtherError ''TypeError'' ''indices must be integers''))"

record unpack_result =
  restored_path :: path
  manifest_original_size :: json

text \<open>Lines 68 to 94: what \<^verbatim>\<open>unpack\<close> does with the restored temp file.\<close>

definition commit_restored ::
  "ext_lib \<Rightarrow> path \<Rightarrow> json \<Rightarrow> path \<Rightarrow> world \<Rightarrow> (exn + unpack_result) \<times> path option \<times> world" where
  "commit_restored lib output_dir manifest tmp w =
     (case verify_checksum lib manifest tmp w of
        (Inl e, w1) \<Rightarrow> (Inl e, Some tmp, w1)
      | (Inr u, w1) \<Rightarrow>
     (case json_get manifest ''mode'' JNull of
        Inl e \<Rightarrow> (Inl e, Some tmp, w1)
      | Inr mode \<Rightarrow>
     (let w2 = (if mode = JStr ''visual'' then recompress_pdf_streams lib tmp w1 else w1)
      in
     (case final_path_of output_dir manifest of
        Inl e \<Rightarrow> (Inl e, Some tmp, w2)
      | Inr final_path \<Rightarrow>
     (case shutil_move tmp final_path w2 of
        (Inl e, w3) \<Rightarrow> (Inl e, Some tmp, w3)
      | (Inr u', w3) \<Rightarrow>
     (case json_get manifest ''original_size'' JNull of
        Inl e \<Rightarrow> (Inl e, None, w3)
      | Inr osize \<Rightarrow>
          (Inr \<lparr>restored_path = final_path, manifest_original_size = osize\<rparr>, None, w3)))))))"

text \<open>Lines 46 to 94, the \<^verbatim>\<open>try\<close> block of \<^verbatim>\<open>unpack\<close>.\<close>

definition unpack_try ::
  "ext_lib \<Rightarrow> unpacker \<Rightarrow> path \<Rightarrow> path \<Rightarrow> world \<Rightarrow> (exn + unpack_result) \<times> path option \<times> world" where
  "unpack_try lib self package_path output_dir w =
     (case read_file package_path w of
        (Inl e, w1) \<Rightarrow> (Inl e, None, w1)
      | (Inr data, w1) \<Rightarrow>
     (case read_header lib data of
        Inl e \<Rightarrow> (Inl e, None, w1)
      | Inr (version, manifest, payload) \<Rightarrow>
     (case mkdir output_dir w1 of
        (Inl e, w2) \<Rightarrow> (Inl e, None, w2)
      | (Inr u, w2) \<Rightarrow>
     (case json_get manifest ''has_dict'' (JBool False) of
        Inl e \<Rightarrow> (Inl e, None, w2)
      | Inr has_dict \<Rightarrow>
     (case mkstemp ''.tmp'' output_dir w2 of
        (Inl e, w3) \<Rightarrow> (Inl e, None, w3)
      | (Inr tmp, w3) \<Rightarrow>
     (case decompress_to lib (build_decompressor self has_dict) payload tmp w3 of
        (Inl e, w4) \<Rightarrow> (Inl e, Some tmp, w4)
      | (Inr u', w4) \<Rightarrow> commit_restored lib output_dir manifest tmp w4))))))"

text \<open>\<^verbatim>\<open>unpack\<close>: both \<^verbatim>\<open>except\<close> clauses log and re-raise, then the
  \<^verbatim>\<open>finally\<close> clause runs.\<close>

definition unpack ::
  "ext_lib \<Rightarrow> unpacker \<Rightarrow> path \<Rightarrow> path \<Rightarrow> world \<Rightarrow> (exn + unpack_result) \<times> world" where
  "unpack lib self package_path output_dir w =
     (case unpack_try lib self package_path output_dir w of
        (r, tmp_path, w1) \<Rightarrow> (r, cleanup tmp_path w1))"

subsection \<open>\<^verbatim>\<open>BatchPackager\<close>\<close>

record batch_packager =
  self_compression_level :: string
  self_max_retries :: int
  self_retry_delay :: real
  self_max_workers :: nat
  self_packager :: packager

type_synonym job = "path \<times> path"

text \<open>The dict \<^verbatim>\<open>_compress_one\<close> returns: the packager's result with
  \<^verbatim>\<open>input_file\<close> added.\<close>

record job_result = pack_result +
  input_file :: path

text \<open>A failure entry \<^verbatim>\<open>{'file': str(inp), 'error': str(e)}\<close>; the exception stands
  for its text.\<close>

record failure =
  failed_file :: path
  failed_error :: exn

datatype entry = Succeeded job_result | Failed failure

text \<open>The batch progress callback: called with (completed, total, result or failure),
  it returns or raises.\<close>

type_synonym batch_cb = "nat \<Rightarrow> nat \<Rightarrow> entry \<Rightarrow> exn option"

definition compress_one ::
  "ext_lib \<Rightarrow> batch_packager \<Rightarrow> path \<Rightarrow> path \<Rightarrow> world \<Rightarrow> (exn + job_result) \<times> world" where
  "compress_one lib self input_path output_path w =
     (case compress_with_retry lib (self_packager self) input_path output_path
             (self_compression_level self) None (self_max_retries self) (self_retry_delay self) w of
        (Inl e, w1) \<Rightarrow> (Inl e, w1)
      | (Inr r, w1) \<Rightarrow>
          (Inr \<lparr>output_file = output_file r, original_size = original_size r,
                compressed_size = compressed_size r, input_file = input_path\<rparr>, w1))"

text \<open>The worker pool, one job after the other in the order in which they complete:
  each future ends up holding a result or an exception.\<close>

fun run_jobs ::
  "ext_lib \<Rightarrow> batch_packager \<Rightarrow> job list \<Rightarrow> world \<Rightarrow> (job \<times> (exn + job_result)) list \<times> world" where
  "run_jobs lib self [] w = ([], w)"
| "run_jobs lib self ((inp, out) # rest) w =
     (case compress_one lib self inp out w of
        (outcome, w1) \<Rightarrow>
          (case run_jobs lib self rest w1 of
             (finished, w2) \<Rightarrow> (((inp, out), outcome) # finished, w2)))"

text \<open>The accumulators of \<^verbatim>\<open>_run\<close>.\<close>

record tally =
  results :: "job_result list"
  failures :: "failure list"
  completed :: nat

text \<open>The \<^verbatim>\<open>try\<close> block of the loop over \<^verbatim>\<open>as_completed\<close>:
  \<^verbatim>\<open>future.result()\<close> returns or raises, the result is appended, the callback is
  called.  The first component is the exception that leaves the block, if any.\<close>

definition record_result ::
  "batch_cb option \<Rightarrow> nat \<Rightarrow> exn + job_result \<Rightarrow> tally \<Rightarrow> exn option \<times> tally" where
  "record_result on_progress total_jobs outcome t =
     (case outcome of
        Inl e \<Rightarrow> (Some e, t)
      | Inr result \<Rightarrow>
          (case on_progress of
             None \<Rightarrow> (None, t\<lparr>results := results t @ [result]\<rparr>)
           | Some cb \<Rightarrow>
               (cb (completed t) total_jobs (Succeeded result),
                t\<lparr>results := results t @ [result]\<rparr>)))"

text \<open>The loop over the completed futures, with its \<^verbatim>\<open>except Exception\<close> clause.  An
  exception of the callback inside that clause leaves \<^verbatim>\<open>_run\<close>.\<close>

fun drain ::
  "batch_cb option \<Rightarrow> nat \<Rightarrow> (job \<times> (exn + job_result)) list \<Rightarrow> tally \<Rightarrow> exn + tally" where
  "drain on_progress total_jobs [] t = Inr t"
| "drain on_progress total_jobs (((inp, out), outcome) # rest) t =
     (case record_result on_progress total_jobs outcome (t\<lparr>completed := completed t + 1\<rparr>) of
        (None, t1) \<Rightarrow> drain on_progress total_jobs rest t1
      | (Some e, t1) \<Rightarrow>
          (let t2 = t1\<lparr>failures := failures t1 @ [\<lparr>failed_file = inp, failed_error = e\<rparr>]\<rparr>
           in case on_progress of
                None \<Rightarrow> drain on_progress total_jobs rest t2
              | Some cb \<Rightarrow>
                  (case cb (completed t2) total_jobs (Failed \<lparr>failed_file = inp, failed_error = e\<rparr>) of
                     Some e' \<Rightarrow> Inl e'
                   | None \<Rightarrow> drain on_progress total_jobs rest t2)))"

text \<open>The summary dict; the percentage saved and the elapsed time are floating point
  and left out.\<close>

record summary =
  success :: bool
  total_files :: nat
  succeeded :: nat
  failed :: nat
  summary_failures :: "failure list"
  summary_results :: "job_result list"
  total_original_size :: nat
  total_compressed_size :: nat

definition build_summary :: "job_result list \<Rightarrow> failure list \<Rightarrow> summary" where
  "build_summary rs fs =
     \<lparr>success = (length fs = 0),
      total_files = length rs + length fs,
      succeeded = length rs,
      failed = length fs,
      summary_failures = fs,
      summary_results = rs,
      total_original_size = sum_list (map original_size rs),
      total_compressed_size = sum_list (map compressed_size rs)\<rparr>"

definition empty_summary :: summary where
  "empty_summary =
     \<lparr>success = True, total_files = 0, succeeded = 0, failed = 0, summary_failures = [],
      summary_results = [], total_original_size = 0, total_compressed_size = 0\<rparr>"

text \<open>Lines 120 and 121: \<^verbatim>\<open>out.parent.mkdir(parents=True, exist_ok=True)\<close> for every
  job.\<close>

fun make_dirs :: "job list \<Rightarrow> world \<Rightarrow> (exn + unit) \<times> world" where
  "make_dirs [] w = (Inr (), w)"
| "make_dirs ((inp, out) # rest) w =
     (case mkdir (path_parent out) w of
        (Inl e, w1) \<Rightarrow> (Inl e, w1)
      | (Inr u, w1) \<Rightarrow> make_dirs rest w1)"

text \<open>\<^verbatim>\<open>_run\<close>.  The argument \<open>order\<close> lists the positions of the jobs in the order in
  which their futures complete.\<close>

definition completion :: "job list \<Rightarrow> nat list \<Rightarrow> job list" where
  "completion jobs order = map (\<lambda>i. jobs ! i) (filter (\<lambda>i. i < length jobs) order)"

definition run_batch ::
  "ext_lib \<Rightarrow> batch_packager \<Rightarrow> job list \<Rightarrow> batch_cb option \<Rightarrow> nat list \<Rightarrow> world
     \<Rightarrow> (exn + summary) \<times> world" where
  "run_batch lib self jobs on_progress order w =
     (case make_dirs jobs w of
        (Inl e, w1) \<Rightarrow> (Inl e, w1)
      | (Inr u, w1) \<Rightarrow>
          (case run_jobs lib self (completion jobs order) w1 of
             (finished, w2) \<Rightarrow>
               (case drain on_progress (length jobs) finished
                       \<lparr>results = [], failures = [], completed = 0\<rparr> of
                  Inl e \<Rightarrow> (Inl e, w2)
                | Inr t \<Rightarrow> (Inr (build_summary (results t) (failures t)), w2))))"

text \<open>\<^verbatim>\<open>compress_files\<close>.\<close>

definition compress_files ::
  "ext_lib \<Rightarrow> batch_packager \<Rightarrow> path list \<Rightarrow> path \<Rightarrow> batch_cb option \<Rightarrow> nat list \<Rightarrow> world
     \<Rightarrow> (exn + summary) \<times> world" where
  "compress_files lib self file_paths output_dir on_progress order w =
     run_batch lib self
       (map (\<lambda>f. (f, path_div output_dir (path_stem f @ ''.zpkg''))) file_paths)
       on_progress order w"

text \<open>\<^verbatim>\<open>compress_directory\<close>, not recursive.  The argument \<open>listing\<close> is \<open>None\<close>
  when the input directory does not exist and otherwise what \<^verbatim>\<open>iterdir()\<close> yields.\<close>

definition compress_directory ::
  "ext_lib \<Rightarrow> batch_packager \<Rightarrow> path \<Rightarrow> path list option \<Rightarrow> path \<Rightarrow> batch_cb option
     \<Rightarrow> nat list \<Rightarrow> world \<Rightarrow> (exn + summary) \<times> world" where
  "compress_directory lib self input_dir listing output_dir on_progress order w =
     (case listing of
        None \<Rightarrow> (Inl (ValueError (InputDirNotFound input_dir)), w)
      | Some entries \<Rightarrow>
          (let fs = filter (\<lambda>f. files w f \<noteq> None \<and> lower (path_suffix f) \<in> set SUPPORTED_FORMATS)
                      entries
           in if fs = [] then (Inr empty_summary, w)
              else run_batch lib self
                     (map (\<lambda>f. (f, path_div output_dir (path_stem f @ ''.zpkg''))) fs)
                     on_progress order w))"

subsection \<open>Notions the statements use\<close>

text \<open>The file-system events of a run from \<open>w\<close> to \<open>w'\<close>, and whether one of them is a
  rename onto a given path.\<close>

fun rename_target :: "fs_event \<Rightarrow> path option" where
  "rename_target (Renamed src dst) = Some dst"
| "rename_target (Created p) = None"
| "rename_target (Written p) = None"
| "rename_target (Removed p) = None"

definition new_events :: "world \<Rightarrow> world \<Rightarrow> fs_event list" where
  "new_events w w' = drop (length (fs_log w)) (fs_log w')"

definition renamed_to :: "path \<Rightarrow> fs_event list \<Rightarrow> bool" where
  "renamed_to dst evs = (Some dst \<in> set (map rename_target evs))"

text \<open>The archive a pack of the bytes \<open>F\<close> writes.\<close>

definition packed_cctx :: "packager \<Rightarrow> string \<Rightarrow> progress_cb option \<Rightarrow> bytes \<Rightarrow> cparams" where
  "packed_cctx self lvl cb F = build_compressor self (level_of lvl) (length F) (cb \<noteq> None)"

definition packed_manifest :: "ext_lib \<Rightarrow> packager \<Rightarrow> path \<Rightarrow> string \<Rightarrow> bytes \<Rightarrow> json" where
  "packed_manifest lib self inp lvl F =
     build_manifest self inp (length F) lvl (lower (path_suffix inp)) (sha256_hexdigest lib F)"

definition packed_payload :: "ext_lib \<Rightarrow> packager \<Rightarrow> string \<Rightarrow> progress_cb option \<Rightarrow> bytes \<Rightarrow> bytes" where
  "packed_payload lib self lvl cb F =
     zstd_compress lib (packed_cctx self lvl cb F) (read_chunks (get_chunk_size (length F)) F)"

definition packed_archive :: "ext_lib \<Rightarrow> packager \<Rightarrow> path \<Rightarrow> string \<Rightarrow> progress_cb option \<Rightarrow> bytes \<Rightarrow> bytes" where
  "packed_archive lib self inp lvl cb F =
     MAGIC @ (of_nat VERSION # be32 (length (json_dumps lib (packed_manifest lib self inp lvl F))))
       @ json_dumps lib (packed_manifest lib self inp lvl F)
       @ packed_payload lib self lvl cb F"

fun progress_calls :: "nat \<Rightarrow> nat \<Rightarrow> bytes list \<Rightarrow> (nat \<times> nat) list" where
  "progress_calls total_size bytes_read [] = []"
| "progress_calls total_size bytes_read (chunk # rest) =
     (bytes_read + length chunk, total_size)
       # progress_calls total_size (bytes_read + length chunk) rest"


text \<open>A progress callback that never raises (or none at all).\<close>

definition never_raises :: "progress_cb option \<Rightarrow> bool" where
  "never_raises cb = (case cb of None \<Rightarrow> True | Some f \<Rightarrow> \<forall>a b. f a b = None)"

text \<open>The calls of \<^verbatim>\<open>compress_file\<close> made between \<open>w\<close> and \<open>w'\<close>, each with the exception
  it raised.\<close>

definition new_attempts :: "world \<Rightarrow> world \<Rightarrow> exn option list" where
  "new_attempts w w' = drop (length (attempt_log w)) (attempt_log w')"

text \<open>\<^verbatim>\<open>str.endswith\<close>.\<close>

definition ends_with :: "string \<Rightarrow> string \<Rightarrow> bool" where
  "ends_with sfx s = (length sfx \<le> length s \<and> drop (length s - length sfx) s = sfx)"

text \<open>
  A run of \<^verbatim>\<open>compress_file\<close> that is terminated (the process is killed, the machine
  loses power) while it is at its \<open>k\<close>-th I/O operation, counted from 0.  No
  \<^verbatim>\<open>except\<close> and no \<^verbatim>\<open>finally\<close> clause runs in a process that is stopped, so what is
  left behind is the world the \<^verbatim>\<open>try\<close> block had made when it reached that operation.
  That is the world in which the block is left when the operation raises instead, which
  is how it is computed; the exception used for that is a mark and is thrown away.  A run
  with fewer than \<open>k + 1\<close> I/O operations is terminated after the \<^verbatim>\<open>try\<close> block.
\<close>

definition stop_mark :: exn where
  "stop_mark = OtherError ''Terminated'' []"

definition terminated_at ::
  "nat \<Rightarrow> ext_lib \<Rightarrow> packager \<Rightarrow> path \<Rightarrow> path \<Rightarrow> string \<Rightarrow> progress_cb option \<Rightarrow> world \<Rightarrow> world" where
  "terminated_at k lib self input_path output_path compression_level on_progress w =
     (case compress_try lib self input_path output_path compression_level on_progress
             (w\<lparr>faults := take k (faults w @ replicate k None) @ [Some stop_mark]\<rparr>) of
        (r, tmp_path, w1) \<Rightarrow> w1)"


subsection \<open>Example inputs\<close>

text \<open>
  The two-byte file \<^verbatim>\<open>hi\<close>, its SHA-256, and the manifest \<^verbatim>\<open>compress_file\<close> builds for
  it as \<^verbatim>\<open>json.dumps\<close> writes it:
  \<^verbatim>\<open>{"original_filename": "a.txt", "original_size": 2, "compression_level": "high",
  "format": "txt", "checksum": "8f43...7aa4", "has_dict": false}\<close>, with the level label
  and the dictionary flag as parameters.
\<close>

definition example_content :: bytes where
  "example_content = [104, 105]"

definition example_sha :: string where
  "example_sha = ''8f434346648f6b96df89dda901c5176b10a6d83961dd3c1ac88b59b2dc327aa4''"

definition example_manifest :: "string \<Rightarrow> bool \<Rightarrow> json" where
  "example_manifest lvl has_dict =
     JObj [(''original_filename'', JStr ''a.txt''),
           (''original_size'', JInt 2),
           (''compression_level'', JStr lvl),
           (''format'', JStr ''txt''),
           (''checksum'', JStr example_sha),
           (''has_dict'', JBool has_dict)]"

definition ascii :: "string \<Rightarrow> bytes" where
  "ascii s = map (\<lambda>c. of_nat (of_char c)) s"

definition example_manifest_bytes :: "string \<Rightarrow> bool \<Rightarrow> bytes" where
  "example_manifest_bytes lvl has_dict =
     [123, 34, 111, 114, 105, 103, 105, 110, 97, 108, 95, 102, 105, 108, 101, 110, 97, 109,
      101, 34, 58, 32, 34, 97, 46, 116, 120, 116, 34, 44, 32, 34, 111, 114, 105, 103, 105,
      110, 97, 108, 95, 115, 105, 122, 101, 34, 58, 32, 50, 44, 32, 34, 99, 111, 109, 112,
      114, 101, 115, 115, 105, 111, 110, 95, 108, 101, 118, 101, 108, 34, 58, 32, 34]
     @ ascii lvl @
     [34, 44, 32, 34, 102, 111, 114, 109, 97, 116, 34, 58, 32, 34, 116, 120, 116, 34, 44,
      32, 34, 99, 104, 101, 99, 107, 115, 117, 109, 34, 58, 32, 34, 56, 102, 52, 51, 52,
      51, 52, 54, 54, 52, 56, 102, 54, 98, 57, 54, 100, 102, 56, 57, 100, 100, 97, 57, 48,
      49, 99, 53, 49, 55, 54, 98, 49, 48, 97, 54, 100, 56, 51, 57, 54, 49, 100, 100, 51,
      99, 49, 97, 99, 56, 56, 98, 53, 57, 98, 50, 100, 99, 51, 50, 55, 97, 97, 52, 34, 44,
      32, 34, 104, 97, 115, 95, 100, 105, 99, 116, 34, 58, 32]
     @ (if has_dict then [116, 114, 117, 101] else [102, 97, 108, 115, 101]) @ [125]"

text \<open>A manifest without a checksum: \<^verbatim>\<open>{"original_filename": "a.txt"}\<close>.\<close>

definition bare_manifest :: json where
  "bare_manifest = JObj [(''original_filename'', JStr ''a.txt'')]"

definition bare_manifest_bytes :: bytes where
  "bare_manifest_bytes =
     [123, 34, 111, 114, 105, 103, 105, 110, 97, 108, 95, 102, 105, 108, 101,
      110, 97, 109, 101, 34, 58, 32, 34, 97, 46, 116, 120, 116, 34, 125]"

text \<open>A zstd frame with one raw block: magic number, a frame header that gives the
  content size in one byte, the block header, the content.  It is valid for contents
  shorter than 32 bytes and needs no dictionary.\<close>

definition raw_frame :: "bytes \<Rightarrow> bytes" where
  "raw_frame d = [40, 181, 47, 253, 32, of_nat (length d), of_nat (8 * length d + 1), 0, 0] @ d"

text \<open>
  A stand-in for the libraries on the examples: the hash and the JSON functions are the
  real ones on the example file, on its manifests for the labels \<^verbatim>\<open>high\<close> and
  \<^verbatim>\<open>turbo\<close> and on the manifest without a checksum, the compressor wraps short contents in
  a raw frame, and the decompressor unwraps such frames whatever its dictionary.
\<close>

definition example_lib :: ext_lib where
  "example_lib =
     \<lparr>sha256_hexdigest = (\<lambda>b. if b = example_content then example_sha else ''(other)''),
      json_dumps =
        (\<lambda>j. if j = example_manifest ''high'' False then example_manifest_bytes ''high'' False
             else if j = example_manifest ''high'' True then example_manifest_bytes ''high'' True
             else if j = example_manifest ''turbo'' False then example_manifest_bytes ''turbo'' False
             else if j = bare_manifest then bare_manifest_bytes
             else []),
      json_loads =
        (\<lambda>b. if b = example_manifest_bytes ''high'' False then Inr (example_manifest ''high'' False)
             else if b = example_manifest_bytes ''high'' True then Inr (example_manifest ''high'' True)
             else if b = example_manifest_bytes ''turbo'' False
               then Inr (example_manifest ''turbo'' False)
             else if b = bare_manifest_bytes then Inr bare_manifest
             else Inl (ValueError (Text ''JSONDecodeError''))),
      zstd_compress = (\<lambda>c chunks. raw_frame (concat chunks)),
      zstd_decompress = (\<lambda>d p. if take 5 p = [40, 181, 47, 253, 32] \<and> 9 \<le> length p
                                 then (drop 9 p, None)
                                 else ([], Some (OtherError ''ZstdError'' ''unknown frame descriptor''))),
      fitz_available = False,
      fitz_deflate = (\<lambda>b. None)\<rparr>"

text \<open>A world that holds the example file, injects the given I/O failures and offers
  two temp names.\<close>

definition example_world :: "exn option list \<Rightarrow> world" where
  "example_world fs =
     \<lparr>files = [''in/a.txt'' \<mapsto> example_content], faults = fs,
      tmp_names = [''k3v9x2qa'', ''p07dmw1z''], progress = [], sleeps = [],
      attempt_log = [], fs_log = []\<rparr>"

definition example_packager :: packager where
  "example_packager = Packager_init None 500"

definition disk_full :: exn where
  "disk_full = OtherError ''OSError'' ''No space left on device''"

text \<open>An archive file: header, manifest bytes, and a raw frame of the given content; and a
  world that holds it at \<^verbatim>\<open>out/a.zpkg\<close>.\<close>

definition example_archive :: "bytes \<Rightarrow> bytes \<Rightarrow> bytes" where
  "example_archive manifest_bytes content =
     MAGIC @ [1] @ be32 (length manifest_bytes) @ manifest_bytes @ raw_frame content"

definition example_store :: "bytes \<Rightarrow> exn option list \<Rightarrow> world" where
  "example_store archive fs =
     \<lparr>files = [''out/a.zpkg'' \<mapsto> archive], faults = fs,
      tmp_names = [''w8r2c5yt''], progress = [], sleeps = [],
      attempt_log = [], fs_log = []\<rparr>"

definition example_unpacker :: unpacker where
  "example_unpacker = \<lparr>unpacker_dict = None\<rparr>"

text \<open>The archive of the example with \<^verbatim>\<open>has_dict\<close> true and a payload that is no zstd
  frame.\<close>

definition garbled_archive :: bytes where
  "garbled_archive =
     MAGIC @ [1] @ be32 (length (example_manifest_bytes ''high'' True))
       @ example_manifest_bytes ''high'' True @ [0, 0, 0, 0]"

text \<open>A batch packager with the default settings, and two input files: the example file
  and a file with an extension that is not supported.\<close>

definition example_batch :: batch_packager where
  "example_batch =
     \<lparr>self_compression_level = ''high'', self_max_retries = 3, self_retry_delay = 1,
      self_max_workers = 8, self_packager = example_packager\<rparr>"

definition example_files :: "path list" where
  "example_files = [''in/a.txt'', ''in/b.exe'']"

text \<open>A batch progress callback written for the documented third argument, the result of
  a file: \<^verbatim>\<open>lambda completed, total, result: result['space_saved_percent']\<close>.  A failure
  entry has the keys \<^verbatim>\<open>file\<close> and \<^verbatim>\<open>error\<close> only.\<close>

definition result_reader :: batch_cb where
  "result_reader n m e =
     (case e of
        Succeeded res \<Rightarrow> None
      | Failed f \<Rightarrow> Some (OtherError ''KeyError'' ''space_saved_percent''))"

text \<open>A batch progress callback that raises on every result and returns on a failure
  entry.\<close>

definition result_refuser :: batch_cb where
  "result_refuser n m e =
     (case e of
        Succeeded res \<Rightarrow> Some (OtherError ''RuntimeError'' ''callback'')
      | Failed f \<Rightarrow> None)"

section \<open>Properties\<close>

subsection \<open>The file-system operations, one result at a time\<close>


lemma io_point_frame:
  "io_point w = (f, w') \<Longrightarrow>
     files w' = files w \<and> fs_log w' = fs_log w \<and> sleeps w' = sleeps w
     \<and> attempt_log w' = attempt_log w \<and> progress w' = progress w \<and> tmp_names w' = tmp_names w"
  by (auto simp: io_point_def split: list.splits)

lemma io_point_no_faults: "faults w = [] \<Longrightarrow> io_point w = (None, w)"
  by (simp add: io_point_def)

lemma getsize_frame:
  "getsize p w = (r, w') \<Longrightarrow>
     files w' = files w \<and> fs_log w' = fs_log w \<and> sleeps w' = sleeps w
     \<and> attempt_log w' = attempt_log w \<and> progress w' = progress w \<and> tmp_names w' = tmp_names w"
  by (auto simp: getsize_def split: prod.splits option.splits dest!: io_point_frame)

lemma getsize_Inr:
  "getsize p w = (Inr n, w') \<Longrightarrow> (\<exists>d. files w p = Some d \<and> n = length d) \<and>
     files w' = files w \<and> fs_log w' = fs_log w \<and> sleeps w' = sleeps w
     \<and> attempt_log w' = attempt_log w \<and> progress w' = progress w \<and> tmp_names w' = tmp_names w"
  by (auto simp: getsize_def split: prod.splits option.splits dest!: io_point_frame)

lemma read_file_frame:
  "read_file p w = (r, w') \<Longrightarrow>
     files w' = files w \<and> fs_log w' = fs_log w \<and> sleeps w' = sleeps w
     \<and> attempt_log w' = attempt_log w \<and> progress w' = progress w \<and> tmp_names w' = tmp_names w"
  by (auto simp: read_file_def split: prod.splits option.splits dest!: io_point_frame)

lemma read_file_Inr:
  "read_file p w = (Inr d, w') \<Longrightarrow> files w p = Some d \<and>
     files w' = files w \<and> fs_log w' = fs_log w \<and> sleeps w' = sleeps w
     \<and> attempt_log w' = attempt_log w \<and> progress w' = progress w \<and> tmp_names w' = tmp_names w"
  by (auto simp: read_file_def split: prod.splits option.splits dest!: io_point_frame)

lemma read_file_Inl:
  "read_file p w = (Inl e, w') \<Longrightarrow>
     files w' = files w \<and> fs_log w' = fs_log w \<and> sleeps w' = sleeps w
     \<and> attempt_log w' = attempt_log w \<and> progress w' = progress w \<and> tmp_names w' = tmp_names w"
  by (auto simp: read_file_def split: prod.splits option.splits dest!: io_point_frame)

lemma path_div_tmp_nonempty: "path_div dir (''tmp'' @ n) \<noteq> []"
  by (simp add: path_div_def)

lemma pick_fresh_Some:
  "pick_fresh fs dir sfx ns = Some (p, ns') \<Longrightarrow> fs p = None \<and> p \<noteq> []"
  using path_div_tmp_nonempty by (induction ns) (auto split: if_splits)

lemma mkstemp_Inr:
  "mkstemp sfx dir w = (Inr p, w') \<Longrightarrow>
     files w p = None \<and> p \<noteq> [] \<and> files w' = (files w)(p \<mapsto> [])
     \<and> fs_log w' = fs_log w @ [Created p]
     \<and> sleeps w' = sleeps w \<and> attempt_log w' = attempt_log w \<and> progress w' = progress w"
  by (auto simp: mkstemp_def split: prod.splits option.splits dest!: io_point_frame pick_fresh_Some)

lemma mkstemp_Inl:
  "mkstemp sfx dir w = (Inl e, w') \<Longrightarrow>
     files w' = files w \<and> fs_log w' = fs_log w
     \<and> sleeps w' = sleeps w \<and> attempt_log w' = attempt_log w \<and> progress w' = progress w"
  by (auto simp: mkstemp_def split: prod.splits option.splits dest!: io_point_frame)

lemma append_file_Inr:
  "append_file p data w = (Inr u, w') \<Longrightarrow>
     files w' = (files w)(p \<mapsto> (case files w p of None \<Rightarrow> [] | Some d \<Rightarrow> d) @ data)
     \<and> fs_log w' = fs_log w @ [Written p]
     \<and> sleeps w' = sleeps w \<and> attempt_log w' = attempt_log w \<and> progress w' = progress w"
  by (auto simp: append_file_def split: prod.splits option.splits dest!: io_point_frame)

lemma append_file_Inl:
  "append_file p data w = (Inl e, w') \<Longrightarrow>
     files w' = files w \<and> fs_log w' = fs_log w
     \<and> sleeps w' = sleeps w \<and> attempt_log w' = attempt_log w \<and> progress w' = progress w"
  by (auto simp: append_file_def split: prod.splits option.splits dest!: io_point_frame)

lemma shutil_move_Inr:
  "shutil_move src dst w = (Inr u, w') \<Longrightarrow>
     (\<exists>d. files w src = Some d \<and> files w' = ((files w)(src := None))(dst \<mapsto> d))
     \<and> fs_log w' = fs_log w @ [Renamed src dst]
     \<and> sleeps w' = sleeps w \<and> attempt_log w' = attempt_log w \<and> progress w' = progress w"
  by (auto simp: shutil_move_def split: prod.splits option.splits dest!: io_point_frame)

lemma shutil_move_Inl:
  "shutil_move src dst w = (Inl e, w') \<Longrightarrow>
     files w' = files w \<and> fs_log w' = fs_log w
     \<and> sleeps w' = sleeps w \<and> attempt_log w' = attempt_log w \<and> progress w' = progress w"
  by (auto simp: shutil_move_def split: prod.splits option.splits dest!: io_point_frame)

lemma stream_chunks_frame:
  "stream_chunks cb n cs br w = (r, w') \<Longrightarrow>
     files w' = files w \<and> fs_log w' = fs_log w \<and> sleeps w' = sleeps w
     \<and> attempt_log w' = attempt_log w \<and> tmp_names w' = tmp_names w"
proof (induction cs arbitrary: br w)
  case Nil
  then show ?case by simp
next
  case (Cons c cs)
  obtain f w1 where io: "io_point w = (f, w1)" by (cases "io_point w")
  note fr = io_point_frame [OF io]
  show ?case
  proof (cases f)
    case (Some e)
    with Cons.prems io fr show ?thesis by simp
  next
    case None
    show ?thesis
    proof (cases cb)
      case n: None
      with Cons.prems io None have "stream_chunks cb n cs (br + length c) w1 = (r, w')" by simp
      from Cons.IH [OF this] fr show ?thesis by simp
    next
      case (Some g)
      show ?thesis
      proof (cases "g (br + length c) n")
        case n: None
        with Cons.prems io None Some
        have "stream_chunks cb n cs (br + length c)
                (w1\<lparr>progress := progress w1 @ [(br + length c, n)]\<rparr>) = (r, w')" by simp
        from Cons.IH [OF this] fr show ?thesis by simp
      next
        case (Some e)
        with Cons.prems io None \<open>cb = Some g\<close> fr show ?thesis by auto
      qed
    qed
  qed
qed


lemma read_chunks_Nil [simp]: "read_chunks n [] = []"
  by (subst read_chunks.simps) simp

lemma read_chunks_zero [simp]: "read_chunks 0 d = []"
  by (subst read_chunks.simps) simp

lemma read_chunks_step: "0 < n \<Longrightarrow> d \<noteq> [] \<Longrightarrow> read_chunks n d = take n d # read_chunks n (drop n d)"
  by (subst read_chunks.simps) simp

lemma concat_read_chunks: "0 < n \<Longrightarrow> concat (read_chunks n d) = d"
proof (induction n d rule: read_chunks.induct)
  case (1 n d)
  show ?case
  proof (cases "d = []")
    case True
    then show ?thesis by simp
  next
    case False
    with "1.prems" have "concat (read_chunks n (drop n d)) = drop n d"
      using "1.IH" by simp
    with False "1.prems" show ?thesis by (simp add: read_chunks_step)
  qed
qed

lemma validate_input_frame:
  "validate_input self inp w = (r, w') \<Longrightarrow>
     files w' = files w \<and> fs_log w' = fs_log w \<and> sleeps w' = sleeps w
     \<and> attempt_log w' = attempt_log w \<and> progress w' = progress w \<and> tmp_names w' = tmp_names w"
  by (auto simp: validate_input_def Let_def split: prod.splits sum.splits if_splits dest!: getsize_frame)

lemma validate_input_Inr:
  "validate_input self inp w = (Inr (ext, n), w') \<Longrightarrow>
     ext = lower (path_suffix inp) \<and> ext \<in> set SUPPORTED_FORMATS
     \<and> (\<exists>F. files w inp = Some F \<and> n = length F \<and> F \<noteq> [] \<and> int (length F) \<le> MAX_FILE_SIZE self)
     \<and> files w' = files w \<and> fs_log w' = fs_log w \<and> sleeps w' = sleeps w
     \<and> attempt_log w' = attempt_log w \<and> progress w' = progress w \<and> tmp_names w' = tmp_names w"
  by (auto simp: validate_input_def Let_def split: prod.splits sum.splits if_splits dest!: getsize_Inr)

lemma checksum_file_frame:
  "checksum_file lib p w = (r, w') \<Longrightarrow>
     files w' = files w \<and> fs_log w' = fs_log w \<and> sleeps w' = sleeps w
     \<and> attempt_log w' = attempt_log w \<and> progress w' = progress w \<and> tmp_names w' = tmp_names w"
  by (auto simp: checksum_file_def split: prod.splits sum.splits dest!: read_file_frame)

lemma checksum_file_Inr:
  "checksum_file lib p w = (Inr c, w') \<Longrightarrow>
     (\<exists>d. files w p = Some d \<and> c = sha256_hexdigest lib d)
     \<and> files w' = files w \<and> fs_log w' = fs_log w \<and> sleeps w' = sleeps w
     \<and> attempt_log w' = attempt_log w \<and> progress w' = progress w \<and> tmp_names w' = tmp_names w"
  by (auto simp: checksum_file_def CHUNK_SIZE_def concat_read_chunks split: prod.splits sum.splits
           dest!: read_file_Inr)

lemma stream_chunks_progress:
  "stream_chunks cb n cs br w = (Inr u, w') \<Longrightarrow>
     progress w' = progress w @ (if cb = None then [] else progress_calls n br cs)"
proof (induction cs arbitrary: br w)
  case Nil
  then show ?case by simp
next
  case (Cons c cs)
  obtain f w1 where io: "io_point w = (f, w1)" by (cases "io_point w")
  note fr = io_point_frame [OF io]
  from Cons.prems io have f: "f = None" by (cases f) auto
  show ?case
  proof (cases cb)
    case None
    with Cons.prems io f have "stream_chunks cb n cs (br + length c) w1 = (Inr u, w')" by simp
    from Cons.IH [OF this] fr None show ?thesis by simp
  next
    case (Some g)
    with Cons.prems io f have g: "g (br + length c) n = None"
      by (cases "g (br + length c) n") auto
    with Cons.prems io f Some
    have "stream_chunks cb n cs (br + length c)
            (w1\<lparr>progress := progress w1 @ [(br + length c, n)]\<rparr>) = (Inr u, w')" by simp
    from Cons.IH [OF this] fr Some show ?thesis by simp
  qed
qed

lemma stream_chunks_Inr:
  "stream_chunks cb n cs br w = (Inr u, w') \<Longrightarrow>
     progress w' = progress w @ (if cb = None then [] else progress_calls n br cs)
     \<and> files w' = files w \<and> fs_log w' = fs_log w \<and> sleeps w' = sleeps w
     \<and> attempt_log w' = attempt_log w \<and> tmp_names w' = tmp_names w"
  using stream_chunks_progress [of cb n cs br w u w'] stream_chunks_frame [of cb n cs br w "Inr u" w']
  by simp

lemma stream_chunks_Inl:
  "stream_chunks cb n cs br w = (Inl e, w') \<Longrightarrow>
     files w' = files w \<and> fs_log w' = fs_log w \<and> sleeps w' = sleeps w
     \<and> attempt_log w' = attempt_log w \<and> tmp_names w' = tmp_names w"
  by (rule stream_chunks_frame)

lemma write_archive_Inl:
  assumes "write_archive lib cctx mb inp osize cb tmp w = (Inl e, w')"
  shows "(\<exists>c. files w' = (files w)(tmp \<mapsto> c) \<or> files w' = files w)
         \<and> (\<exists>evs. fs_log w' = fs_log w @ evs \<and> list_all (\<lambda>ev. ev = Written tmp) evs)
         \<and> sleeps w' = sleeps w \<and> attempt_log w' = attempt_log w"
  using assms
  by (auto simp: write_archive_def split: prod.splits sum.splits
           dest!: append_file_Inr append_file_Inl read_file_Inr read_file_Inl stream_chunks_Inr
                  stream_chunks_Inl)

lemma write_archive_Inr:
  assumes "write_archive lib cctx mb inp osize cb tmp w = (Inr u, w')"
    and "files w tmp = Some old" and "files w inp = Some F" and "tmp \<noteq> inp"
  shows "length mb < 4294967296
         \<and> files w' = (files w)(tmp \<mapsto> old @ MAGIC @ (of_nat VERSION # be32 (length mb)) @ mb
                 @ zstd_compress lib cctx (read_chunks (get_chunk_size osize) F))
         \<and> fs_log w' = fs_log w @ [Written tmp, Written tmp, Written tmp, Written tmp]
         \<and> progress w' = progress w @ (if cb = None then []
               else progress_calls osize 0 (read_chunks (get_chunk_size osize) F))
         \<and> sleeps w' = sleeps w \<and> attempt_log w' = attempt_log w"
  using assms
  by (auto simp: write_archive_def struct_pack_BL_def split: prod.splits sum.splits if_splits
           dest!: append_file_Inr append_file_Inl read_file_Inr stream_chunks_Inr)


lemma pack_checked_cases:
  assumes run: "pack_checked lib self inp out lvl cb (lower (path_suffix inp)) (length F) w = (r, t, w1)"
    and inp: "files w inp = Some F"
  shows "sleeps w1 = sleeps w \<and> attempt_log w1 = attempt_log w \<and>
    ((\<exists>e. r = Inl e) \<and> t = None \<and> files w1 = files w \<and> fs_log w1 = fs_log w
     \<or> (\<exists>e tmp c evs. r = Inl e \<and> t = Some tmp \<and> files w tmp = None \<and> tmp \<noteq> []
            \<and> files w1 = (files w)(tmp \<mapsto> c)
            \<and> fs_log w1 = fs_log w @ Created tmp # evs
            \<and> list_all (\<lambda>ev. ev = Written tmp) evs)
     \<or> (\<exists>tmp. t = None \<and> files w tmp = None
            \<and> length (json_dumps lib (packed_manifest lib self inp lvl F)) < 4294967296
            \<and> files w1 = (files w)(out \<mapsto> packed_archive lib self inp lvl cb F)
            \<and> fs_log w1 = fs_log w @ [Created tmp, Written tmp, Written tmp, Written tmp,
                                       Written tmp, Renamed tmp out]
            \<and> progress w1 = progress w @ (if cb = None then []
                  else progress_calls (length F) 0 (read_chunks (get_chunk_size (length F)) F))
            \<and> (r = Inr \<lparr>output_file = out, original_size = length F,
                         compressed_size = length (packed_archive lib self inp lvl cb F)\<rparr>
                \<or> (\<exists>e. r = Inl e))))"
proof -
  obtain rc w0 where cs: "checksum_file lib inp w = (rc, w0)" by (cases "checksum_file lib inp w")
  show ?thesis
  proof (cases rc)
    case (Inl e)
    with run cs checksum_file_frame [OF cs] show ?thesis
      by (auto simp: pack_checked_def)
  next
    case (Inr checksum)
    from checksum_file_Inr [OF cs [unfolded Inr]] inp
    have ck: "checksum = sha256_hexdigest lib F" and f0: "files w0 = files w"
      and l0: "fs_log w0 = fs_log w" and s0: "sleeps w0 = sleeps w"
      and a0: "attempt_log w0 = attempt_log w" and p0: "progress w0 = progress w"
      by auto
    define mb where "mb = json_dumps lib (packed_manifest lib self inp lvl F)"
    define cctx where "cctx = packed_cctx self lvl cb F"
    obtain rt w2 where mk: "mkstemp ''.zpkg.tmp'' (path_parent out) w0 = (rt, w2)"
      by (cases "mkstemp ''.zpkg.tmp'' (path_parent out) w0")
    show ?thesis
    proof (cases rt)
      case (Inl e)
      with run cs \<open>rc = Inr checksum\<close> mk mkstemp_Inl [OF mk [unfolded Inl]] f0 l0 s0 a0
      show ?thesis by (auto simp: pack_checked_def Let_def)
    next
      case tmp: (Inr tmp)
      from mkstemp_Inr [OF mk [unfolded tmp]] f0 l0 s0 a0 p0
      have fresh: "files w tmp = None" and tne: "tmp \<noteq> []" and f2: "files w2 = (files w)(tmp \<mapsto> [])"
        and l2: "fs_log w2 = fs_log w @ [Created tmp]" and s2: "sleeps w2 = sleeps w"
        and a2: "attempt_log w2 = attempt_log w" and p2: "progress w2 = progress w"
        by auto
      from fresh inp have ne: "tmp \<noteq> inp" by auto
      obtain rw w3 where wa: "write_archive lib cctx mb inp (length F) cb tmp w2 = (rw, w3)"
        by (cases "write_archive lib cctx mb inp (length F) cb tmp w2")
      have body: "pack_checked lib self inp out lvl cb (lower (path_suffix inp)) (length F) w =
          (case rw of
             Inl e \<Rightarrow> (Inl e, Some tmp, w3)
           | Inr u \<Rightarrow>
               (case shutil_move tmp out w3 of
                  (Inl e, w4) \<Rightarrow> (Inl e, Some tmp, w4)
                | (Inr u', w4) \<Rightarrow>
                    (case getsize out w4 of
                       (Inl e, w5) \<Rightarrow> (Inl e, None, w5)
                     | (Inr final_size, w5) \<Rightarrow>
                         (Inr \<lparr>output_file = out, original_size = length F,
                               compressed_size = final_size\<rparr>, None, w5))))"
        using cs \<open>rc = Inr checksum\<close> mk tmp wa ck
        by (simp add: pack_checked_def Let_def mb_def cctx_def packed_manifest_def packed_cctx_def)
      show ?thesis
      proof (cases rw)
        case (Inl e)
        from write_archive_Inl [OF wa [unfolded Inl]] f2 l2 s2 a2
        obtain c evs where "files w3 = (files w)(tmp \<mapsto> c)"
          "fs_log w3 = fs_log w @ Created tmp # evs" "list_all (\<lambda>ev. ev = Written tmp) evs"
          "sleeps w3 = sleeps w" "attempt_log w3 = attempt_log w"
          by auto
        with run body Inl fresh tne show ?thesis by auto
      next
        case (Inr u)
        from f2 have old: "files w2 tmp = Some []" by simp
        from f2 inp ne have inp2: "files w2 inp = Some F" by simp
        from write_archive_Inr [OF wa [unfolded Inr] old inp2 ne] f2 l2 s2 a2 p2
        have len: "length mb < 4294967296"
          and f3: "files w3 = (files w)(tmp \<mapsto> packed_archive lib self inp lvl cb F)"
          and l3: "fs_log w3 = fs_log w @ [Created tmp, Written tmp, Written tmp, Written tmp, Written tmp]"
          and p3: "progress w3 = progress w @ (if cb = None then []
                  else progress_calls (length F) 0 (read_chunks (get_chunk_size (length F)) F))"
          and s3: "sleeps w3 = sleeps w" and a3: "attempt_log w3 = attempt_log w"
          by (auto simp: packed_archive_def packed_payload_def mb_def cctx_def)
        obtain rm w4 where mv: "shutil_move tmp out w3 = (rm, w4)" by (cases "shutil_move tmp out w3")
        show ?thesis
        proof (cases rm)
          case (Inl e)
          from shutil_move_Inl [OF mv [unfolded Inl]] f3 l3 s3 a3
          have "files w4 = (files w)(tmp \<mapsto> packed_archive lib self inp lvl cb F)"
            "fs_log w4 = fs_log w @ Created tmp # [Written tmp, Written tmp, Written tmp, Written tmp]"
            "sleeps w4 = sleeps w" "attempt_log w4 = attempt_log w"
            by auto
          with run body \<open>rw = Inr u\<close> mv Inl fresh tne show ?thesis by auto
        next
          case mvok: (Inr u')
          from shutil_move_Inr [OF mv [unfolded mvok]] f3 l3 s3 a3 p3 fresh
          have f4: "files w4 = (files w)(out \<mapsto> packed_archive lib self inp lvl cb F)"
            and l4: "fs_log w4 = fs_log w @ [Created tmp, Written tmp, Written tmp, Written tmp,
                                       Written tmp, Renamed tmp out]"
            and s4: "sleeps w4 = sleeps w" and a4: "attempt_log w4 = attempt_log w"
            and p4: "progress w4 = progress w @ (if cb = None then []
                  else progress_calls (length F) 0 (read_chunks (get_chunk_size (length F)) F))"
            by (auto simp: fun_upd_idem)
          obtain rg w5 where gs: "getsize out w4 = (rg, w5)" by (cases "getsize out w4")
          show ?thesis
          proof (cases rg)
            case (Inl e)
            from getsize_frame [OF gs] f4 l4 s4 a4 p4
            have "files w5 = (files w)(out \<mapsto> packed_archive lib self inp lvl cb F)"
              "fs_log w5 = fs_log w @ [Created tmp, Written tmp, Written tmp, Written tmp,
                                       Written tmp, Renamed tmp out]"
              "sleeps w5 = sleeps w" "attempt_log w5 = attempt_log w"
              "progress w5 = progress w @ (if cb = None then []
                  else progress_calls (length F) 0 (read_chunks (get_chunk_size (length F)) F))"
              by auto
            with run body \<open>rw = Inr u\<close> mv mvok gs Inl fresh len show ?thesis
              by (auto simp: mb_def)
          next
            case (Inr n)
            from getsize_Inr [OF gs [unfolded Inr]] f4 l4 s4 a4 p4
            have "n = length (packed_archive lib self inp lvl cb F)"
              "files w5 = (files w)(out \<mapsto> packed_archive lib self inp lvl cb F)"
              "fs_log w5 = fs_log w @ [Created tmp, Written tmp, Written tmp, Written tmp,
                                       Written tmp, Renamed tmp out]"
              "sleeps w5 = sleeps w" "attempt_log w5 = attempt_log w"
              "progress w5 = progress w @ (if cb = None then []
                  else progress_calls (length F) 0 (read_chunks (get_chunk_size (length F)) F))"
              by auto
            with run body \<open>rw = Inr u\<close> mv mvok gs Inr fresh len show ?thesis
              by (auto simp: mb_def)
          qed
        qed
      qed
    qed
  qed
qed


lemma compress_file_cases:
  assumes run: "compress_file lib self inp out lvl cb w = (r, w')"
  shows "sleeps w' = sleeps w
    \<and> attempt_log w' = attempt_log w @ [case r of Inl e \<Rightarrow> Some e | Inr res \<Rightarrow> None]
    \<and> ((\<exists>e. r = Inl e) \<and> files w' = files w
         \<and> (fs_log w' = fs_log w
            \<or> (\<exists>tmp evs. files w tmp = None
                  \<and> fs_log w' = fs_log w @ Created tmp # evs @ [Removed tmp]
                  \<and> list_all (\<lambda>ev. ev = Written tmp) evs))
       \<or> (\<exists>tmp F. files w tmp = None \<and> files w inp = Some F \<and> F \<noteq> []
            \<and> lower (path_suffix inp) \<in> set SUPPORTED_FORMATS
            \<and> int (length F) \<le> MAX_FILE_SIZE self
            \<and> length (json_dumps lib (packed_manifest lib self inp lvl F)) < 4294967296
            \<and> files w' = (files w)(out \<mapsto> packed_archive lib self inp lvl cb F)
            \<and> fs_log w' = fs_log w @ [Created tmp, Written tmp, Written tmp, Written tmp,
                                       Written tmp, Renamed tmp out]
            \<and> progress w' = progress w @ (if cb = None then []
                  else progress_calls (length F) 0 (read_chunks (get_chunk_size (length F)) F))
            \<and> (r = Inr \<lparr>output_file = out, original_size = length F,
                         compressed_size = length (packed_archive lib self inp lvl cb F)\<rparr>
                \<or> (\<exists>e. r = Inl e))))"
proof -
  obtain rv w0 where vi: "validate_input self inp w = (rv, w0)"
    by (cases "validate_input self inp w")
  show ?thesis
  proof (cases rv)
    case (Inl e)
    with run vi validate_input_frame [OF vi] show ?thesis
      by (auto simp: compress_file_def compress_try_def cleanup_def)
  next
    case (Inr p)
    obtain ext n where p: "p = (ext, n)" by (cases p)
    from validate_input_Inr [OF vi [unfolded Inr p]]
    obtain F where ext: "ext = lower (path_suffix inp)" and sup: "ext \<in> set SUPPORTED_FORMATS"
      and inp: "files w inp = Some F" and n: "n = length F" and ne: "F \<noteq> []"
      and sz: "int (length F) \<le> MAX_FILE_SIZE self"
      and f0: "files w0 = files w" and l0: "fs_log w0 = fs_log w" and s0: "sleeps w0 = sleeps w"
      and a0: "attempt_log w0 = attempt_log w" and p0: "progress w0 = progress w"
      by auto
    obtain r1 t w1 where pc:
      "pack_checked lib self inp out lvl cb (lower (path_suffix inp)) (length F) w0 = (r1, t, w1)"
      by (cases "pack_checked lib self inp out lvl cb (lower (path_suffix inp)) (length F) w0") auto
    from run vi Inr p ext n pc
    have r: "r = r1" and w': "w' = (cleanup t w1)
                \<lparr>attempt_log := attempt_log w1 @ [case r1 of Inl e \<Rightarrow> Some e | Inr res \<Rightarrow> None]\<rparr>"
      by (auto simp: compress_file_def compress_try_def)
    from inp f0 have inp0: "files w0 inp = Some F" by simp
    from pack_checked_cases [OF pc inp0] f0 l0 s0 a0 p0 r w' ext sup inp ne sz
    show ?thesis
      by (elim conjE disjE exE) (auto simp: cleanup_def fun_upd_idem)
  qed
qed

subsection \<open>The fixed header round-trips\<close>


lemma base256_digits:
  fixes n :: nat
  shows "n div 16777216 * 16777216 + n div 65536 mod 256 * 65536 + n div 256 mod 256 * 256
           + n mod 256 = n"
proof -
  define A where "A = n div 16777216"
  define B where "B = n div 65536"
  define C where "C = n div 256"
  define m0 where "m0 = n mod 256"
  define m1 where "m1 = n div 256 mod 256"
  define m2 where "m2 = n div 65536 mod 256"
  have "n div 256 div 256 = n div 65536" and "n div 65536 div 256 = n div 16777216"
    by (simp_all add: div_mult2_eq [symmetric])
  with div_mult_mod_eq [of n 256] div_mult_mod_eq [of "n div 256" 256]
    div_mult_mod_eq [of "n div 65536" 256]
  have "C * 256 + m0 = n" "B * 256 + m1 = C" "A * 256 + m2 = B"
    by (simp_all add: A_def B_def C_def m0_def m1_def m2_def)
  then have "A * 16777216 + m2 * 65536 + m1 * 256 + m0 = n"
    by linarith
  then show ?thesis
    by (simp add: A_def m0_def m1_def m2_def)
qed

lemma struct_unpack_pack:
  assumes "v < 256" and "n < 4294967296"
  shows "struct_unpack_BL (of_nat v # be32 n) = Inr (v, n)"
proof -
  from assms(2) have "n div 16777216 < 256" by simp
  then have "n div 16777216 mod 256 = n div 16777216" by simp
  with assms(1) base256_digits [of n] show ?thesis
    by (simp add: struct_unpack_BL_def be32_def unat_of_nat)
qed

text \<open>Unfolding everything evaluates a pack of the example.\<close>

lemmas example_eval =
  compress_file_def compress_try_def validate_input_def pack_checked_def
  path_suffix_def path_name_def strip_slashes_def lower_def lower_char_def SUPPORTED_FORMATS_def
  getsize_def io_point_def checksum_file_def read_file_def mkstemp_def path_parent_def path_div_def
  write_archive_def append_file_def struct_pack_BL_def be32_def MAGIC_def VERSION_def CHUNK_SIZE_def
  get_chunk_size_def read_chunks.simps shutil_move_def cleanup_def build_compressor_def level_of_def
  COMPRESSION_LEVELS_def build_manifest_def lstrip_dot_def Let_def
  example_lib_def example_world_def example_packager_def Packager_init_def example_content_def
  example_manifest_def example_manifest_bytes_def ascii_def example_sha_def raw_frame_def disk_full_def
  dict_truthy_def new_events_def renamed_to_def


subsection \<open>What a pack that renamed has written\<close>


lemma pack_written:
  assumes "compress_file lib self inp out lvl cb w = (r, w')"
    and "renamed_to out (new_events w w')"
  shows "\<exists>tmp F. files w tmp = None \<and> files w inp = Some F \<and> F \<noteq> []
            \<and> lower (path_suffix inp) \<in> set SUPPORTED_FORMATS
            \<and> int (length F) \<le> MAX_FILE_SIZE self
            \<and> length (json_dumps lib (packed_manifest lib self inp lvl F)) < 4294967296
            \<and> files w' = (files w)(out \<mapsto> packed_archive lib self inp lvl cb F)
            \<and> progress w' = progress w @ (if cb = None then []
                  else progress_calls (length F) 0 (read_chunks (get_chunk_size (length F)) F))"
  using compress_file_cases [OF assms(1)] assms(2)
  by (elim conjE disjE exE)
     (auto simp: new_events_def renamed_to_def list_all_iff image_iff)

lemma pack_returned:
  assumes "compress_file lib self inp out lvl cb w = (Inr res, w')"
  shows "renamed_to out (new_events w w')"
  using compress_file_cases [OF assms]
  by (elim conjE disjE exE) (auto simp: new_events_def renamed_to_def)

lemma example_pack_renamed:
  "renamed_to ''out/a.zpkg''
       (new_events (example_world [])
          (snd (compress_file example_lib example_packager ''in/a.txt'' ''out/a.zpkg'' ''high'' None
                  (example_world []))))"
  by (simp add: example_eval)

lemma example_input: "files (example_world fs) ''in/a.txt'' = Some example_content"
  by (simp add: example_world_def)


subsection \<open>The chunks of a file and the progress calls, in closed form\<close>


lemma chunk_count_step:
  assumes "0 < n" and "d \<noteq> []"
  shows "(length d + n - 1) div n = Suc ((length (drop n d) + n - 1) div n)"
proof (cases "n \<le> length d")
  case True
  from assms(2) have a: "length d + n - 1 = (length d - 1) + n"
    by (cases d) simp_all
  from True assms(1) have b: "length (drop n d) + n - 1 = length d - 1"
    by simp
  from assms(1) show ?thesis
    unfolding a b by simp
next
  case False
  with assms have "n \<le> length d + n - 1" and "length d + n - 1 < 2 * n"
    by (cases d; simp)+
  then have "(length d + n - 1) div n = 1"
    using assms(1) by (intro div_nat_eqI) simp_all
  with False assms(1) show ?thesis by simp
qed

lemma map_upt_Suc_shift: "map f [0..<Suc k] = f 0 # map (\<lambda>i. f (Suc i)) [0..<k]"
  by (simp only: map_upt_Suc)

lemma read_chunks_closed:
  "0 < n \<Longrightarrow>
     read_chunks n d = map (\<lambda>i. take n (drop (i * n) d)) [0..<(length d + n - 1) div n]"
proof (induction n d rule: read_chunks.induct)
  case (1 n d)
  show ?case
  proof (cases "d = []")
    case True
    with "1.prems" show ?thesis by simp
  next
    case False
    with "1.prems" "1.IH"
    have ih: "read_chunks n (drop n d)
        = map (\<lambda>i. take n (drop (i * n) (drop n d))) [0..<(length (drop n d) + n - 1) div n]"
      by simp
    have sh: "\<And>i. drop (i * n) (drop n d) = drop (Suc i * n) d"
      by (simp add: add.commute)
    have "read_chunks n d = take n d # read_chunks n (drop n d)"
      by (rule read_chunks_step [OF "1.prems" False])
    also have "\<dots> = take n (drop (0 * n) d)
        # map (\<lambda>i. take n (drop (Suc i * n) d)) [0..<(length (drop n d) + n - 1) div n]"
      unfolding ih sh by simp
    also have "\<dots> = map (\<lambda>i. take n (drop (i * n) d))
        [0..<Suc ((length (drop n d) + n - 1) div n)]"
      by (rule map_upt_Suc_shift [symmetric])
    finally show ?thesis
      by (simp only: chunk_count_step [OF "1.prems" False])
  qed
qed

lemma progress_calls_closed:
  "0 < n \<Longrightarrow>
     progress_calls T br (read_chunks n d)
       = map (\<lambda>i. (br + min ((i + 1) * n) (length d), T)) [0..<(length d + n - 1) div n]"
proof (induction n d arbitrary: br rule: read_chunks.induct)
  case (1 n d)
  show ?case
  proof (cases "d = []")
    case True
    with "1.prems" show ?thesis by simp
  next
    case False
    with "1.prems" "1.IH"
    have ih: "progress_calls T (br + min n (length d)) (read_chunks n (drop n d))
        = map (\<lambda>i. (br + min n (length d) + min ((i + 1) * n) (length (drop n d)), T))
            [0..<(length (drop n d) + n - 1) div n]"
      by simp
    have ar: "\<And>i. min n (length d) + min ((i + 1) * n) (length d - n)
                = min ((Suc i + 1) * n) (length d)"
    proof -
      fix i
      show "min n (length d) + min ((i + 1) * n) (length d - n) = min ((Suc i + 1) * n) (length d)"
      proof -
        define X where "X = (i + 1) * n"
        have "(Suc i + 1) * n = X + n" by (simp add: X_def)
        moreover have "n \<le> X + n" by simp
        ultimately show ?thesis
          unfolding X_def [symmetric] by (simp only: min_def) (auto)
      qed
    qed
    have "progress_calls T br (read_chunks n d)
        = (br + min n (length d), T)
            # progress_calls T (br + min n (length d)) (read_chunks n (drop n d))"
      using False "1.prems" by (simp add: read_chunks_step min.commute)
    also have "\<dots> = (br + min ((0 + 1) * n) (length d), T)
            # map (\<lambda>i. (br + min ((Suc i + 1) * n) (length d), T))
                [0..<(length (drop n d) + n - 1) div n]"
      unfolding ih using ar by (simp add: add.assoc)
    also have "\<dots> = map (\<lambda>i. (br + min ((i + 1) * n) (length d), T))
        [0..<Suc ((length (drop n d) + n - 1) div n)]"
      by (rule map_upt_Suc_shift [symmetric])
    finally show ?thesis
      by (simp only: chunk_count_step [OF "1.prems" False])
  qed
qed

lemma get_chunk_size_pos: "0 < get_chunk_size s"
  by (simp add: get_chunk_size_def)

lemma example_pack_cb_renamed:
  "renamed_to ''out/a.zpkg''
       (new_events (example_world [])
          (snd (compress_file example_lib example_packager ''in/a.txt'' ''out/a.zpkg'' ''high''
                  (Some (\<lambda>a b. None)) (example_world []))))"
  by (simp add: example_eval)


subsection \<open>A pack without I/O failures succeeds\<close>


lemma getsize_ok:
  "faults w = [] \<Longrightarrow> files w p = Some d \<Longrightarrow> getsize p w = (Inr (length d), w)"
  by (simp add: getsize_def io_point_def)

lemma read_file_ok:
  "faults w = [] \<Longrightarrow> files w p = Some d \<Longrightarrow> read_file p w = (Inr d, w)"
  by (simp add: read_file_def io_point_def)

lemma checksum_file_ok:
  "faults w = [] \<Longrightarrow> files w p = Some d \<Longrightarrow>
     checksum_file lib p w = (Inr (sha256_hexdigest lib d), w)"
  by (simp add: checksum_file_def read_file_ok CHUNK_SIZE_def concat_read_chunks)

lemma mkstemp_ok:
  "faults w = [] \<Longrightarrow> pick_fresh (files w) dir sfx (tmp_names w) = Some (p, ns) \<Longrightarrow>
     mkstemp sfx dir w =
       (Inr p, w\<lparr>files := (files w)(p \<mapsto> []), tmp_names := ns,
                  fs_log := fs_log w @ [Created p]\<rparr>)"
  by (simp add: mkstemp_def io_point_def)

lemma append_file_ok:
  "faults w = [] \<Longrightarrow>
     append_file p data w =
       (Inr (), w\<lparr>files := (files w)(p \<mapsto> (case files w p of None \<Rightarrow> [] | Some d \<Rightarrow> d) @ data),
                   fs_log := fs_log w @ [Written p]\<rparr>)"
  by (simp add: append_file_def io_point_def)

lemma shutil_move_ok:
  "faults w = [] \<Longrightarrow> files w src = Some d \<Longrightarrow>
     shutil_move src dst w =
       (Inr (), w\<lparr>files := ((files w)(src := None))(dst \<mapsto> d),
                   fs_log := fs_log w @ [Renamed src dst]\<rparr>)"
  by (simp add: shutil_move_def io_point_def)

lemma stream_chunks_ok:
  assumes "faults w = []" and "never_raises cb"
  shows "stream_chunks cb T cs br w =
     (Inr (), w\<lparr>progress := progress w @ (if cb = None then [] else progress_calls T br cs)\<rparr>)"
  using assms(1)
proof (induction cs arbitrary: br w)
  case Nil
  then show ?case by simp
next
  case (Cons c cs)
  show ?case
  proof (cases cb)
    case None
    with Cons show ?thesis by (simp add: io_point_def)
  next
    case (Some f)
    with assms(2) have "f (br + length c) T = None" by (simp add: never_raises_def)
    with Some Cons.prems Cons.IH [of "w\<lparr>progress := progress w @ [(br + length c, T)]\<rparr>" "br + length c"]
    show ?thesis by (simp add: io_point_def)
  qed
qed

lemma validate_input_ok:
  assumes "faults w = []" and "files w inp = Some F" and "F \<noteq> []"
    and "lower (path_suffix inp) \<in> set SUPPORTED_FORMATS"
    and "int (length F) \<le> MAX_FILE_SIZE self"
  shows "validate_input self inp w = (Inr (lower (path_suffix inp), length F), w)"
  using assms by (simp add: validate_input_def getsize_ok)

lemma write_archive_ok:
  assumes "faults w = []" and "files w inp = Some F" and "files w tmp = Some []" and "tmp \<noteq> inp"
    and "length mb < 4294967296"
    and "never_raises cb"
  shows "write_archive lib cctx mb inp osize cb tmp w =
     (Inr (), w\<lparr>files := (files w)(tmp \<mapsto> MAGIC @ (of_nat VERSION # be32 (length mb)) @ mb
                     @ zstd_compress lib cctx (read_chunks (get_chunk_size osize) F)),
                 progress := progress w @ (if cb = None then []
                    else progress_calls osize 0 (read_chunks (get_chunk_size osize) F)),
                 fs_log := fs_log w @ [Written tmp, Written tmp, Written tmp, Written tmp]\<rparr>)"
  using assms(1-5)
  by (simp add: write_archive_def append_file_ok struct_pack_BL_def VERSION_def read_file_ok
        stream_chunks_ok assms(6))

lemma compress_file_succeeds:
  assumes nf: "faults w = []" and inp: "files w inp = Some F" and ne: "F \<noteq> []"
    and sup: "lower (path_suffix inp) \<in> set SUPPORTED_FORMATS"
    and sz: "int (length F) \<le> MAX_FILE_SIZE self"
    and len: "length (json_dumps lib (packed_manifest lib self inp lvl F)) < 4294967296"
    and tmp: "pick_fresh (files w) (path_parent out) ''.zpkg.tmp'' (tmp_names w) = Some (tmp, ns)"
    and cb: "never_raises cb"
  shows "compress_file lib self inp out lvl cb w =
     (Inr \<lparr>output_file = out, original_size = length F,
           compressed_size = length (packed_archive lib self inp lvl cb F)\<rparr>,
      w\<lparr>files := (files w)(out \<mapsto> packed_archive lib self inp lvl cb F),
        tmp_names := ns,
        progress := progress w @ (if cb = None then []
           else progress_calls (length F) 0 (read_chunks (get_chunk_size (length F)) F)),
        attempt_log := attempt_log w @ [None],
        fs_log := fs_log w @ [Created tmp, Written tmp, Written tmp, Written tmp, Written tmp,
                              Renamed tmp out]\<rparr>)"
proof -
  from pick_fresh_Some [OF tmp] have fresh: "files w tmp = None" by simp
  with inp have ne': "tmp \<noteq> inp" by auto
  note len' = len [unfolded packed_manifest_def]
  show ?thesis
    using nf inp ne sup sz fresh ne' len' cb
    by (simp add: compress_file_def compress_try_def validate_input_ok pack_checked_def
          checksum_file_ok mkstemp_ok [OF nf tmp] Let_def write_archive_ok
          packed_archive_def packed_payload_def packed_cctx_def packed_manifest_def
          shutil_move_ok getsize_ok cleanup_def fun_upd_idem)
qed


subsection \<open>Facts about the example\<close>


lemma example_fresh:
  "pick_fresh (files (example_world [])) (path_parent ''out/a.zpkg'') ''.zpkg.tmp''
     (tmp_names (example_world [])) = Some (''out/tmpk3v9x2qa.zpkg.tmp'', [''p07dmw1z''])"
  by (simp add: example_world_def path_parent_def strip_slashes_def path_div_def)

lemma example_supported: "lower (path_suffix ''in/a.txt'') \<in> set SUPPORTED_FORMATS"
  by (simp add: path_suffix_def path_name_def strip_slashes_def lower_def lower_char_def
        SUPPORTED_FORMATS_def)


subsection \<open>The operations of the unpacker, one result at a time\<close>


lemma mkdir_result:
  "mkdir p w = (r, w') \<Longrightarrow>
     files w' = files w \<and> fs_log w' = fs_log w \<and> sleeps w' = sleeps w
     \<and> attempt_log w' = attempt_log w \<and> progress w' = progress w \<and> tmp_names w' = tmp_names w"
  by (auto simp: mkdir_def split: prod.splits option.splits dest!: io_point_frame)

lemma mkdir_ok: "faults w = [] \<Longrightarrow> mkdir p w = (Inr (), w)"
  by (simp add: mkdir_def io_point_def)

lemma write_chunks_ok:
  "faults w = [] \<Longrightarrow> files w p = Some old \<Longrightarrow>
     write_chunks p cs w =
       (Inr (), w\<lparr>files := (files w)(p \<mapsto> old @ concat cs),
                   fs_log := fs_log w @ replicate (length cs) (Written p)\<rparr>)"
proof (induction cs arbitrary: w old)
  case Nil
  then show ?case by (simp add: fun_upd_idem)
next
  case (Cons c cs)
  let ?w1 = "w\<lparr>files := (files w)(p \<mapsto> old @ c), fs_log := fs_log w @ [Written p]\<rparr>"
  from Cons.prems have "faults ?w1 = []" and "files ?w1 p = Some (old @ c)" by simp_all
  from Cons.IH [OF this] Cons.prems show ?case
    by (simp add: append_file_ok replicate_app_Cons_same) (simp add: fun_eq_iff)
qed

lemma write_chunks_Inr:
  "write_chunks p cs w = (Inr u, w') \<Longrightarrow> files w p = Some old \<Longrightarrow>
     files w' = (files w)(p \<mapsto> old @ concat cs)
     \<and> fs_log w' = fs_log w @ replicate (length cs) (Written p)
     \<and> sleeps w' = sleeps w \<and> attempt_log w' = attempt_log w \<and> progress w' = progress w"
proof (induction cs arbitrary: w old)
  case Nil
  then show ?case by (simp add: fun_upd_idem)
next
  case (Cons c cs)
  obtain ra w1 where ap: "append_file p c w = (ra, w1)" by (cases "append_file p c w")
  with Cons.prems(1) obtain u1 where ra: "ra = Inr u1" by (cases ra) auto
  from append_file_Inr [OF ap [unfolded ra]] Cons.prems(2)
  have f1: "files w1 = (files w)(p \<mapsto> old @ c)" and l1: "fs_log w1 = fs_log w @ [Written p]"
    and o1: "sleeps w1 = sleeps w" "attempt_log w1 = attempt_log w" "progress w1 = progress w"
    by auto
  from Cons.prems(1) ap ra have "write_chunks p cs w1 = (Inr u, w')" by simp
  from Cons.IH [OF this, of "old @ c"] f1 l1 o1 show ?case
    by (simp add: replicate_app_Cons_same) (simp add: fun_eq_iff)
qed

lemma write_chunks_Inl:
  "write_chunks p cs w = (Inl e, w') \<Longrightarrow> files w p = Some old \<Longrightarrow>
     (\<forall>q. q \<noteq> p \<longrightarrow> files w' q = files w q) \<and> files w' p \<noteq> None
     \<and> (\<exists>evs. fs_log w' = fs_log w @ evs \<and> list_all (\<lambda>ev. ev = Written p) evs)
     \<and> sleeps w' = sleeps w \<and> attempt_log w' = attempt_log w \<and> progress w' = progress w"
proof (induction cs arbitrary: w old)
  case Nil
  then show ?case by simp
next
  case (Cons c cs)
  obtain ra w1 where ap: "append_file p c w = (ra, w1)" by (cases "append_file p c w")
  show ?case
  proof (cases ra)
    case (Inl e1)
    from append_file_Inl [OF ap [unfolded Inl]] Cons.prems ap Inl
    have "files w' = files w" "fs_log w' = fs_log w @ []" "sleeps w' = sleeps w"
      "attempt_log w' = attempt_log w" "progress w' = progress w"
      by auto
    with Cons.prems(2) show ?thesis by (metis list.pred_inject(1) option.distinct(1))
  next
    case (Inr u1)
    from append_file_Inr [OF ap [unfolded Inr]] Cons.prems(2)
    have f1: "files w1 = (files w)(p \<mapsto> old @ c)" and l1: "fs_log w1 = fs_log w @ [Written p]"
      and o1: "sleeps w1 = sleeps w" "attempt_log w1 = attempt_log w" "progress w1 = progress w"
      by auto
    from f1 have f1p: "files w1 p = Some (old @ c)" by simp
    from Cons.prems(1) ap Inr have "write_chunks p cs w1 = (Inl e, w')" by simp
    from Cons.IH [OF this f1p] obtain evs where
      a: "\<forall>q. q \<noteq> p \<longrightarrow> files w' q = files w1 q" and b: "files w' p \<noteq> None"
      and c: "fs_log w' = fs_log w1 @ evs" and d: "list_all (\<lambda>ev. ev = Written p) evs"
      and e: "sleeps w' = sleeps w1" "attempt_log w' = attempt_log w1" "progress w' = progress w1"
      by auto
    from a f1 have a': "\<forall>q. q \<noteq> p \<longrightarrow> files w' q = files w q" by simp
    from c l1 d have "fs_log w' = fs_log w @ (Written p # evs)"
      and "list_all (\<lambda>ev. ev = Written p) (Written p # evs)" by simp_all
    with a' b e o1 show ?thesis by metis
  qed
qed

lemma decompress_to_Inr:
  assumes "decompress_to lib dctx payload tmp w = (Inr u, w')"
    and "zstd_decompress lib dctx payload = (R, err)" and "files w tmp = Some old"
  shows "err = None \<and> files w' = (files w)(tmp \<mapsto> old @ R)
     \<and> fs_log w' = fs_log w @ replicate (length (read_chunks CHUNK_SIZE R)) (Written tmp)
     \<and> sleeps w' = sleeps w \<and> attempt_log w' = attempt_log w \<and> progress w' = progress w"
  using assms
  by (auto simp: decompress_to_def CHUNK_SIZE_def concat_read_chunks
           split: prod.splits sum.splits option.splits dest!: write_chunks_Inr)

lemma decompress_to_Inl:
  assumes "decompress_to lib dctx payload tmp w = (Inl e, w')" and "files w tmp = Some old"
  shows "(\<forall>q. q \<noteq> tmp \<longrightarrow> files w' q = files w q) \<and> files w' tmp \<noteq> None
     \<and> (\<exists>evs. fs_log w' = fs_log w @ evs \<and> list_all (\<lambda>ev. ev = Written tmp) evs)
     \<and> sleeps w' = sleeps w \<and> attempt_log w' = attempt_log w \<and> progress w' = progress w"
proof -
  obtain R err where z: "zstd_decompress lib dctx payload = (R, err)"
    by (cases "zstd_decompress lib dctx payload")
  obtain rw w1 where wc: "write_chunks tmp (read_chunks CHUNK_SIZE R) w = (rw, w1)"
    by (cases "write_chunks tmp (read_chunks CHUNK_SIZE R) w")
  show ?thesis
  proof (cases rw)
    case (Inl e1)
    with assms(1) z wc have "w' = w1" by (simp add: decompress_to_def)
    with write_chunks_Inl [OF wc [unfolded Inl] assms(2)] show ?thesis by simp
  next
    case (Inr u1)
    with assms(1) z wc have "w' = w1" by (auto simp: decompress_to_def split: option.splits)
    with write_chunks_Inr [OF wc [unfolded Inr] assms(2)] show ?thesis
      by (auto simp: list_all_iff)
  qed
qed

lemma decompress_to_ok:
  assumes "faults w = []" and "files w tmp = Some old"
    and "zstd_decompress lib dctx payload = (R, None)"
  shows "decompress_to lib dctx payload tmp w =
       (Inr (), w\<lparr>files := (files w)(tmp \<mapsto> old @ R),
                   fs_log := fs_log w @ replicate (length (read_chunks CHUNK_SIZE R)) (Written tmp)\<rparr>)"
  using assms
  by (simp add: decompress_to_def write_chunks_ok CHUNK_SIZE_def concat_read_chunks)

lemma verify_checksum_Inl:
  "verify_checksum lib manifest tmp w = (Inl e, w') \<Longrightarrow>
     files w' = files w \<and> fs_log w' = fs_log w \<and> sleeps w' = sleeps w
     \<and> attempt_log w' = attempt_log w \<and> progress w' = progress w"
  by (auto simp: verify_checksum_def split: sum.splits prod.splits if_splits
           dest!: checksum_file_frame)

lemma verify_checksum_Inr:
  assumes "verify_checksum lib (JObj kvs) tmp w = (Inr u, w')" and "files w tmp = Some R"
  shows "(\<not> truthy (case map_of kvs ''checksum'' of Some c \<Rightarrow> c | None \<Rightarrow> JNull)
          \<or> (case map_of kvs ''checksum'' of Some c \<Rightarrow> c | None \<Rightarrow> JNull)
               = JStr (sha256_hexdigest lib R))
     \<and> files w' = files w \<and> fs_log w' = fs_log w \<and> sleeps w' = sleeps w
     \<and> attempt_log w' = attempt_log w \<and> progress w' = progress w"
  using assms
  by (auto simp: verify_checksum_def split: sum.splits prod.splits if_splits
           dest!: checksum_file_Inr)


subsection \<open>Unpacking: success without I/O failures, and a checksum mismatch under any\<close>


lemma unpack_succeeds:
  assumes nf: "faults w = []" and pkg: "files w pkg = Some data"
    and hdr: "read_header lib data = Inr (v, JObj kvs, payload)"
    and dec: "zstd_decompress lib
                (build_decompressor self (case map_of kvs ''has_dict'' of Some x \<Rightarrow> x | None \<Rightarrow> JBool False))
                payload = (R, None)"
    and tmp: "pick_fresh (files w) outdir ''.tmp'' (tmp_names w) = Some (tmp, ns)"
    and ok: "\<not> truthy (case map_of kvs ''checksum'' of Some c \<Rightarrow> c | None \<Rightarrow> JNull)
             \<or> (case map_of kvs ''checksum'' of Some c \<Rightarrow> c | None \<Rightarrow> JNull)
                  = JStr (sha256_hexdigest lib R)"
    and mode: "(case map_of kvs ''mode'' of Some m \<Rightarrow> m | None \<Rightarrow> JNull) \<noteq> JStr ''visual''"
    and name: "map_of kvs ''original_filename'' = Some (JStr name)"
  shows "unpack lib self pkg outdir w =
     (Inr \<lparr>restored_path = path_div outdir name,
           manifest_original_size = (case map_of kvs ''original_size'' of Some x \<Rightarrow> x | None \<Rightarrow> JNull)\<rparr>,
      w\<lparr>files := (files w)(path_div outdir name \<mapsto> R),
        tmp_names := ns,
        fs_log := fs_log w @ Created tmp # replicate (length (read_chunks CHUNK_SIZE R)) (Written tmp)
                    @ [Renamed tmp (path_div outdir name)]\<rparr>)"
proof -
  from pick_fresh_Some [OF tmp] have fresh: "files w tmp = None" by simp
  have fe: "((files w)(tmp := None))(path_div outdir name \<mapsto> R) = (files w)(path_div outdir name \<mapsto> R)"
    using fresh by (simp add: fun_upd_idem)
  show ?thesis
    using nf pkg hdr dec ok mode name fresh
    by (auto simp: unpack_def unpack_try_def read_file_ok mkdir_ok mkstemp_ok [OF nf tmp]
          decompress_to_ok commit_restored_def verify_checksum_def checksum_file_ok
          final_path_of_def shutil_move_ok cleanup_def Let_def fe fun_upd_idem)
qed

lemma unpack_mismatch_raises:
  assumes nf: "faults w = []" and pkg: "files w pkg = Some data"
    and hdr: "read_header lib data = Inr (v, JObj kvs, payload)"
    and dec: "zstd_decompress lib
                (build_decompressor self (case map_of kvs ''has_dict'' of Some x \<Rightarrow> x | None \<Rightarrow> JBool False))
                payload = (R, None)"
    and tmp: "pick_fresh (files w) outdir ''.tmp'' (tmp_names w) = Some (tmp, ns)"
    and tr: "truthy (case map_of kvs ''checksum'' of Some c \<Rightarrow> c | None \<Rightarrow> JNull)"
    and mm: "(case map_of kvs ''checksum'' of Some c \<Rightarrow> c | None \<Rightarrow> JNull)
                  \<noteq> JStr (sha256_hexdigest lib R)"
  shows "fst (unpack lib self pkg outdir w) = Inl (ValueError ChecksumMismatch)"
  using nf pkg hdr dec tr mm pick_fresh_Some [OF tmp]
  by (auto simp: unpack_def unpack_try_def read_file_ok mkdir_ok mkstemp_ok [OF nf tmp]
        decompress_to_ok commit_restored_def verify_checksum_def checksum_file_ok)

lemma unpack_mismatch:
  assumes run: "unpack lib self pkg outdir w = (r, w')" and pkg: "files w pkg = Some data"
    and hdr: "read_header lib data = Inr (v, JObj kvs, payload)"
    and dec: "zstd_decompress lib
                (build_decompressor self (case map_of kvs ''has_dict'' of Some x \<Rightarrow> x | None \<Rightarrow> JBool False))
                payload = (R, err)"
    and tr: "truthy (case map_of kvs ''checksum'' of Some c \<Rightarrow> c | None \<Rightarrow> JNull)"
    and mm: "(case map_of kvs ''checksum'' of Some c \<Rightarrow> c | None \<Rightarrow> JNull)
                  \<noteq> JStr (sha256_hexdigest lib R)"
  shows "(\<exists>e. r = Inl e) \<and> files w' = files w
         \<and> (\<exists>evs. fs_log w' = fs_log w @ evs \<and> list_all (\<lambda>ev. rename_target ev = None) evs)"
proof -
  let ?hd = "case map_of kvs ''has_dict'' of Some x \<Rightarrow> x | None \<Rightarrow> JBool False"
  obtain rr w1 where rf: "read_file pkg w = (rr, w1)" by (cases "read_file pkg w")
  show ?thesis
  proof (cases rr)
    case (Inl e)
    with run rf read_file_Inl [OF rf [unfolded Inl]] show ?thesis
      by (auto simp: unpack_def unpack_try_def cleanup_def)
  next
    case (Inr d)
    from read_file_Inr [OF rf [unfolded Inr]] pkg
    have d: "d = data" and f1: "files w1 = files w" and l1: "fs_log w1 = fs_log w" by auto
    obtain rm w2 where md: "mkdir outdir w1 = (rm, w2)" by (cases "mkdir outdir w1")
    from mkdir_result [OF md] f1 l1 have f2: "files w2 = files w" and l2: "fs_log w2 = fs_log w"
      by auto
    show ?thesis
    proof (cases rm)
      case (Inl e)
      with run rf Inr d hdr md f2 l2 show ?thesis
        by (auto simp: unpack_def unpack_try_def cleanup_def)
    next
      case mdok: (Inr u)
      obtain rt w3 where mk: "mkstemp ''.tmp'' outdir w2 = (rt, w3)"
        by (cases "mkstemp ''.tmp'' outdir w2")
      show ?thesis
      proof (cases rt)
        case (Inl e)
        with run rf Inr d hdr md mdok mk mkstemp_Inl [OF mk [unfolded Inl]] f2 l2 show ?thesis
          by (auto simp: unpack_def unpack_try_def cleanup_def)
      next
        case tmp: (Inr tmp)
        from mkstemp_Inr [OF mk [unfolded tmp]] f2 l2
        have fresh: "files w tmp = None" and tne: "tmp \<noteq> []"
          and f3: "files w3 = (files w)(tmp \<mapsto> [])" and l3: "fs_log w3 = fs_log w @ [Created tmp]"
          by auto
        from f3 have t3: "files w3 tmp = Some []" by simp
        obtain rd w4 where dc: "decompress_to lib (build_decompressor self ?hd) payload tmp w3 = (rd, w4)"
          by (cases "decompress_to lib (build_decompressor self ?hd) payload tmp w3")
        have body: "unpack lib self pkg outdir w =
            (case rd of
               Inl e \<Rightarrow> (Inl e, cleanup (Some tmp) w4)
             | Inr u' \<Rightarrow>
                 (case commit_restored lib outdir (JObj kvs) tmp w4 of
                    (r, tmp_path, w5) \<Rightarrow> (r, cleanup tmp_path w5)))"
          using rf Inr d hdr md mdok mk tmp dc
          by (auto simp: unpack_def unpack_try_def split: sum.splits)
        show ?thesis
        proof (cases rd)
          case (Inl e)
          from decompress_to_Inl [OF dc [unfolded Inl] t3] f3 l3 obtain evs where
            a: "\<forall>q. q \<noteq> tmp \<longrightarrow> files w4 q = files w q" and b: "files w4 tmp \<noteq> None"
            and c: "fs_log w4 = fs_log w @ Created tmp # evs" and dd: "list_all (\<lambda>ev. ev = Written tmp) evs"
            by auto
          from a b fresh tne have "files (cleanup (Some tmp) w4) = files w"
            by (auto simp: cleanup_def fun_eq_iff)
          moreover from b c tne have "fs_log (cleanup (Some tmp) w4) = fs_log w @ (Created tmp # evs @ [Removed tmp])"
            by (simp add: cleanup_def)
          moreover from dd have "list_all (\<lambda>ev. rename_target ev = None) (Created tmp # evs @ [Removed tmp])"
            by (auto simp: list_all_iff)
          ultimately show ?thesis using run body Inl by auto
        next
          case dok: (Inr u')
          from decompress_to_Inr [OF dc [unfolded dok] dec t3] f3 l3
          have f4: "files w4 = (files w)(tmp \<mapsto> R)"
            and l4: "fs_log w4 = fs_log w @ Created tmp # replicate (length (read_chunks CHUNK_SIZE R)) (Written tmp)"
            by auto
          from f4 have t4: "files w4 tmp = Some R" by simp
          obtain rv w5 where vc: "verify_checksum lib (JObj kvs) tmp w4 = (rv, w5)"
            by (cases "verify_checksum lib (JObj kvs) tmp w4")
          show ?thesis
          proof (cases rv)
            case (Inl e)
            from verify_checksum_Inl [OF vc [unfolded Inl]] f4 l4
            have f5: "files w5 = (files w)(tmp \<mapsto> R)"
              and l5: "fs_log w5 = fs_log w @ Created tmp # replicate (length (read_chunks CHUNK_SIZE R)) (Written tmp)"
              by auto
            from f5 fresh tne have "files (cleanup (Some tmp) w5) = files w"
              by (auto simp: cleanup_def fun_eq_iff)
            moreover from f5 l5 tne have "fs_log (cleanup (Some tmp) w5)
                = fs_log w @ (Created tmp # replicate (length (read_chunks CHUNK_SIZE R)) (Written tmp)
                     @ [Removed tmp])"
              by (simp add: cleanup_def)
            moreover have "list_all (\<lambda>ev. rename_target ev = None)
                (Created tmp # replicate (length (read_chunks CHUNK_SIZE R)) (Written tmp) @ [Removed tmp])"
              by (auto simp: list_all_iff)
            ultimately show ?thesis using run body dok vc Inl
              by (auto simp: commit_restored_def)
          next
            case (Inr u'')
            from verify_checksum_Inr [OF vc [unfolded Inr] t4] tr mm show ?thesis by simp
          qed
        qed
      qed
    qed
  qed
qed


subsection \<open>Facts about the example archives\<close>


lemmas example_unpack_eval =
  read_header_def UNPACK_MAGICS_def struct_unpack_BL_def example_archive_def MAGIC_def be32_def
  example_manifest_bytes_def ascii_def bare_manifest_bytes_def raw_frame_def example_lib_def
  example_manifest_def bare_manifest_def example_sha_def example_content_def
  build_decompressor_def example_unpacker_def dict_truthy_def example_store_def
  path_div_def strip_slashes_def

lemma example_header:
  "read_header example_lib (example_archive (example_manifest_bytes ''high'' d) c)
     = Inr (1, example_manifest ''high'' d, raw_frame c)"
  by (cases d) (simp_all add: example_unpack_eval)

lemma example_bare_header:
  "read_header example_lib (example_archive bare_manifest_bytes c)
     = Inr (1, bare_manifest, raw_frame c)"
  by (simp add: example_unpack_eval)

lemma example_decompress:
  "zstd_decompress example_lib dctx (raw_frame c) = (c, None)"
  by (simp add: example_lib_def raw_frame_def)

lemma example_store_fresh:
  "pick_fresh (files (example_store a [])) ''restored'' ''.tmp'' (tmp_names (example_store a []))
     = Some (''restored/tmpw8r2c5yt.tmp'', [])"
  by (simp add: example_store_def path_div_def strip_slashes_def)


subsection \<open>The decompressor without a cached dictionary\<close>


lemma build_decompressor_no_dict:
  "\<not> dict_truthy (unpacker_dict self) \<Longrightarrow> build_decompressor self has_dict = None"
  by (simp add: build_decompressor_def)


subsection \<open>Reading back the header the packager wrote\<close>


lemma read_header_packed:
  assumes len: "length (json_dumps lib (packed_manifest lib self inp lvl F)) < 4294967296"
    and js: "json_loads lib (json_dumps lib (packed_manifest lib self inp lvl F))
               = Inr (packed_manifest lib self inp lvl F)"
  shows "read_header lib (packed_archive lib self inp lvl cb F)
     = Inr (VERSION, packed_manifest lib self inp lvl F, packed_payload lib self lvl cb F)"
proof -
  define mb where "mb = json_dumps lib (packed_manifest lib self inp lvl F)"
  define pl where "pl = packed_payload lib self lvl cb F"
  have ar: "packed_archive lib self inp lvl cb F = MAGIC @ (of_nat VERSION # be32 (length mb)) @ mb @ pl"
    by (simp add: packed_archive_def mb_def pl_def)
  have l4: "length MAGIC = 4" by (simp add: MAGIC_def)
  have l5: "length (of_nat VERSION # be32 (length mb) :: bytes) = 5" by (simp add: be32_def)
  have t4: "take 4 (MAGIC @ (of_nat VERSION # be32 (length mb)) @ mb @ pl) = MAGIC"
    using l4 by simp
  have d4: "drop 4 (MAGIC @ (of_nat VERSION # be32 (length mb)) @ mb @ pl)
              = (of_nat VERSION # be32 (length mb)) @ mb @ pl"
    using l4 by simp
  have t5: "take 5 ((of_nat VERSION # be32 (length mb)) @ mb @ pl) = of_nat VERSION # be32 (length mb)"
    using l5 by (simp add: be32_def)
  have d9: "drop 9 (MAGIC @ (of_nat VERSION # be32 (length mb)) @ mb @ pl) = mb @ pl"
    using l4 l5 by (simp add: be32_def MAGIC_def)
  have su: "struct_unpack_BL (of_nat VERSION # be32 (length mb)) = Inr (VERSION, length mb)"
    using struct_unpack_pack [of VERSION "length mb"] len by (simp add: VERSION_def mb_def)
  have mg: "MAGIC \<in> set UNPACK_MAGICS" by (simp add: MAGIC_def UNPACK_MAGICS_def)
  have "drop (9 + length mb) (MAGIC @ (of_nat VERSION # be32 (length mb)) @ mb @ pl)
          = drop (length mb) (drop 9 (MAGIC @ (of_nat VERSION # be32 (length mb)) @ mb @ pl))"
    by (simp only: drop_drop add.commute)
  then have d9': "drop (9 + length mb) (MAGIC @ (of_nat VERSION # be32 (length mb)) @ mb @ pl) = pl"
    by (simp only: d9) simp
  show ?thesis
    unfolding ar read_header_def t4 d4 t5 d9
    using mg su js d9' by (simp add: mb_def pl_def)
qed

lemma decompressor_matches_compressor:
  "unpacker_dict u = cached_dict p \<Longrightarrow>
     build_decompressor u (JBool (cached_dict p \<noteq> None)) = dict_data (packed_cctx p lvl cb F)"
  by (auto simp: build_decompressor_def packed_cctx_def build_compressor_def dict_truthy_def
           Let_def split: option.splits)


subsection \<open>The retry loop\<close>


lemma compress_file_logs:
  assumes "compress_file lib self inp out lvl cb w = (r, w')"
  shows "sleeps w' = sleeps w
     \<and> attempt_log w' = attempt_log w @ [case r of Inl e \<Rightarrow> Some e | Inr res \<Rightarrow> None]"
  using compress_file_cases [OF assms] by simp

lemma doubling_shift:
  "0 < n \<Longrightarrow> (d::real) # map (\<lambda>i. d * 2 * 2 ^ i) [0..<n - 1] = map (\<lambda>i. d * 2 ^ i) [0..<n]"
proof -
  assume "0 < n"
  then obtain m where n: "n = Suc m" by (cases n) auto
  have "map (\<lambda>i. d * 2 ^ i) [0..<Suc m] = d * 2 ^ 0 # map (\<lambda>i. d * 2 ^ Suc i) [0..<m]"
    by (rule map_upt_Suc_shift)
  then show ?thesis by (simp add: n mult.assoc)
qed

lemma retry_loop_spec:
  assumes "0 \<le> d"
    and "retry_loop lib self inp out lvl cb k d last_error w = (r, w')"
  shows "\<exists>log. attempt_log w' = attempt_log w @ log
       \<and> length log \<le> k \<and> (0 < k \<longrightarrow> log \<noteq> [])
       \<and> (\<forall>x \<in> set (butlast log). \<exists>e. x = Some e \<and> \<not> is_ValueError e)
       \<and> (log \<noteq> [] \<longrightarrow> last log = (case r of Inl e \<Rightarrow> Some e | Inr res \<Rightarrow> None))
       \<and> (log \<noteq> [] \<and> (\<exists>e. r = Inl e \<and> \<not> is_ValueError e) \<longrightarrow> length log = k)
       \<and> sleeps w' = sleeps w @ map (\<lambda>i. d * 2 ^ i) [0..<length log - 1]"
  using assms
proof (induction k arbitrary: d last_error w)
  case 0
  then have "attempt_log w' = attempt_log w @ []" and "sleeps w' = sleeps w"
    by (auto split: option.splits)
  then show ?case by (intro exI [of _ "[]"]) simp
next
  case (Suc k)
  obtain r1 w1 where cf: "compress_file lib self inp out lvl cb w = (r1, w1)"
    by (cases "compress_file lib self inp out lvl cb w")
  from compress_file_logs [OF cf]
  have s1: "sleeps w1 = sleeps w"
    and a1: "attempt_log w1 = attempt_log w @ [case r1 of Inl e \<Rightarrow> Some e | Inr res \<Rightarrow> None]"
    by simp_all
  show ?case
  proof (cases r1)
    case (Inr res)
    with Suc.prems(2) cf have "r = Inr res" "w' = w1" by simp_all
    with s1 a1 Inr show ?thesis by (intro exI [of _ "[None]"]) simp
  next
    case (Inl e)
    show ?thesis
    proof (cases "is_ValueError e")
      case True
      with Suc.prems(2) cf Inl have "r = Inl e" "w' = w1" by simp_all
      with s1 a1 Inl True show ?thesis by (intro exI [of _ "[Some e]"]) simp
    next
      case False
      show ?thesis
      proof (cases "0 < k")
        case k0: False
        with Suc.prems(2) cf Inl False have "r = Inl e" "w' = w1" by simp_all
        with s1 a1 Inl False k0 show ?thesis by (intro exI [of _ "[Some e]"]) simp
      next
        case True
        let ?w2 = "w1\<lparr>sleeps := sleeps w1 @ [d]\<rparr>"
        from Suc.prems cf Inl False True
        have rest: "retry_loop lib self inp out lvl cb k (d * 2) (Some e) ?w2 = (r, w')"
          by (simp add: time_sleep_def)
        from Suc.prems(1) have "0 \<le> d * 2" by simp
        from Suc.IH [OF this rest] True obtain log where
          al: "attempt_log w' = attempt_log ?w2 @ log" and ln: "length log \<le> k" and ne: "log \<noteq> []"
          and tr: "\<forall>x \<in> set (butlast log). \<exists>e. x = Some e \<and> \<not> is_ValueError e"
          and la: "last log = (case r of Inl e \<Rightarrow> Some e | Inr res \<Rightarrow> None)"
          and ex: "(\<exists>e. r = Inl e \<and> \<not> is_ValueError e) \<longrightarrow> length log = k"
          and sl: "sleeps w' = sleeps ?w2 @ map (\<lambda>i. d * 2 * 2 ^ i) [0..<length log - 1]"
          by auto
        from ne have pos: "0 < length log" by simp
        have "sleeps w' = sleeps w @ map (\<lambda>i. d * 2 ^ i) [0..<length (Some e # log) - 1]"
          using sl s1 doubling_shift [OF pos, of d] by simp
        moreover have "attempt_log w' = attempt_log w @ (Some e # log)"
          using al a1 Inl by simp
        moreover have "\<forall>x \<in> set (butlast (Some e # log)). \<exists>e. x = Some e \<and> \<not> is_ValueError e"
          using tr ne False by simp
        moreover have "last (Some e # log) = (case r of Inl e \<Rightarrow> Some e | Inr res \<Rightarrow> None)"
          using la ne by simp
        moreover have "(\<exists>e. r = Inl e \<and> \<not> is_ValueError e) \<longrightarrow> length (Some e # log) = Suc k"
          using ex by simp
        moreover have "length (Some e # log) \<le> Suc k" using ln by simp
        ultimately show ?thesis
          by (intro exI [of _ "Some e # log"]) simp
      qed
    qed
  qed
qed


subsection \<open>Inputs that fail the checks\<close>


lemma io_point_next_ok:
  "faults w = [] \<or> (\<exists>fs. faults w = None # fs) \<Longrightarrow> \<exists>w1. io_point w = (None, w1) \<and> files w1 = files w"
  by (auto simp: io_point_def)

lemma permanent_input_raises:
  assumes "lower (path_suffix inp) \<notin> set SUPPORTED_FORMATS
     \<or> ((faults w = [] \<or> (\<exists>fs. faults w = None # fs))
         \<and> (\<exists>F. files w inp = Some F \<and> (F = [] \<or> MAX_FILE_SIZE self < int (length F))))"
  shows "\<exists>m. fst (compress_file lib self inp out lvl cb w) = Inl (ValueError m)"
proof (cases "lower (path_suffix inp) \<in> set SUPPORTED_FORMATS")
  case False
  then show ?thesis
    by (simp add: compress_file_def compress_try_def validate_input_def)
next
  case True
  with assms obtain F where io: "faults w = [] \<or> (\<exists>fs. faults w = None # fs)"
    and F: "files w inp = Some F" and bad: "F = [] \<or> MAX_FILE_SIZE self < int (length F)"
    by auto
  from io_point_next_ok [OF io] obtain w1 where "io_point w = (None, w1)" "files w1 = files w"
    by auto
  with True F bad show ?thesis
    by (auto simp: compress_file_def compress_try_def validate_input_def getsize_def)
qed


text \<open>Unfolding these evaluates a retry loop with a numeral for the maximum.\<close>

lemma retry_loop_numeral:
  "retry_loop lib self inp out lvl cb (numeral n) d last_error w =
     (case compress_file lib self inp out lvl cb w of
        (Inr r, w1) \<Rightarrow> (Inr r, w1)
      | (Inl e, w1) \<Rightarrow>
          if is_ValueError e then (Inl e, w1)
          else if 0 < pred_numeral n then
            (case time_sleep d w1 of
               (Inl e', w2) \<Rightarrow> (Inl e', w2)
             | (Inr u, w2) \<Rightarrow>
                 retry_loop lib self inp out lvl cb (pred_numeral n) (d * 2) (Some e) w2)
          else retry_loop lib self inp out lvl cb (pred_numeral n) d (Some e) w1)"
  by (simp only: numeral_eq_Suc retry_loop.simps)

lemmas retry_eval =
  compress_with_retry_def retry_loop_numeral retry_loop.simps time_sleep_def

subsection \<open>The batch loop\<close>


lemma record_result_cases:
  "record_result cb T outcome t = (x, t1) \<Longrightarrow>
     failures t1 = failures t \<and> completed t1 = completed t
     \<and> (case outcome of
           Inl e \<Rightarrow> x = Some e \<and> results t1 = results t
         | Inr res \<Rightarrow> results t1 = results t @ [res]
             \<and> (case cb of None \<Rightarrow> x = None
                 | Some f \<Rightarrow> x = f (completed t) T (Succeeded res)))"
  by (auto simp: record_result_def split: sum.splits option.splits)

lemma drain_failures_grow:
  "drain cb T finished t = Inr t' \<Longrightarrow> set (failures t) \<subseteq> set (failures t')"
proof (induction finished arbitrary: t)
  case Nil
  then show ?case by simp
next
  case (Cons a finished)
  obtain inp out outcome where a: "a = ((inp, out), outcome)" by (cases a) auto
  obtain x t1 where rr: "record_result cb T outcome (t\<lparr>completed := completed t + 1\<rparr>) = (x, t1)"
    by (cases "record_result cb T outcome (t\<lparr>completed := completed t + 1\<rparr>)")
  from record_result_cases [OF rr] have f1: "failures t1 = failures t" by simp
  show ?case
  proof (cases x)
    case None
    with Cons.prems a rr have "drain cb T finished t1 = Inr t'" by simp
    from Cons.IH [OF this] f1 show ?thesis by simp
  next
    case (Some e)
    let ?t2 = "t1\<lparr>failures := failures t1 @ [\<lparr>failed_file = inp, failed_error = e\<rparr>]\<rparr>"
    from Cons.prems a rr Some have "drain cb T finished ?t2 = Inr t'"
      by (auto simp: Let_def split: option.splits)
    from Cons.IH [OF this] f1 show ?thesis by auto
  qed
qed

lemma drain_records_failures:
  "drain cb T finished t = Inr t' \<Longrightarrow> ((inp, out), Inl e) \<in> set finished \<Longrightarrow>
     \<lparr>failed_file = inp, failed_error = e\<rparr> \<in> set (failures t')"
proof (induction finished arbitrary: t)
  case Nil
  then show ?case by simp
next
  case (Cons a finished)
  obtain inp' out' outcome where a: "a = ((inp', out'), outcome)" by (cases a) auto
  obtain x t1 where rr: "record_result cb T outcome (t\<lparr>completed := completed t + 1\<rparr>) = (x, t1)"
    by (cases "record_result cb T outcome (t\<lparr>completed := completed t + 1\<rparr>)")
  note rc = record_result_cases [OF rr]
  show ?case
  proof (cases x)
    case None
    with Cons.prems(1) a rr have d: "drain cb T finished t1 = Inr t'" by simp
    from None rc have "\<forall>e. outcome \<noteq> Inl e" by (auto split: sum.splits)
    with Cons.prems(2) a have "((inp, out), Inl e) \<in> set finished" by auto
    from Cons.IH [OF d this] show ?thesis .
  next
    case (Some e')
    let ?t2 = "t1\<lparr>failures := failures t1 @ [\<lparr>failed_file = inp', failed_error = e'\<rparr>]\<rparr>"
    from Cons.prems(1) a rr Some have d: "drain cb T finished ?t2 = Inr t'"
      by (auto simp: Let_def split: option.splits)
    show ?thesis
    proof (cases "a = ((inp, out), Inl e)")
      case True
      with a rc Some have "inp' = inp" "e' = e" by auto
      with drain_failures_grow [OF d] show ?thesis by auto
    next
      case False
      with Cons.prems(2) have "((inp, out), Inl e) \<in> set finished" by auto
      from Cons.IH [OF d this] show ?thesis .
    qed
  qed
qed

lemma drain_raises_from_callback:
  "drain cb T finished t = Inl e \<Longrightarrow> \<exists>f n m en. cb = Some f \<and> f n m (Failed en) = Some e"
proof (induction finished arbitrary: t)
  case Nil
  then show ?case by simp
next
  case (Cons a finished)
  obtain inp out outcome where a: "a = ((inp, out), outcome)" by (cases a) auto
  obtain x t1 where rr: "record_result cb T outcome (t\<lparr>completed := completed t + 1\<rparr>) = (x, t1)"
    by (cases "record_result cb T outcome (t\<lparr>completed := completed t + 1\<rparr>)")
  show ?case
  proof (cases x)
    case None
    with Cons.prems a rr have "drain cb T finished t1 = Inl e" by simp
    from Cons.IH [OF this] show ?thesis .
  next
    case (Some e')
    let ?t2 = "t1\<lparr>failures := failures t1 @ [\<lparr>failed_file = inp, failed_error = e'\<rparr>]\<rparr>"
    show ?thesis
    proof (cases cb)
      case None
      with Cons.prems a rr Some have "drain cb T finished ?t2 = Inl e" by (simp add: Let_def)
      from Cons.IH [OF this] show ?thesis .
    next
      case f: (Some f)
      show ?thesis
      proof (cases "f (completed ?t2) T (Failed \<lparr>failed_file = inp, failed_error = e'\<rparr>)")
        case None
        with Cons.prems a rr Some f have "drain cb T finished ?t2 = Inl e" by (simp add: Let_def)
        from Cons.IH [OF this] show ?thesis .
      next
        case raised: (Some e'')
        with Cons.prems a rr Some f have "e'' = e" by (simp add: Let_def)
        with raised f show ?thesis by blast
      qed
    qed
  qed
qed

lemma drain_no_callback:
  "\<exists>t'. drain None T finished t = Inr t'"
proof (induction finished arbitrary: t)
  case Nil
  then show ?case by simp
next
  case (Cons a finished)
  obtain inp out outcome where a: "a = ((inp, out), outcome)" by (cases a) auto
  show ?case
    using Cons.IH by (cases outcome) (simp_all add: a record_result_def Let_def)
qed

lemma make_dirs_Inl:
  "make_dirs jobs w = (Inl e, w') \<Longrightarrow> Some e \<in> set (take (length jobs) (faults w))"
proof (induction jobs arbitrary: w)
  case Nil
  then show ?case by simp
next
  case (Cons j jobs)
  obtain inp out where j: "j = (inp, out)" by (cases j)
  show ?case
  proof (cases "faults w")
    case Nil
    with Cons.prems j have "make_dirs jobs w = (Inl e, w')"
      by (simp add: mkdir_def io_point_def)
    from Cons.IH [OF this] Nil show ?thesis by simp
  next
    case fl: (Cons f fs)
    show ?thesis
    proof (cases f)
      case None
      with Cons.prems j fl have "make_dirs jobs (w\<lparr>faults := fs\<rparr>) = (Inl e, w')"
        by (simp add: mkdir_def io_point_def)
      from Cons.IH [OF this] fl show ?thesis by (auto dest: in_set_takeD)
    next
      case (Some e')
      with Cons.prems j fl have "e' = e" by (simp add: mkdir_def io_point_def)
      with Some fl show ?thesis by simp
    qed
  qed
qed

lemma build_summary_success: "success (build_summary rs fs) = (summary_failures (build_summary rs fs) = [])"
  by (simp add: build_summary_def)


lemma make_dirs_ok:
  "list_all (\<lambda>f. f = None) (take (length jobs) (faults w)) \<Longrightarrow> \<exists>w1. make_dirs jobs w = (Inr (), w1)"
proof (induction jobs arbitrary: w)
  case Nil
  then show ?case by simp
next
  case (Cons j jobs)
  obtain inp out where j: "j = (inp, out)" by (cases j)
  show ?case
  proof (cases "faults w")
    case Nil
    with Cons.IH [of w] j show ?thesis by (simp add: mkdir_def io_point_def)
  next
    case fl: (Cons f fs)
    with Cons.prems have "f = None" and "list_all (\<lambda>f. f = None) (take (length jobs) fs)"
      by simp_all
    with Cons.IH [of "w\<lparr>faults := fs\<rparr>"] j fl show ?thesis
      by (simp add: mkdir_def io_point_def)
  qed
qed

lemma run_batch_outcomes:
  assumes "run_batch lib self jobs cb order w = (r, w')"
  shows "(\<forall>s. r = Inr s \<longrightarrow>
            success s = (summary_failures s = [])
            \<and> (\<forall>inp out e.
                  ((inp, out), Inl e)
                    \<in> set (fst (run_jobs lib self (completion jobs order) (snd (make_dirs jobs w))))
                  \<longrightarrow> \<lparr>failed_file = inp, failed_error = e\<rparr> \<in> set (summary_failures s)))
       \<and> (\<forall>e. r = Inl e \<longrightarrow>
            Some e \<in> set (take (length jobs) (faults w))
            \<or> (\<exists>f n m en. cb = Some f \<and> f n m (Failed en) = Some e))
       \<and> (cb = None \<and> list_all (\<lambda>f. f = None) (take (length jobs) (faults w))
            \<longrightarrow> (\<exists>s. r = Inr s))
       \<and> compress_directory lib self input_dir None output_dir cb order w
            = (Inl (ValueError (InputDirNotFound input_dir)), w)"
proof -
  obtain rm w1 where md: "make_dirs jobs w = (rm, w1)" by (cases "make_dirs jobs w")
  obtain finished w2 where rj: "run_jobs lib self (completion jobs order) w1 = (finished, w2)"
    by (cases "run_jobs lib self (completion jobs order) w1")
  let ?t0 = "\<lparr>results = [], failures = [], completed = 0\<rparr>"
  have cd: "compress_directory lib self input_dir None output_dir cb order w
            = (Inl (ValueError (InputDirNotFound input_dir)), w)"
    by (simp add: compress_directory_def)
  show ?thesis
  proof (cases rm)
    case (Inl e)
    with assms md have "r = Inl e" by (simp add: run_batch_def)
    moreover from make_dirs_Inl [OF md [unfolded Inl]]
    have "Some e \<in> set (take (length jobs) (faults w))" .
    moreover have "\<not> list_all (\<lambda>f. f = None) (take (length jobs) (faults w))"
      using make_dirs_ok [of jobs w] md Inl by auto
    ultimately show ?thesis using cd by auto
  next
    case (Inr u)
    show ?thesis
    proof (cases "drain cb (length jobs) finished ?t0")
      case dl: (Inl e)
      with assms md Inr rj have "r = Inl e" by (simp add: run_batch_def)
      moreover from drain_raises_from_callback [OF dl]
      have "\<exists>f n m en. cb = Some f \<and> f n m (Failed en) = Some e" .
      moreover from this have "cb \<noteq> None" by auto
      ultimately show ?thesis using cd by auto
    next
      case dr: (Inr t)
      with assms md Inr rj have r: "r = Inr (build_summary (results t) (failures t))"
        by (simp add: run_batch_def)
      have "\<forall>inp out e. ((inp, out), Inl e) \<in> set finished
              \<longrightarrow> \<lparr>failed_file = inp, failed_error = e\<rparr> \<in> set (failures t)"
        using drain_records_failures [OF dr] by blast
      with r md rj cd show ?thesis
        by (simp add: build_summary_def)
    qed
  qed
qed

lemmas batch_eval =
  compress_files_def path_stem_def run_batch_def make_dirs.simps mkdir_def completion_def
  run_jobs.simps compress_one_def drain.simps record_result_def build_summary_def
  example_batch_def example_files_def result_reader_def result_refuser_def

subsection \<open>Packing: the state in which the \<^verbatim>\<open>try\<close> block is left\<close>

lemma ends_with_append: "ends_with sfx (p @ sfx)"
  by (simp add: ends_with_def)

lemma path_div_ends_with: "ends_with sfx (path_div dir (''tmp'' @ n @ sfx))"
proof -
  have "\<exists>p. path_div dir (''tmp'' @ n @ sfx) = p @ sfx"
    by (auto simp: path_div_def)
  then show ?thesis by (auto simp: ends_with_append)
qed

lemma pick_fresh_ends_with:
  "pick_fresh fs dir sfx ns = Some (p, ns') \<Longrightarrow> ends_with sfx p"
  using path_div_ends_with by (induction ns) (auto split: if_splits)

lemma mkstemp_ends_with:
  "mkstemp sfx dir w = (Inr p, w') \<Longrightarrow> ends_with sfx p \<and> fs_log w' = fs_log w @ [Created p]"
  by (auto simp: mkstemp_def split: prod.splits option.splits dest!: io_point_frame pick_fresh_ends_with)

lemma write_archive_log:
  "write_archive lib cctx mb inp osize cb tmp w = (r, w') \<Longrightarrow> \<exists>evs. fs_log w' = fs_log w @ evs"
  by (cases r)
     (auto simp: write_archive_def split: prod.splits sum.splits
           dest!: append_file_Inr append_file_Inl read_file_Inr read_file_Inl stream_chunks_frame)

lemma shutil_move_log:
  "shutil_move src dst w = (r, w') \<Longrightarrow> \<exists>evs. fs_log w' = fs_log w @ evs"
  by (cases r) (auto dest!: shutil_move_Inl shutil_move_Inr)

lemma pack_checked_temp:
  assumes "pack_checked lib self inp out lvl cb ext n w = (r, t, w1)"
  shows "fs_log w1 = fs_log w
       \<or> (\<exists>tmp evs. ends_with ''.zpkg.tmp'' tmp \<and> fs_log w1 = fs_log w @ Created tmp # evs)"
  using assms
  by (auto simp: pack_checked_def Let_def split: prod.splits sum.splits
           dest!: checksum_file_frame mkstemp_Inl mkstemp_ends_with write_archive_log
                  shutil_move_log getsize_frame)


lemma compress_try_cases:
  assumes run: "compress_try lib self inp out lvl cb w = (r, t, w1)"
  shows "((\<exists>e. r = Inl e) \<and> t = None \<and> files w1 = files w \<and> fs_log w1 = fs_log w)
     \<or> (\<exists>e tmp c evs. r = Inl e \<and> t = Some tmp \<and> files w tmp = None \<and> tmp \<noteq> []
            \<and> ends_with ''.zpkg.tmp'' tmp
            \<and> files w1 = (files w)(tmp \<mapsto> c)
            \<and> fs_log w1 = fs_log w @ Created tmp # evs
            \<and> list_all (\<lambda>ev. ev = Written tmp) evs)
     \<or> (\<exists>tmp F. t = None \<and> files w tmp = None \<and> ends_with ''.zpkg.tmp'' tmp
            \<and> files w inp = Some F
            \<and> files w1 = (files w)(out \<mapsto> packed_archive lib self inp lvl cb F)
            \<and> fs_log w1 = fs_log w @ [Created tmp, Written tmp, Written tmp, Written tmp,
                                       Written tmp, Renamed tmp out])"
proof -
  obtain rv w0 where vi: "validate_input self inp w = (rv, w0)"
    by (cases "validate_input self inp w")
  show ?thesis
  proof (cases rv)
    case (Inl e)
    with run vi validate_input_frame [OF vi] show ?thesis
      by (auto simp: compress_try_def)
  next
    case (Inr p)
    obtain ext n where p: "p = (ext, n)" by (cases p)
    from validate_input_Inr [OF vi [unfolded Inr p]]
    obtain F where ext: "ext = lower (path_suffix inp)"
      and inp: "files w inp = Some F" and n: "n = length F"
      and f0: "files w0 = files w" and l0: "fs_log w0 = fs_log w"
      by auto
    from run vi Inr p ext n
    have pc: "pack_checked lib self inp out lvl cb (lower (path_suffix inp)) (length F) w0 = (r, t, w1)"
      by (simp add: compress_try_def)
    from inp f0 have inp0: "files w0 inp = Some F" by simp
    from pack_checked_temp [OF pc] l0
    have tmp: "fs_log w1 = fs_log w
       \<or> (\<exists>tmp evs. ends_with ''.zpkg.tmp'' tmp \<and> fs_log w1 = fs_log w @ Created tmp # evs)"
      by simp
    from pack_checked_cases [OF pc inp0] f0 l0 inp tmp
    show ?thesis
      by (elim conjE disjE exE) auto
  qed
qed

lemma terminated_at_try:
  "\<exists>r t. compress_try lib self inp out lvl cb
            (w\<lparr>faults := take k (faults w @ replicate k None) @ [Some stop_mark]\<rparr>)
          = (r, t, terminated_at k lib self inp out lvl cb w)"
  by (cases "compress_try lib self inp out lvl cb
            (w\<lparr>faults := take k (faults w @ replicate k None) @ [Some stop_mark]\<rparr>)")
     (simp add: terminated_at_def)

lemma replicate_numeral_step: "replicate (numeral k) x = x # replicate (pred_numeral k) x"
  by (simp add: numeral_eq_Suc)

subsection \<open>Unpacking: a payload the decoder rejects, a manifest without a file name\<close>

lemma decompress_to_rejects:
  assumes "faults w = []" and "files w tmp = Some old"
    and "zstd_decompress lib dctx payload = (R, Some e)"
  shows "decompress_to lib dctx payload tmp w =
       (Inl e, w\<lparr>files := (files w)(tmp \<mapsto> old @ R),
                   fs_log := fs_log w @ replicate (length (read_chunks CHUNK_SIZE R)) (Written tmp)\<rparr>)"
  using assms
  by (simp add: decompress_to_def write_chunks_ok concat_read_chunks CHUNK_SIZE_def)

lemma unpack_decoder_rejects:
  assumes nf: "faults w = []" and pkg: "files w pkg = Some data"
    and hdr: "read_header lib data = Inr (v, JObj kvs, payload)"
    and dec: "zstd_decompress lib
                (build_decompressor self (case map_of kvs ''has_dict'' of Some x \<Rightarrow> x | None \<Rightarrow> JBool False))
                payload = (R, Some e)"
    and tmp: "pick_fresh (files w) outdir ''.tmp'' (tmp_names w) = Some (tmp, ns)"
  shows "fst (unpack lib self pkg outdir w) = Inl e
       \<and> files (snd (unpack lib self pkg outdir w)) = files w"
proof -
  from pick_fresh_Some [OF tmp] have fresh: "files w tmp = None" and tne: "tmp \<noteq> []" by simp_all
  have fe: "((files w)(tmp \<mapsto> R))(tmp := None) = files w"
    using fresh by (simp add: fun_eq_iff)
  show ?thesis
    using nf pkg hdr dec fresh tne
    by (auto simp: unpack_def unpack_try_def read_file_ok mkdir_ok mkstemp_ok [OF nf tmp]
          decompress_to_rejects cleanup_def fe)
qed

lemma unpack_missing_name:
  assumes nf: "faults w = []" and pkg: "files w pkg = Some data"
    and hdr: "read_header lib data = Inr (v, JObj kvs, payload)"
    and dec: "zstd_decompress lib
                (build_decompressor self (case map_of kvs ''has_dict'' of Some x \<Rightarrow> x | None \<Rightarrow> JBool False))
                payload = (R, None)"
    and tmp: "pick_fresh (files w) outdir ''.tmp'' (tmp_names w) = Some (tmp, ns)"
    and ok: "\<not> truthy (case map_of kvs ''checksum'' of Some c \<Rightarrow> c | None \<Rightarrow> JNull)
             \<or> (case map_of kvs ''checksum'' of Some c \<Rightarrow> c | None \<Rightarrow> JNull)
                  = JStr (sha256_hexdigest lib R)"
    and mode: "(case map_of kvs ''mode'' of Some m \<Rightarrow> m | None \<Rightarrow> JNull) \<noteq> JStr ''visual''"
    and name: "map_of kvs ''original_filename'' = None"
  shows "fst (unpack lib self pkg outdir w) = Inl (OtherError ''KeyError'' ''original_filename'')
       \<and> files (snd (unpack lib self pkg outdir w)) = files w"
proof -
  from pick_fresh_Some [OF tmp] have fresh: "files w tmp = None" and tne: "tmp \<noteq> []" by simp_all
  have fe: "((files w)(tmp \<mapsto> R))(tmp := None) = files w"
    using fresh by (simp add: fun_eq_iff)
  show ?thesis
    using nf pkg hdr dec ok mode name fresh tne
    by (auto simp: unpack_def unpack_try_def read_file_ok mkdir_ok mkstemp_ok [OF nf tmp]
          decompress_to_ok commit_restored_def verify_checksum_def checksum_file_ok
          final_path_of_def cleanup_def Let_def fe)
qed

lemma garbled_header:
  "read_header example_lib garbled_archive = Inr (1, example_manifest ''high'' True, [0, 0, 0, 0])"
  by (simp add: garbled_archive_def example_unpack_eval)

section \<open>The claims\<close>

text \<open>
  C2, as stated, fails for a run that is terminated.  A pack of the example that is
  stopped at its fourth I/O operation, the first write into the temp file that
  \<^verbatim>\<open>mkstemp\<close> has created, has made no rename and leaves that temp file behind, empty:
  the \<^verbatim>\<open>finally\<close> clause that would remove it does not run in a process that is
  stopped.  Nothing is at the destination.
\<close>

theorem terminated_pack_leaves_temp_file:
  "\<not> renamed_to ''out/a.zpkg''
       (new_events (example_world [])
          (terminated_at 3 example_lib example_packager ''in/a.txt'' ''out/a.zpkg'' ''high'' None
             (example_world [])))
   \<and> files (terminated_at 3 example_lib example_packager ''in/a.txt'' ''out/a.zpkg'' ''high'' None
               (example_world [])) ''out/tmpk3v9x2qa.zpkg.tmp''
       = Some []
   \<and> files (terminated_at 3 example_lib example_packager ''in/a.txt'' ''out/a.zpkg'' ''high'' None
               (example_world [])) ''out/a.zpkg''
       = None"
  by (simp add: terminated_at_def replicate_numeral_step example_eval renamed_to_def)

text \<open>
  C2, amended.  For a destination whose name does not end in \<^verbatim>\<open>.zpkg.tmp\<close>, so that it
  is none of the names \<^verbatim>\<open>mkstemp\<close> picks, the destination is written by the final rename
  and by nothing else.  For every run of \<^verbatim>\<open>compress_file\<close>, whatever I/O failures are
  injected and wherever: if the run made no rename onto the destination, it raised, the
  file system is exactly what it was before the call (so a destination that did not exist
  still does not), and every temp file it created was new and has been removed again; if
  it did rename onto the destination, the only file-system events of the run are the
  creation of one new temp file, which is not the destination, the four writes that fill
  it and that rename, and the destination holds the complete archive.  For a run that is
  terminated at its \<open>k\<close>-th I/O operation, for every \<open>k\<close>: if it had made no rename onto
  the destination, the destination is what it was before the call, a file the run created
  is still there (it is not the destination, it is new to the file system and it is
  named \<^verbatim>\<open>....zpkg.tmp\<close>: the temp file, left behind), and nothing else has changed;
  if it had made the rename, the destination holds the complete archive.  A failure is an
  exception raised at any I/O operation of the \<^verbatim>\<open>try\<close> block; \<^verbatim>\<open>os.remove\<close> in the
  \<^verbatim>\<open>finally\<close> clause is taken not to fail.
\<close>

theorem pack_commits_by_rename_only:
  assumes run: "compress_file lib self inp out lvl cb w = (r, w')"
    and name: "\<not> ends_with ''.zpkg.tmp'' out"
  shows "(\<not> renamed_to out (new_events w w') \<longrightarrow>
            (\<exists>e. r = Inl e) \<and> files w' = files w
            \<and> (\<forall>t. Created t \<in> set (new_events w w') \<longrightarrow>
                  files w t = None \<and> files w' t = None \<and> Removed t \<in> set (new_events w w')))
       \<and> (renamed_to out (new_events w w') \<longrightarrow>
            (\<exists>tmp F. files w tmp = None \<and> tmp \<noteq> out \<and> files w inp = Some F
               \<and> new_events w w' = [Created tmp, Written tmp, Written tmp, Written tmp,
                                       Written tmp, Renamed tmp out]
               \<and> files w' = (files w)(out \<mapsto> packed_archive lib self inp lvl cb F)))
       \<and> (\<not> renamed_to out (new_events w (terminated_at k lib self inp out lvl cb w)) \<longrightarrow>
            files (terminated_at k lib self inp out lvl cb w) out = files w out
            \<and> (\<forall>p. Created p \<in> set (new_events w (terminated_at k lib self inp out lvl cb w)) \<longrightarrow>
                  files (terminated_at k lib self inp out lvl cb w) p \<noteq> None
                  \<and> p \<noteq> out \<and> files w p = None \<and> ends_with ''.zpkg.tmp'' p)
            \<and> (\<forall>p. files (terminated_at k lib self inp out lvl cb w) p \<noteq> files w p \<longrightarrow>
                  Created p \<in> set (new_events w (terminated_at k lib self inp out lvl cb w))))
       \<and> (renamed_to out (new_events w (terminated_at k lib self inp out lvl cb w)) \<longrightarrow>
            (\<exists>F. files w inp = Some F
               \<and> files (terminated_at k lib self inp out lvl cb w)
                   = (files w)(out \<mapsto> packed_archive lib self inp lvl cb F)))"
proof -
  obtain t w1 where tr: "compress_try lib self inp out lvl cb w = (r, t, w1)"
    and w': "w' = (cleanup t w1)\<lparr>attempt_log :=
                   attempt_log w1 @ [case r of Inl e \<Rightarrow> Some e | Inr res \<Rightarrow> None]\<rparr>"
    using run by (auto simp: compress_file_def split: prod.splits)
  let ?wk = "terminated_at k lib self inp out lvl cb w"
  let ?w0 = "w\<lparr>faults := take k (faults w @ replicate k None) @ [Some stop_mark]\<rparr>"
  from terminated_at_try [where w = w and k = k]
  obtain rk tk where trk: "compress_try lib self inp out lvl cb ?w0 = (rk, tk, ?wk)" by blast
  have fin: "(\<not> renamed_to out (new_events w w') \<longrightarrow>
            (\<exists>e. r = Inl e) \<and> files w' = files w
            \<and> (\<forall>t. Created t \<in> set (new_events w w') \<longrightarrow>
                  files w t = None \<and> files w' t = None \<and> Removed t \<in> set (new_events w w')))
       \<and> (renamed_to out (new_events w w') \<longrightarrow>
            (\<exists>tmp F. files w tmp = None \<and> tmp \<noteq> out \<and> files w inp = Some F
               \<and> new_events w w' = [Created tmp, Written tmp, Written tmp, Written tmp,
                                       Written tmp, Renamed tmp out]
               \<and> files w' = (files w)(out \<mapsto> packed_archive lib self inp lvl cb F)))"
    using compress_try_cases [OF tr] w' name
    by (elim conjE disjE exE)
       (auto simp: new_events_def renamed_to_def list_all_iff image_iff cleanup_def fun_upd_idem)
  have stop: "(\<not> renamed_to out (new_events w ?wk) \<longrightarrow>
            files ?wk out = files w out
            \<and> (\<forall>p. Created p \<in> set (new_events w ?wk) \<longrightarrow>
                  files ?wk p \<noteq> None \<and> p \<noteq> out \<and> files w p = None
                  \<and> ends_with ''.zpkg.tmp'' p)
            \<and> (\<forall>p. files ?wk p \<noteq> files w p \<longrightarrow> Created p \<in> set (new_events w ?wk)))
       \<and> (renamed_to out (new_events w ?wk) \<longrightarrow>
            (\<exists>F. files w inp = Some F
               \<and> files ?wk = (files w)(out \<mapsto> packed_archive lib self inp lvl cb F)))"
    using compress_try_cases [OF trk]
  proof (elim disjE conjE exE)
    assume "files ?wk = files ?w0" and "fs_log ?wk = fs_log ?w0"
    then show ?thesis
      by (simp add: new_events_def renamed_to_def)
  next
    fix e tmp c evs
    assume fresh: "files ?w0 tmp = None" and sfx: "ends_with ''.zpkg.tmp'' tmp"
      and f: "files ?wk = (files ?w0)(tmp \<mapsto> c)"
      and l: "fs_log ?wk = fs_log ?w0 @ Created tmp # evs"
      and wr: "list_all (\<lambda>ev. ev = Written tmp) evs"
    from sfx name have ne: "tmp \<noteq> out" by auto
    from l have ev: "new_events w ?wk = Created tmp # evs" by (simp add: new_events_def)
    from wr have cr: "\<And>p. Created p \<in> set evs \<Longrightarrow> False"
      and rn: "Some out \<notin> rename_target ` set evs"
      by (auto simp: list_all_iff)
    from rn have "\<not> renamed_to out (new_events w ?wk)"
      by (simp add: ev renamed_to_def)
    moreover from f ne have "files ?wk out = files w out" by simp
    moreover from f fresh sfx ne cr
    have "\<forall>p. Created p \<in> set (new_events w ?wk) \<longrightarrow>
            files ?wk p \<noteq> None \<and> p \<noteq> out \<and> files w p = None \<and> ends_with ''.zpkg.tmp'' p"
      by (auto simp: ev)
    moreover from f have "\<forall>p. files ?wk p \<noteq> files w p \<longrightarrow> Created p \<in> set (new_events w ?wk)"
      by (auto simp: ev split: if_splits)
    ultimately show ?thesis by blast
  next
    fix tmp F
    assume "files ?w0 inp = Some F"
      and "files ?wk = (files ?w0)(out \<mapsto> packed_archive lib self inp lvl cb F)"
      and "fs_log ?wk = fs_log ?w0 @ [Created tmp, Written tmp, Written tmp, Written tmp,
                                       Written tmp, Renamed tmp out]"
    then show ?thesis
      by (simp add: new_events_def renamed_to_def)
  qed
  from fin stop show ?thesis by blast
qed

theorem pack_commits_by_rename_only_witness:
  "\<not> ends_with ''.zpkg.tmp'' ''out/a.zpkg''
   \<and> \<not> renamed_to ''out/a.zpkg''
       (new_events (example_world [None, None, None, None, Some disk_full])
          (snd (compress_file example_lib example_packager ''in/a.txt'' ''out/a.zpkg'' ''high'' None
                  (example_world [None, None, None, None, Some disk_full]))))
   \<and> Created ''out/tmpk3v9x2qa.zpkg.tmp''
       \<in> set (new_events (example_world [None, None, None, None, Some disk_full])
          (snd (compress_file example_lib example_packager ''in/a.txt'' ''out/a.zpkg'' ''high'' None
                  (example_world [None, None, None, None, Some disk_full]))))
   \<and> fst (compress_file example_lib example_packager ''in/a.txt'' ''out/a.zpkg'' ''high'' None
                  (example_world [None, None, None, None, Some disk_full])) = Inl disk_full
   \<and> files (snd (compress_file example_lib example_packager ''in/a.txt'' ''out/a.zpkg'' ''high'' None
                  (example_world [None, None, None, None, Some disk_full])))
       = files (example_world [None, None, None, None, Some disk_full])
   \<and> renamed_to ''out/a.zpkg''
       (new_events (example_world [])
          (snd (compress_file example_lib example_packager ''in/a.txt'' ''out/a.zpkg'' ''high'' None
                  (example_world []))))
   \<and> files (snd (compress_file example_lib example_packager ''in/a.txt'' ''out/a.zpkg'' ''high'' None
                  (example_world []))) ''out/a.zpkg''
       = Some (packed_archive example_lib example_packager ''in/a.txt'' ''high'' None example_content)
   \<and> \<not> renamed_to ''out/a.zpkg''
       (new_events (example_world [])
          (terminated_at 3 example_lib example_packager ''in/a.txt'' ''out/a.zpkg'' ''high'' None
             (example_world [])))
   \<and> Created ''out/tmpk3v9x2qa.zpkg.tmp''
       \<in> set (new_events (example_world [])
          (terminated_at 3 example_lib example_packager ''in/a.txt'' ''out/a.zpkg'' ''high'' None
             (example_world [])))
   \<and> files (terminated_at 3 example_lib example_packager ''in/a.txt'' ''out/a.zpkg'' ''high'' None
               (example_world [])) ''out/tmpk3v9x2qa.zpkg.tmp''
       \<noteq> None
   \<and> files (terminated_at 3 example_lib example_packager ''in/a.txt'' ''out/a.zpkg'' ''high'' None
               (example_world [])) ''out/a.zpkg''
       = files (example_world []) ''out/a.zpkg''
   \<and> ends_with ''.zpkg.tmp'' ''out/tmpk3v9x2qa.zpkg.tmp''
   \<and> renamed_to ''out/a.zpkg''
       (new_events (example_world [])
          (terminated_at 10 example_lib example_packager ''in/a.txt'' ''out/a.zpkg'' ''high'' None
             (example_world [])))
   \<and> files (terminated_at 10 example_lib example_packager ''in/a.txt'' ''out/a.zpkg'' ''high'' None
               (example_world [])) ''out/a.zpkg''
       = Some (packed_archive example_lib example_packager ''in/a.txt'' ''high'' None example_content)"
proof -
  let ?wf = "example_world [None, None, None, None, Some disk_full]"
  let ?rf = "compress_file example_lib example_packager ''in/a.txt'' ''out/a.zpkg'' ''high'' None ?wf"
  let ?w0 = "example_world []"
  let ?r0 = "compress_file example_lib example_packager ''in/a.txt'' ''out/a.zpkg'' ''high'' None ?w0"
  let ?k3 = "terminated_at 3 example_lib example_packager ''in/a.txt'' ''out/a.zpkg'' ''high'' None ?w0"
  let ?k10 = "terminated_at 10 example_lib example_packager ''in/a.txt'' ''out/a.zpkg'' ''high'' None ?w0"
  have nm: "\<not> ends_with ''.zpkg.tmp'' ''out/a.zpkg''"
    by (simp add: ends_with_def)
  have logf: "new_events ?wf (snd ?rf)
      = [Created ''out/tmpk3v9x2qa.zpkg.tmp'', Written ''out/tmpk3v9x2qa.zpkg.tmp'',
         Removed ''out/tmpk3v9x2qa.zpkg.tmp'']"
    by (simp add: example_eval)
  have resf: "fst ?rf = Inl disk_full"
    by (simp add: example_eval)
  have log0: "renamed_to ''out/a.zpkg'' (new_events ?w0 (snd ?r0))"
    by (simp add: example_eval)
  have in0: "files ?w0 ''in/a.txt'' = Some example_content"
    by (simp add: example_world_def)
  have log3: "new_events ?w0 ?k3
      = [Created ''out/tmpk3v9x2qa.zpkg.tmp'']"
    by (simp add: terminated_at_def replicate_numeral_step example_eval)
  have log10: "renamed_to ''out/a.zpkg'' (new_events ?w0 ?k10)"
    by (simp add: terminated_at_def replicate_numeral_step example_eval)
  from logf have nrf: "\<not> renamed_to ''out/a.zpkg'' (new_events ?wf (snd ?rf))"
    and crf: "Created ''out/tmpk3v9x2qa.zpkg.tmp'' \<in> set (new_events ?wf (snd ?rf))"
    by (simp_all add: renamed_to_def)
  from log3 have nr3: "\<not> renamed_to ''out/a.zpkg'' (new_events ?w0 ?k3)"
    by (simp add: renamed_to_def)
  note final_f = pack_commits_by_rename_only [of example_lib example_packager "''in/a.txt''"
      "''out/a.zpkg''" "''high''" None ?wf "fst ?rf" "snd ?rf" 4, OF prod.collapse [symmetric] nm]
  note final_3 = pack_commits_by_rename_only [of example_lib example_packager "''in/a.txt''"
      "''out/a.zpkg''" "''high''" None ?w0 "fst ?r0" "snd ?r0" 3, OF prod.collapse [symmetric] nm]
  note final_10 = pack_commits_by_rename_only [of example_lib example_packager "''in/a.txt''"
      "''out/a.zpkg''" "''high''" None ?w0 "fst ?r0" "snd ?r0" 10, OF prod.collapse [symmetric] nm]
  from final_f [THEN conjunct1, THEN mp, OF nrf]
  have a: "files (snd ?rf) = files ?wf"
    by (elim conjE)
  from final_3 [THEN conjunct2, THEN conjunct1, THEN mp, OF log0]
  obtain tmp F where "files ?w0 ''in/a.txt'' = Some F"
    and "files (snd ?r0) = (files ?w0)(''out/a.zpkg'' \<mapsto>
           packed_archive example_lib example_packager ''in/a.txt'' ''high'' None F)"
    by (elim exE conjE)
  with in0 have b: "files (snd ?r0) ''out/a.zpkg''
       = Some (packed_archive example_lib example_packager ''in/a.txt'' ''high'' None example_content)"
    by simp
  note stop3 = final_3 [THEN conjunct2, THEN conjunct2, THEN conjunct1, THEN mp, OF nr3]
  from stop3 have c: "files ?k3 ''out/a.zpkg'' = files ?w0 ''out/a.zpkg''"
    by (rule conjunct1)
  have cr3: "Created ''out/tmpk3v9x2qa.zpkg.tmp'' \<in> set (new_events ?w0 ?k3)"
    unfolding log3 by simp
  from stop3 [THEN conjunct2, THEN conjunct1, THEN spec, of "''out/tmpk3v9x2qa.zpkg.tmp''",
      THEN mp, OF cr3]
  have ld: "files ?k3 ''out/tmpk3v9x2qa.zpkg.tmp'' \<noteq> None
      \<and> ''out/tmpk3v9x2qa.zpkg.tmp'' \<noteq> ''out/a.zpkg''
      \<and> files ?w0 ''out/tmpk3v9x2qa.zpkg.tmp'' = None
      \<and> ends_with ''.zpkg.tmp'' ''out/tmpk3v9x2qa.zpkg.tmp''" .
  from ld have left: "files ?k3 ''out/tmpk3v9x2qa.zpkg.tmp'' \<noteq> None"
    by (rule conjunct1)
  from ld have d: "ends_with ''.zpkg.tmp'' ''out/tmpk3v9x2qa.zpkg.tmp''"
    by (elim conjE)
  from final_10 [THEN conjunct2, THEN conjunct2, THEN conjunct2, THEN mp, OF log10]
  obtain G where "files ?w0 ''in/a.txt'' = Some G"
    and "files ?k10 = (files ?w0)(''out/a.zpkg'' \<mapsto>
           packed_archive example_lib example_packager ''in/a.txt'' ''high'' None G)"
    by (elim exE conjE)
  with in0 have e: "files ?k10 ''out/a.zpkg''
       = Some (packed_archive example_lib example_packager ''in/a.txt'' ''high'' None example_content)"
    by simp
  show ?thesis
    by (intro conjI) (rule nm nrf crf resf a log0 b nr3 cr3 left c d log10 e)+
qed

text \<open>
  C7.  Whenever \<^verbatim>\<open>compress_file\<close> has renamed onto the destination, the file there is:
  the four bytes \<^verbatim>\<open>ZPKG\<close>; one version byte; four bytes that hold the length \<open>L\<close> of the
  manifest, most significant byte first (reading the five bytes back with
  \<^verbatim>\<open>struct.unpack('>BL', ...)\<close> gives version 1 and \<open>L\<close>), nine bytes in all; then the
  \<open>L\<close> bytes \<^verbatim>\<open>json.dumps(manifest).encode('utf-8')\<close>, uncompressed, of a manifest
  with the keys \<^verbatim>\<open>original_filename\<close>, \<^verbatim>\<open>original_size\<close>, \<^verbatim>\<open>compression_level\<close>,
  \<^verbatim>\<open>format\<close>, \<^verbatim>\<open>checksum\<close> and \<^verbatim>\<open>has_dict\<close>; then the compressed stream of the
  chunks of the input, and nothing after it.
\<close>


theorem archive_layout:
  assumes "compress_file lib self inp out lvl cb w = (r, w')"
    and "renamed_to out (new_events w w')"
  shows "\<exists>F manifest_bytes payload.
      files w inp = Some F
    \<and> files w' out = Some (MAGIC @ [of_nat VERSION] @ be32 (length manifest_bytes)
                              @ manifest_bytes @ payload)
    \<and> MAGIC = [90, 80, 75, 71]
    \<and> length (MAGIC @ [of_nat VERSION] @ be32 (length manifest_bytes)) = 9
    \<and> struct_unpack_BL ([of_nat VERSION] @ be32 (length manifest_bytes))
         = Inr (1, length manifest_bytes)
    \<and> manifest_bytes =
         json_dumps lib
           (JObj [(''original_filename'', JStr (path_name inp)),
                  (''original_size'', JInt (int (length F))),
                  (''compression_level'', JStr lvl),
                  (''format'', JStr (lstrip_dot (lower (path_suffix inp)))),
                  (''checksum'', JStr (sha256_hexdigest lib F)),
                  (''has_dict'', JBool (cached_dict self \<noteq> None))])
    \<and> payload =
         zstd_compress lib (build_compressor self (level_of lvl) (length F) (cb \<noteq> None))
           (read_chunks (get_chunk_size (length F)) F)"
proof -
  from pack_written [OF assms] obtain F where
    inp: "files w inp = Some F"
    and len: "length (json_dumps lib (packed_manifest lib self inp lvl F)) < 4294967296"
    and out: "files w' out = Some (packed_archive lib self inp lvl cb F)"
    by auto
  from struct_unpack_pack [of VERSION, OF _ len]
  have "struct_unpack_BL ([of_nat VERSION] @ be32 (length (json_dumps lib (packed_manifest lib self inp lvl F))))
          = Inr (1, length (json_dumps lib (packed_manifest lib self inp lvl F)))"
    by (simp add: VERSION_def)
  with inp out show ?thesis
    by (simp add: packed_archive_def packed_payload_def packed_cctx_def packed_manifest_def
          build_manifest_def MAGIC_def be32_def)
qed

theorem archive_layout_witness:
  "renamed_to ''out/a.zpkg''
       (new_events (example_world [])
          (snd (compress_file example_lib example_packager ''in/a.txt'' ''out/a.zpkg'' ''high'' None
                  (example_world []))))
   \<and> files (snd (compress_file example_lib example_packager ''in/a.txt'' ''out/a.zpkg'' ''high'' None
                  (example_world []))) ''out/a.zpkg''
       = Some (MAGIC @ [1] @ be32 195 @ example_manifest_bytes ''high'' False @ raw_frame example_content)"
proof -
  let ?w0 = "example_world []"
  let ?r0 = "compress_file example_lib example_packager ''in/a.txt'' ''out/a.zpkg'' ''high'' None ?w0"
  from archive_layout [of example_lib example_packager "''in/a.txt''" "''out/a.zpkg''"
      "''high''" None ?w0 "fst ?r0" "snd ?r0"] example_pack_renamed
  obtain F mb payload where
    F: "files ?w0 ''in/a.txt'' = Some F"
    and out: "files (snd ?r0) ''out/a.zpkg'' = Some (MAGIC @ [of_nat VERSION] @ be32 (length mb) @ mb @ payload)"
    and mb: "mb = json_dumps example_lib
           (JObj [(''original_filename'', JStr (path_name ''in/a.txt'')),
                  (''original_size'', JInt (int (length F))),
                  (''compression_level'', JStr ''high''),
                  (''format'', JStr (lstrip_dot (lower (path_suffix ''in/a.txt'')))),
                  (''checksum'', JStr (sha256_hexdigest example_lib F)),
                  (''has_dict'', JBool (cached_dict example_packager \<noteq> None))])"
    and pl: "payload = zstd_compress example_lib
               (build_compressor example_packager (level_of ''high'') (length F)
                  (None \<noteq> (None :: progress_cb option)))
               (read_chunks (get_chunk_size (length F)) F)"
    by auto
  from F have F': "F = example_content"
    by (simp add: example_input)
  have mb': "mb = example_manifest_bytes ''high'' False"
    unfolding mb F'
    by (simp add: example_lib_def example_manifest_def example_packager_def Packager_init_def
          path_name_def strip_slashes_def path_suffix_def lower_def lower_char_def lstrip_dot_def
          example_content_def)
  have len: "length (example_manifest_bytes ''high'' False) = 195"
    by (simp add: example_manifest_bytes_def ascii_def)
  have pl': "payload = raw_frame example_content"
    unfolding pl F'
    by (simp add: example_lib_def example_content_def get_chunk_size_def read_chunks.simps)
  from out show ?thesis
    using example_pack_renamed by (simp add: mb' pl' len VERSION_def)
qed


text \<open>
  C9.  Whenever \<^verbatim>\<open>compress_file\<close> has renamed onto the destination, the payload of the
  archive is the output of a compressor whose level is 3, 10, 19 or 22 for the labels
  \<^verbatim>\<open>low\<close>, \<^verbatim>\<open>medium\<close>, \<^verbatim>\<open>high\<close> and \<^verbatim>\<open>ultra\<close>, and whose long-distance matching is
  switched on (1, with a hash log of 20) exactly when the input is larger than 1,000,000
  bytes and off (0) otherwise.
\<close>


theorem compressor_parameters:
  assumes "compress_file lib self inp out lvl cb w = (r, w')"
    and "renamed_to out (new_events w w')"
  shows "\<exists>F cctx header.
      files w inp = Some F
    \<and> cctx = build_compressor self (level_of lvl) (length F) (cb \<noteq> None)
    \<and> files w' out = Some (header @ zstd_compress lib cctx (read_chunks (get_chunk_size (length F)) F))
    \<and> level cctx = (if lvl = ''low'' then 3 else if lvl = ''medium'' then 10
                     else if lvl = ''high'' then 19 else if lvl = ''ultra'' then 22 else 19)
    \<and> enable_ldm cctx = (if 1000000 < length F then 1 else 0)
    \<and> ldm_hash_log cctx = (if 1000000 < length F then 20 else 0)"
proof -
  from pack_written [OF assms] obtain F where
    inp: "files w inp = Some F"
    and out: "files w' out = Some (packed_archive lib self inp lvl cb F)"
    by auto
  have "packed_archive lib self inp lvl cb F =
      (MAGIC @ (of_nat VERSION # be32 (length (json_dumps lib (packed_manifest lib self inp lvl F))))
        @ json_dumps lib (packed_manifest lib self inp lvl F))
      @ zstd_compress lib (build_compressor self (level_of lvl) (length F) (cb \<noteq> None))
          (read_chunks (get_chunk_size (length F)) F)"
    by (simp add: packed_archive_def packed_payload_def packed_cctx_def)
  with inp out show ?thesis
    by (auto simp: build_compressor_def level_of_def COMPRESSION_LEVELS_def)
qed

theorem compressor_parameters_witness:
  "renamed_to ''out/a.zpkg''
       (new_events (example_world [])
          (snd (compress_file example_lib example_packager ''in/a.txt'' ''out/a.zpkg'' ''high'' None
                  (example_world []))))
   \<and> (\<exists>header.
        files (snd (compress_file example_lib example_packager ''in/a.txt'' ''out/a.zpkg'' ''high''
                      None (example_world []))) ''out/a.zpkg''
          = Some (header @ zstd_compress example_lib
                    \<lparr>level = 19, enable_ldm = 0, ldm_hash_log = 0, threads = - 1, dict_data = None\<rparr>
                    [example_content]))"
proof -
  let ?w0 = "example_world []"
  let ?r0 = "compress_file example_lib example_packager ''in/a.txt'' ''out/a.zpkg'' ''high'' None ?w0"
  have cc: "build_compressor example_packager (level_of ''high'') (length example_content) False
            = \<lparr>level = 19, enable_ldm = 0, ldm_hash_log = 0, threads = - 1, dict_data = None\<rparr>"
    by (simp add: build_compressor_def level_of_def COMPRESSION_LEVELS_def example_packager_def
          Packager_init_def example_content_def dict_truthy_def)
  have ch: "read_chunks (get_chunk_size (length example_content)) example_content = [example_content]"
    by (simp add: example_content_def get_chunk_size_def read_chunks.simps)
  from compressor_parameters [of example_lib example_packager "''in/a.txt''" "''out/a.zpkg''"
      "''high''" None ?w0 "fst ?r0" "snd ?r0"] example_pack_renamed
  show ?thesis
    by (simp add: example_input cc ch)
qed


text \<open>
  C8.  Whenever \<^verbatim>\<open>compress_file\<close> has renamed onto the destination, the input of
  \<open>S\<close> bytes went to the compressor in chunks of \<open>cs\<close> bytes, the last one possibly
  shorter: chunk \<open>i\<close> is the bytes from \<open>i * cs\<close> up to \<open>(i + 1) * cs\<close>, there are
  \<open>\<lceil>S / cs\<rceil>\<close> chunks and together they are the input.  The chunk size \<open>cs\<close> is
  65,536 for \<open>S < 10,000,000\<close>, 524,288 for \<open>10,000,000 \<le> S < 100,000,000\<close> and
  1,048,576 from 100,000,000 bytes on.  When a callback is supplied it is called once
  after each chunk, call \<open>i\<close> with the bytes read so far, \<open>min ((i + 1) * cs) S\<close>, and
  the total \<open>S\<close>; without a callback nothing is recorded.
\<close>


theorem chunked_streaming:
  assumes "compress_file lib self inp out lvl cb w = (r, w')"
    and "renamed_to out (new_events w w')"
  shows "\<exists>F cs chunks header cctx.
      files w inp = Some F
    \<and> cs = (if length F < 10000000 then 65536
             else if length F < 100000000 then 524288 else 1048576)
    \<and> chunks = map (\<lambda>i. take cs (drop (i * cs) F)) [0..<(length F + cs - 1) div cs]
    \<and> concat chunks = F
    \<and> files w' out = Some (header @ zstd_compress lib cctx chunks)
    \<and> progress w' = progress w @
         (if cb = None then []
          else map (\<lambda>i. (min ((i + 1) * cs) (length F), length F)) [0..<length chunks])"
proof -
  from pack_written [OF assms] obtain F where
    inp: "files w inp = Some F"
    and out: "files w' out = Some (packed_archive lib self inp lvl cb F)"
    and pr: "progress w' = progress w @ (if cb = None then []
                  else progress_calls (length F) 0 (read_chunks (get_chunk_size (length F)) F))"
    by auto
  define cs where "cs = get_chunk_size (length F)"
  have pos: "0 < cs" by (simp add: cs_def get_chunk_size_pos)
  have cl: "read_chunks cs F = map (\<lambda>i. take cs (drop (i * cs) F)) [0..<(length F + cs - 1) div cs]"
    by (rule read_chunks_closed [OF pos])
  have cc: "concat (map (\<lambda>i. take cs (drop (i * cs) F)) [0..<(length F + cs - 1) div cs]) = F"
    using concat_read_chunks [OF pos, of F] cl by simp
  have pc: "progress_calls (length F) 0 (read_chunks cs F)
      = map (\<lambda>i. (min ((i + 1) * cs) (length F), length F)) [0..<(length F + cs - 1) div cs]"
    using progress_calls_closed [OF pos, of "length F" 0 F] by simp
  have ar: "packed_archive lib self inp lvl cb F =
      (MAGIC @ (of_nat VERSION # be32 (length (json_dumps lib (packed_manifest lib self inp lvl F))))
        @ json_dumps lib (packed_manifest lib self inp lvl F))
      @ zstd_compress lib (packed_cctx self lvl cb F) (read_chunks cs F)"
    by (simp add: packed_archive_def packed_payload_def cs_def)
  have csv: "cs = (if length F < 10000000 then 65536
             else if length F < 100000000 then 524288 else 1048576)"
    by (simp add: cs_def get_chunk_size_def)
  show ?thesis
    apply (rule exI [of _ F], rule exI [of _ cs],
           rule exI [of _ "map (\<lambda>i. take cs (drop (i * cs) F)) [0..<(length F + cs - 1) div cs]"],
           rule exI [of _ "MAGIC @ (of_nat VERSION # be32 (length (json_dumps lib (packed_manifest lib self inp lvl F))))
        @ json_dumps lib (packed_manifest lib self inp lvl F)"],
           rule exI [of _ "packed_cctx self lvl cb F"])
    using inp out pr csv cc pc ar cl cs_def by simp
qed

theorem chunked_streaming_witness:
  "renamed_to ''out/a.zpkg''
       (new_events (example_world [])
          (snd (compress_file example_lib example_packager ''in/a.txt'' ''out/a.zpkg'' ''high''
                  (Some (\<lambda>a b. None)) (example_world []))))
   \<and> progress (snd (compress_file example_lib example_packager ''in/a.txt'' ''out/a.zpkg'' ''high''
                  (Some (\<lambda>a b. None)) (example_world []))) = [(2, 2)]"
proof -
  let ?w0 = "example_world []"
  let ?r0 = "compress_file example_lib example_packager ''in/a.txt'' ''out/a.zpkg'' ''high''
                  (Some (\<lambda>a b. None)) ?w0"
  from chunked_streaming [of example_lib example_packager "''in/a.txt''" "''out/a.zpkg''"
      "''high''" "Some (\<lambda>a b. None)" ?w0 "fst ?r0" "snd ?r0"] example_pack_cb_renamed
  obtain F cs chunks where
    F: "files ?w0 ''in/a.txt'' = Some F"
    and cs: "cs = (if length F < 10000000 then 65536
             else if length F < 100000000 then 524288 else 1048576)"
    and ch: "chunks = map (\<lambda>i. take cs (drop (i * cs) F)) [0..<(length F + cs - 1) div cs]"
    and pr: "progress (snd ?r0) = progress ?w0 @
         map (\<lambda>i. (min ((i + 1) * cs) (length F), length F)) [0..<length chunks]"
    by auto
  from F have F': "F = example_content" by (simp add: example_input)
  from cs F' have cs': "cs = 65536" by (simp add: example_content_def)
  have "(length F + cs - 1) div cs = 1"
    unfolding F' cs' by (simp add: example_content_def)
  with ch have "length chunks = 1" by simp
  with pr F' cs' have "progress (snd ?r0) = [(2, 2)]"
    by (simp add: example_world_def example_content_def)
  with example_pack_cb_renamed show ?thesis by simp
qed


text \<open>
  C10.  A level label outside \<^verbatim>\<open>low\<close>, \<^verbatim>\<open>medium\<close>, \<^verbatim>\<open>high\<close>, \<^verbatim>\<open>ultra\<close> does not make
  \<^verbatim>\<open>compress_file\<close> fail: with no I/O failure, a supported, non-empty input within the
  size ceiling, a manifest shorter than \<open>2\<^sup>3\<^sup>2\<close> bytes, a free temp name and a callback
  that does not raise, the call returns, the compressor was built with level 19, which is
  the level of \<^verbatim>\<open>high\<close>, and the manifest in the archive carries the label as it was
  given.
\<close>


theorem unknown_level_defaults:
  assumes "lvl \<notin> set (map fst COMPRESSION_LEVELS)"
    and "faults w = []" and "files w inp = Some F" and "F \<noteq> []"
    and "lower (path_suffix inp) \<in> set SUPPORTED_FORMATS"
    and "int (length F) \<le> MAX_FILE_SIZE self"
    and "length (json_dumps lib (packed_manifest lib self inp lvl F)) < 4294967296"
    and "pick_fresh (files w) (path_parent out) ''.zpkg.tmp'' (tmp_names w) = Some (tmp, ns)"
    and "never_raises cb"
  shows "\<exists>res w' manifest_bytes.
      compress_file lib self inp out lvl cb w = (Inr res, w')
    \<and> manifest_bytes =
         json_dumps lib
           (JObj [(''original_filename'', JStr (path_name inp)),
                  (''original_size'', JInt (int (length F))),
                  (''compression_level'', JStr lvl),
                  (''format'', JStr (lstrip_dot (lower (path_suffix inp)))),
                  (''checksum'', JStr (sha256_hexdigest lib F)),
                  (''has_dict'', JBool (cached_dict self \<noteq> None))])
    \<and> files w' out =
         Some (MAGIC @ [of_nat VERSION] @ be32 (length manifest_bytes) @ manifest_bytes
               @ zstd_compress lib (build_compressor self 19 (length F) (cb \<noteq> None))
                   (read_chunks (get_chunk_size (length F)) F))
    \<and> level_of lvl = 19
    \<and> level_of lvl = level_of ''high''"
proof -
  from assms(1) have lv: "level_of lvl = 19"
    by (simp add: level_of_def COMPRESSION_LEVELS_def)
  have hi: "level_of ''high'' = 19"
    by (simp add: level_of_def COMPRESSION_LEVELS_def)
  from compress_file_succeeds [OF assms(2-9)] lv hi show ?thesis
    by (simp add: packed_archive_def packed_payload_def packed_cctx_def packed_manifest_def
          build_manifest_def)
qed

theorem unknown_level_defaults_witness:
  "''turbo'' \<notin> set (map fst COMPRESSION_LEVELS)
   \<and> fst (compress_file example_lib example_packager ''in/a.txt'' ''out/a.zpkg'' ''turbo'' None
            (example_world []))
       = Inr \<lparr>output_file = ''out/a.zpkg'', original_size = 2, compressed_size = 216\<rparr>
   \<and> files (snd (compress_file example_lib example_packager ''in/a.txt'' ''out/a.zpkg'' ''turbo'' None
            (example_world []))) ''out/a.zpkg''
       = Some (MAGIC @ [1] @ be32 196 @ example_manifest_bytes ''turbo'' False
               @ zstd_compress example_lib
                   \<lparr>level = 19, enable_ldm = 0, ldm_hash_log = 0, threads = - 1, dict_data = None\<rparr>
                   [example_content])"
proof -
  have a1: "''turbo'' \<notin> set (map fst COMPRESSION_LEVELS)"
    by (simp add: COMPRESSION_LEVELS_def)
  have mb: "json_dumps example_lib
              (packed_manifest example_lib example_packager ''in/a.txt'' ''turbo'' example_content)
            = example_manifest_bytes ''turbo'' False"
    by (simp add: packed_manifest_def build_manifest_def example_lib_def example_manifest_def
          example_packager_def Packager_init_def path_name_def strip_slashes_def path_suffix_def
          lower_def lower_char_def lstrip_dot_def example_content_def)
  have len: "length (example_manifest_bytes ''turbo'' False) = 196"
    by (simp add: example_manifest_bytes_def ascii_def)
  have a7: "length (json_dumps example_lib
              (packed_manifest example_lib example_packager ''in/a.txt'' ''turbo'' example_content))
            < 4294967296"
    by (simp add: mb len)
  have a6: "int (length example_content) \<le> MAX_FILE_SIZE example_packager"
    by (simp add: example_content_def example_packager_def Packager_init_def)
  have a4: "example_content \<noteq> []" by (simp add: example_content_def)
  have a2: "faults (example_world []) = []" by (simp add: example_world_def)
  have a9: "never_raises None" by (simp add: never_raises_def)
  from unknown_level_defaults [OF a1 a2 example_input a4 example_supported a6 a7 example_fresh a9]
  obtain res w' manifest_bytes where
    run: "compress_file example_lib example_packager ''in/a.txt'' ''out/a.zpkg'' ''turbo'' None
            (example_world []) = (Inr res, w')"
    and m: "manifest_bytes =
         json_dumps example_lib
           (JObj [(''original_filename'', JStr (path_name ''in/a.txt'')),
                  (''original_size'', JInt (int (length example_content))),
                  (''compression_level'', JStr ''turbo''),
                  (''format'', JStr (lstrip_dot (lower (path_suffix ''in/a.txt'')))),
                  (''checksum'', JStr (sha256_hexdigest example_lib example_content)),
                  (''has_dict'', JBool (cached_dict example_packager \<noteq> None))])"
    and out: "files w' ''out/a.zpkg'' =
         Some (MAGIC @ [of_nat VERSION] @ be32 (length manifest_bytes) @ manifest_bytes
               @ zstd_compress example_lib
                   (build_compressor example_packager 19 (length example_content)
                      (None \<noteq> (None :: progress_cb option)))
                   (read_chunks (get_chunk_size (length example_content)) example_content))"
    by blast
  have m': "manifest_bytes = example_manifest_bytes ''turbo'' False"
    using mb unfolding m packed_manifest_def build_manifest_def by simp
  have res: "fst (compress_file example_lib example_packager ''in/a.txt'' ''out/a.zpkg'' ''turbo''
                None (example_world []))
       = Inr \<lparr>output_file = ''out/a.zpkg'', original_size = 2, compressed_size = 216\<rparr>"
    by (simp add: example_eval)
  from out run have "files (snd (compress_file example_lib example_packager ''in/a.txt''
         ''out/a.zpkg'' ''turbo'' None (example_world []))) ''out/a.zpkg''
       = Some (MAGIC @ [1] @ be32 196 @ example_manifest_bytes ''turbo'' False
               @ zstd_compress example_lib
                   \<lparr>level = 19, enable_ldm = 0, ldm_hash_log = 0, threads = - 1, dict_data = None\<rparr>
                   [example_content])"
    by (simp add: m' len VERSION_def build_compressor_def example_packager_def Packager_init_def
          dict_truthy_def example_content_def get_chunk_size_def read_chunks.simps)
  with a1 res show ?thesis by simp
qed


text \<open>
  C3.  Take an \<^verbatim>\<open>unpack\<close> of a readable archive whose manifest is a dict, and let \<open>R\<close>
  be the bytes its stream reader yields.  The manifest records a checksum when
  \<^verbatim>\<open>manifest.get('checksum')\<close> is truthy.

  If it records one that differs from the SHA-256 of \<open>R\<close>, then under any I/O failures
  the call raises, the file system is exactly what it was before the call (the temp file
  is gone and nothing was put at the final path) and no rename was made at all; when no I/O
  failure is injected and the reader finishes, the exception is the \<^verbatim>\<open>ValueError\<close>
  \<^verbatim>\<open>Checksum mismatch\<close>.  So a rename is only ever made after the comparison has succeeded.

  If it records none, or one that equals the SHA-256 of \<open>R\<close>, then, with no I/O failure,
  a reader that finishes, a free temp name, a manifest that is not of visual mode and names
  the original file, the call returns and the only file-system events are the creation of
  the temp file, the writes of the chunks of \<open>R\<close> and the rename to the final path, which
  then holds \<open>R\<close>.
\<close>


theorem unpack_verifies_before_rename:
  assumes "unpack lib self pkg outdir w = (r, w')"
    and "files w pkg = Some data"
    and "read_header lib data = Inr (v, JObj kvs, payload)"
    and "stored = (case map_of kvs ''checksum'' of Some c \<Rightarrow> c | None \<Rightarrow> JNull)"
    and "zstd_decompress lib
           (build_decompressor self (case map_of kvs ''has_dict'' of Some x \<Rightarrow> x | None \<Rightarrow> JBool False))
           payload = (R, err)"
  shows "(truthy stored \<and> stored \<noteq> JStr (sha256_hexdigest lib R) \<longrightarrow>
            (\<exists>e. r = Inl e) \<and> files w' = files w
            \<and> list_all (\<lambda>ev. rename_target ev = None) (new_events w w')
            \<and> (faults w = [] \<and> err = None
                 \<and> pick_fresh (files w) outdir ''.tmp'' (tmp_names w) = Some (tmp, ns)
               \<longrightarrow> r = Inl (ValueError ChecksumMismatch)))
       \<and> ((\<not> truthy stored \<or> stored = JStr (sha256_hexdigest lib R))
            \<and> faults w = [] \<and> err = None
            \<and> pick_fresh (files w) outdir ''.tmp'' (tmp_names w) = Some (tmp, ns)
            \<and> (case map_of kvs ''mode'' of Some m \<Rightarrow> m | None \<Rightarrow> JNull) \<noteq> JStr ''visual''
            \<and> map_of kvs ''original_filename'' = Some (JStr name) \<longrightarrow>
            r = Inr \<lparr>restored_path = path_div outdir name,
                     manifest_original_size =
                       (case map_of kvs ''original_size'' of Some x \<Rightarrow> x | None \<Rightarrow> JNull)\<rparr>
            \<and> files w' = (files w)(path_div outdir name \<mapsto> R)
            \<and> new_events w w' =
                 Created tmp # replicate (length (read_chunks CHUNK_SIZE R)) (Written tmp)
                   @ [Renamed tmp (path_div outdir name)])"
proof (intro conjI impI)
  assume a: "truthy stored \<and> stored \<noteq> JStr (sha256_hexdigest lib R)"
  from unpack_mismatch [OF assms(1,2,3) assms(5)] a assms(4)
  show "\<exists>e. r = Inl e" and "files w' = files w"
    and "list_all (\<lambda>ev. rename_target ev = None) (new_events w w')"
    by (auto simp: new_events_def)
  assume b: "faults w = [] \<and> err = None
      \<and> pick_fresh (files w) outdir ''.tmp'' (tmp_names w) = Some (tmp, ns)"
  from unpack_mismatch_raises [of w pkg data lib v kvs payload self R outdir tmp ns]
    a b assms
  show "r = Inl (ValueError ChecksumMismatch)" by simp
next
  assume c: "(\<not> truthy stored \<or> stored = JStr (sha256_hexdigest lib R))
            \<and> faults w = [] \<and> err = None
            \<and> pick_fresh (files w) outdir ''.tmp'' (tmp_names w) = Some (tmp, ns)
            \<and> (case map_of kvs ''mode'' of Some m \<Rightarrow> m | None \<Rightarrow> JNull) \<noteq> JStr ''visual''
            \<and> map_of kvs ''original_filename'' = Some (JStr name)"
  from unpack_succeeds [of w pkg data lib v kvs payload self R outdir tmp ns name] c assms
  have "(r, w') = (Inr \<lparr>restored_path = path_div outdir name,
           manifest_original_size = (case map_of kvs ''original_size'' of Some x \<Rightarrow> x | None \<Rightarrow> JNull)\<rparr>,
      w\<lparr>files := (files w)(path_div outdir name \<mapsto> R),
        tmp_names := ns,
        fs_log := fs_log w @ Created tmp # replicate (length (read_chunks CHUNK_SIZE R)) (Written tmp)
                    @ [Renamed tmp (path_div outdir name)]\<rparr>)"
    by simp
  then show "r = Inr \<lparr>restored_path = path_div outdir name,
                     manifest_original_size =
                       (case map_of kvs ''original_size'' of Some x \<Rightarrow> x | None \<Rightarrow> JNull)\<rparr>"
    and "files w' = (files w)(path_div outdir name \<mapsto> R)"
    and "new_events w w' =
                 Created tmp # replicate (length (read_chunks CHUNK_SIZE R)) (Written tmp)
                   @ [Renamed tmp (path_div outdir name)]"
    by (simp_all add: new_events_def)
qed


theorem unpack_verifies_before_rename_witness:
  "truthy (JStr example_sha)
   \<and> JStr example_sha \<noteq> JStr (sha256_hexdigest example_lib [104, 111])
   \<and> fst (unpack example_lib example_unpacker ''out/a.zpkg'' ''restored''
           (example_store (example_archive (example_manifest_bytes ''high'' False) [104, 111]) []))
       = Inl (ValueError ChecksumMismatch)
   \<and> files (snd (unpack example_lib example_unpacker ''out/a.zpkg'' ''restored''
           (example_store (example_archive (example_manifest_bytes ''high'' False) [104, 111]) [])))
       = files (example_store (example_archive (example_manifest_bytes ''high'' False) [104, 111]) [])
   \<and> \<not> truthy JNull
   \<and> fst (unpack example_lib example_unpacker ''out/a.zpkg'' ''restored''
           (example_store (example_archive bare_manifest_bytes example_content) []))
       = Inr \<lparr>restored_path = ''restored/a.txt'', manifest_original_size = JNull\<rparr>
   \<and> files (snd (unpack example_lib example_unpacker ''out/a.zpkg'' ''restored''
           (example_store (example_archive bare_manifest_bytes example_content) []))) ''restored/a.txt''
       = Some example_content"
proof -
  let ?a1 = "example_archive (example_manifest_bytes ''high'' False) [104, 111]"
  let ?w1 = "example_store ?a1 []"
  let ?u1 = "unpack example_lib example_unpacker ''out/a.zpkg'' ''restored'' ?w1"
  let ?a2 = "example_archive bare_manifest_bytes example_content"
  let ?w2 = "example_store ?a2 []"
  let ?u2 = "unpack example_lib example_unpacker ''out/a.zpkg'' ''restored'' ?w2"
  have t1: "truthy (JStr example_sha)" by (simp add: example_sha_def)
  have m1: "JStr example_sha \<noteq> JStr (sha256_hexdigest example_lib [104, 111])"
    by (simp add: example_lib_def example_sha_def example_content_def)
  have nf: "\<And>a. faults (example_store a []) = []" by (simp add: example_store_def)
  have pk: "\<And>a. files (example_store a []) ''out/a.zpkg'' = Some a" by (simp add: example_store_def)
  have st1: "JStr example_sha =
      (case map_of [(''original_filename'', JStr ''a.txt''), (''original_size'', JInt 2),
           (''compression_level'', JStr ''high''), (''format'', JStr ''txt''),
           (''checksum'', JStr example_sha), (''has_dict'', JBool False)] ''checksum''
       of Some c \<Rightarrow> c | None \<Rightarrow> JNull)"
    by simp
  have st2: "JNull = (case map_of [(''original_filename'', JStr ''a.txt'')] ''checksum''
       of Some c \<Rightarrow> c | None \<Rightarrow> JNull)"
    by simp
  from unpack_verifies_before_rename [of example_lib example_unpacker "''out/a.zpkg''" "''restored''"
      ?w1 "fst ?u1" "snd ?u1", OF _ pk example_header [unfolded example_manifest_def] st1
      example_decompress, of "''restored/tmpw8r2c5yt.tmp''" "[]" "''a.txt''"]
    t1 m1 nf example_store_fresh
  have A: "fst ?u1 = Inl (ValueError ChecksumMismatch) \<and> files (snd ?u1) = files ?w1"
    by simp
  from unpack_verifies_before_rename [of example_lib example_unpacker "''out/a.zpkg''" "''restored''"
      ?w2 "fst ?u2" "snd ?u2", OF _ pk example_bare_header [unfolded bare_manifest_def] st2
      example_decompress, of "''restored/tmpw8r2c5yt.tmp''" "[]" "''a.txt''"]
    nf example_store_fresh
  have B: "fst ?u2 = Inr \<lparr>restored_path = ''restored/a.txt'', manifest_original_size = JNull\<rparr>
      \<and> files (snd ?u2) ''restored/a.txt'' = Some example_content"
    by (simp add: path_div_def strip_slashes_def)
  from t1 m1 A B show ?thesis by simp
qed


text \<open>
  C4, as stated, fails.  The archive of the example with \<^verbatim>\<open>has_dict\<close> set to true, whose
  payload is a frame that needs no dictionary, is unpacked by an unpacker without a cached
  dictionary: the call returns and the file is restored.  \<^verbatim>\<open>_build_decompressor\<close> has no
  branch that raises; \<^verbatim>\<open>has_dict and self._cached_dict\<close> is false and a plain
  \<^verbatim>\<open>ZstdDecompressor()\<close> is returned.
\<close>


theorem missing_dictionary_counterexample:
  "unpacker_dict example_unpacker = None
   \<and> read_header example_lib (example_archive (example_manifest_bytes ''high'' True) example_content)
       = Inr (1, JObj [(''original_filename'', JStr ''a.txt''), (''original_size'', JInt 2),
                       (''compression_level'', JStr ''high''), (''format'', JStr ''txt''),
                       (''checksum'', JStr example_sha), (''has_dict'', JBool True)],
              raw_frame example_content)
   \<and> fst (unpack example_lib example_unpacker ''out/a.zpkg'' ''restored''
           (example_store (example_archive (example_manifest_bytes ''high'' True) example_content) []))
       = Inr \<lparr>restored_path = ''restored/a.txt'', manifest_original_size = JInt 2\<rparr>
   \<and> files (snd (unpack example_lib example_unpacker ''out/a.zpkg'' ''restored''
           (example_store (example_archive (example_manifest_bytes ''high'' True) example_content) [])))
         ''restored/a.txt''
       = Some example_content"
proof -
  let ?a = "example_archive (example_manifest_bytes ''high'' True) example_content"
  let ?w = "example_store ?a []"
  have nf: "faults ?w = []" by (simp add: example_store_def)
  have pk: "files ?w ''out/a.zpkg'' = Some ?a" by (simp add: example_store_def)
  have ok: "\<not> truthy (case map_of [(''original_filename'', JStr ''a.txt''), (''original_size'', JInt 2),
                       (''compression_level'', JStr ''high''), (''format'', JStr ''txt''),
                       (''checksum'', JStr example_sha), (''has_dict'', JBool True)] ''checksum''
                     of Some c \<Rightarrow> c | None \<Rightarrow> JNull)
      \<or> (case map_of [(''original_filename'', JStr ''a.txt''), (''original_size'', JInt 2),
                       (''compression_level'', JStr ''high''), (''format'', JStr ''txt''),
                       (''checksum'', JStr example_sha), (''has_dict'', JBool True)] ''checksum''
                     of Some c \<Rightarrow> c | None \<Rightarrow> JNull)
         = JStr (sha256_hexdigest example_lib example_content)"
    by (simp add: example_lib_def)
  from unpack_succeeds [OF nf pk example_header [unfolded example_manifest_def] example_decompress
      example_store_fresh ok, of "''a.txt''"]
  have "unpack example_lib example_unpacker ''out/a.zpkg'' ''restored'' ?w =
     (Inr \<lparr>restored_path = ''restored/a.txt'', manifest_original_size = JInt 2\<rparr>,
      ?w\<lparr>files := (files ?w)(''restored/a.txt'' \<mapsto> example_content),
        tmp_names := [],
        fs_log := fs_log ?w @ Created ''restored/tmpw8r2c5yt.tmp''
                    # replicate (length (read_chunks CHUNK_SIZE example_content))
                        (Written ''restored/tmpw8r2c5yt.tmp'')
                    @ [Renamed ''restored/tmpw8r2c5yt.tmp'' ''restored/a.txt'']\<rparr>)"
    by (simp add: path_div_def strip_slashes_def)
  then show ?thesis
    using example_header [of True example_content]
    by (simp add: example_unpacker_def example_manifest_def)
qed


text \<open>
  C4, amended.  For an archive whose manifest has \<^verbatim>\<open>has_dict\<close> true, an unpacker without a
  (non-empty) cached dictionary raises no error of its own: it builds a decompressor
  without a dictionary and decompresses the payload with it.  With no I/O failure and a
  free temp name, what \<^verbatim>\<open>unpack\<close> does is decided by that decompressor and the manifest.
  When the decompressor rejects the payload, \<^verbatim>\<open>unpack\<close> raises the decompressor's error
  and the files are what they were.  When it accepts the payload and yields \<open>R\<close>, and the
  manifest records a checksum that is not that of \<open>R\<close>, \<^verbatim>\<open>unpack\<close> raises the
  \<^verbatim>\<open>ValueError\<close> of the checksum mismatch and the files are what they were.  When it
  yields \<open>R\<close>, the checksum is absent or is that of \<open>R\<close>, and the mode is not visual:
  a manifest without \<^verbatim>\<open>original_filename\<close> makes \<^verbatim>\<open>unpack\<close> raise \<^verbatim>\<open>KeyError\<close>, the
  files being what they were, and with a manifest that names the file \<^verbatim>\<open>unpack\<close>
  returns and \<open>R\<close> is at the final path.
\<close>

theorem missing_dictionary_falls_back:
  assumes nd: "\<not> dict_truthy (unpacker_dict self)"
    and hd: "map_of kvs ''has_dict'' = Some (JBool True)"
    and nf: "faults w = []" and pkg: "files w pkg = Some data"
    and hdr: "read_header lib data = Inr (v, JObj kvs, payload)"
    and tmp: "pick_fresh (files w) outdir ''.tmp'' (tmp_names w) = Some (tmp, ns)"
    and dec: "zstd_decompress lib None payload = (R, err)"
    and run: "unpack lib self pkg outdir w = (r, w')"
  shows "build_decompressor self (JBool True) = None
     \<and> (\<forall>e. err = Some e \<longrightarrow> r = Inl e \<and> files w' = files w)
     \<and> (err = None
          \<and> truthy (case map_of kvs ''checksum'' of Some c \<Rightarrow> c | None \<Rightarrow> JNull)
          \<and> (case map_of kvs ''checksum'' of Some c \<Rightarrow> c | None \<Rightarrow> JNull)
               \<noteq> JStr (sha256_hexdigest lib R)
          \<longrightarrow> r = Inl (ValueError ChecksumMismatch) \<and> files w' = files w)
     \<and> (err = None
          \<and> (\<not> truthy (case map_of kvs ''checksum'' of Some c \<Rightarrow> c | None \<Rightarrow> JNull)
              \<or> (case map_of kvs ''checksum'' of Some c \<Rightarrow> c | None \<Rightarrow> JNull)
                   = JStr (sha256_hexdigest lib R))
          \<and> (case map_of kvs ''mode'' of Some m \<Rightarrow> m | None \<Rightarrow> JNull) \<noteq> JStr ''visual''
          \<longrightarrow> (map_of kvs ''original_filename'' = None
                 \<longrightarrow> r = Inl (OtherError ''KeyError'' ''original_filename'') \<and> files w' = files w)
             \<and> (\<forall>name. map_of kvs ''original_filename'' = Some (JStr name)
                 \<longrightarrow> (\<exists>res. r = Inr res \<and> restored_path res = path_div outdir name)
                     \<and> files w' = (files w)(path_div outdir name \<mapsto> R)))"
proof -
  let ?hd = "case map_of kvs ''has_dict'' of Some x \<Rightarrow> x | None \<Rightarrow> JBool False"
  from nd have bd: "build_decompressor self (JBool True) = None"
    by (rule build_decompressor_no_dict)
  with hd dec have dec': "zstd_decompress lib (build_decompressor self ?hd) payload = (R, err)"
    by simp
  from run have r: "r = fst (unpack lib self pkg outdir w)"
    and w': "w' = snd (unpack lib self pkg outdir w)"
    by simp_all
  have rej: "\<forall>e. err = Some e \<longrightarrow> r = Inl e \<and> files w' = files w"
  proof (intro allI impI)
    fix e assume "err = Some e"
    with dec' have "zstd_decompress lib (build_decompressor self ?hd) payload = (R, Some e)" by simp
    from unpack_decoder_rejects [OF nf pkg hdr this tmp] r w'
    show "r = Inl e \<and> files w' = files w" by simp
  qed
  have mis: "err = None
          \<and> truthy (case map_of kvs ''checksum'' of Some c \<Rightarrow> c | None \<Rightarrow> JNull)
          \<and> (case map_of kvs ''checksum'' of Some c \<Rightarrow> c | None \<Rightarrow> JNull)
               \<noteq> JStr (sha256_hexdigest lib R)
          \<longrightarrow> r = Inl (ValueError ChecksumMismatch) \<and> files w' = files w"
  proof (intro impI, elim conjE)
    assume e: "err = None"
      and tr: "truthy (case map_of kvs ''checksum'' of Some c \<Rightarrow> c | None \<Rightarrow> JNull)"
      and mm: "(case map_of kvs ''checksum'' of Some c \<Rightarrow> c | None \<Rightarrow> JNull)
               \<noteq> JStr (sha256_hexdigest lib R)"
    from dec' e have d: "zstd_decompress lib (build_decompressor self ?hd) payload = (R, None)"
      by simp
    from unpack_mismatch_raises [OF nf pkg hdr d tmp tr mm] r
    have "r = Inl (ValueError ChecksumMismatch)" by simp
    moreover from unpack_mismatch [OF run pkg hdr d tr mm] have "files w' = files w" by simp
    ultimately show "r = Inl (ValueError ChecksumMismatch) \<and> files w' = files w" by simp
  qed
  have acc: "err = None
          \<and> (\<not> truthy (case map_of kvs ''checksum'' of Some c \<Rightarrow> c | None \<Rightarrow> JNull)
              \<or> (case map_of kvs ''checksum'' of Some c \<Rightarrow> c | None \<Rightarrow> JNull)
                   = JStr (sha256_hexdigest lib R))
          \<and> (case map_of kvs ''mode'' of Some m \<Rightarrow> m | None \<Rightarrow> JNull) \<noteq> JStr ''visual''
          \<longrightarrow> (map_of kvs ''original_filename'' = None
                 \<longrightarrow> r = Inl (OtherError ''KeyError'' ''original_filename'') \<and> files w' = files w)
             \<and> (\<forall>name. map_of kvs ''original_filename'' = Some (JStr name)
                 \<longrightarrow> (\<exists>res. r = Inr res \<and> restored_path res = path_div outdir name)
                     \<and> files w' = (files w)(path_div outdir name \<mapsto> R))"
  proof (intro impI, elim conjE)
    assume e: "err = None"
      and ok: "\<not> truthy (case map_of kvs ''checksum'' of Some c \<Rightarrow> c | None \<Rightarrow> JNull)
              \<or> (case map_of kvs ''checksum'' of Some c \<Rightarrow> c | None \<Rightarrow> JNull)
                   = JStr (sha256_hexdigest lib R)"
      and mode: "(case map_of kvs ''mode'' of Some m \<Rightarrow> m | None \<Rightarrow> JNull) \<noteq> JStr ''visual''"
    from dec' e have d: "zstd_decompress lib (build_decompressor self ?hd) payload = (R, None)"
      by simp
    have a: "map_of kvs ''original_filename'' = None
                 \<longrightarrow> r = Inl (OtherError ''KeyError'' ''original_filename'') \<and> files w' = files w"
      using unpack_missing_name [OF nf pkg hdr d tmp ok mode] r w' by simp
    have b: "\<forall>name. map_of kvs ''original_filename'' = Some (JStr name)
                 \<longrightarrow> (\<exists>res. r = Inr res \<and> restored_path res = path_div outdir name)
                     \<and> files w' = (files w)(path_div outdir name \<mapsto> R)"
    proof (intro allI impI)
      fix name assume "map_of kvs ''original_filename'' = Some (JStr name)"
      from unpack_succeeds [OF nf pkg hdr d tmp ok mode this] run
      show "(\<exists>res. r = Inr res \<and> restored_path res = path_div outdir name)
                     \<and> files w' = (files w)(path_div outdir name \<mapsto> R)"
        by auto
    qed
    from a b show "(map_of kvs ''original_filename'' = None
                 \<longrightarrow> r = Inl (OtherError ''KeyError'' ''original_filename'') \<and> files w' = files w)
             \<and> (\<forall>name. map_of kvs ''original_filename'' = Some (JStr name)
                 \<longrightarrow> (\<exists>res. r = Inr res \<and> restored_path res = path_div outdir name)
                     \<and> files w' = (files w)(path_div outdir name \<mapsto> R))"
      by (rule conjI)
  qed
  from bd rej mis acc show ?thesis by (intro conjI)
qed

theorem missing_dictionary_falls_back_witness:
  "\<not> dict_truthy (unpacker_dict example_unpacker)
   \<and> build_decompressor example_unpacker (JBool True) = None
   \<and> (\<exists>res. fst (unpack example_lib example_unpacker ''out/a.zpkg'' ''restored''
           (example_store (example_archive (example_manifest_bytes ''high'' True) example_content) []))
         = Inr res
       \<and> restored_path res = ''restored/a.txt'')
   \<and> files (snd (unpack example_lib example_unpacker ''out/a.zpkg'' ''restored''
           (example_store (example_archive (example_manifest_bytes ''high'' True) example_content) [])))
         ''restored/a.txt''
       = Some example_content
   \<and> zstd_decompress example_lib None [0, 0, 0, 0]
       = ([], Some (OtherError ''ZstdError'' ''unknown frame descriptor''))
   \<and> fst (unpack example_lib example_unpacker ''out/a.zpkg'' ''restored''
           (example_store garbled_archive []))
       = Inl (OtherError ''ZstdError'' ''unknown frame descriptor'')
   \<and> files (snd (unpack example_lib example_unpacker ''out/a.zpkg'' ''restored''
           (example_store garbled_archive [])))
       = files (example_store garbled_archive [])"
proof -
  let ?kvs = "[(''original_filename'', JStr ''a.txt''), (''original_size'', JInt 2),
               (''compression_level'', JStr ''high''), (''format'', JStr ''txt''),
               (''checksum'', JStr example_sha), (''has_dict'', JBool True)]"
  let ?a = "example_archive (example_manifest_bytes ''high'' True) example_content"
  let ?w = "example_store ?a []"
  let ?r = "unpack example_lib example_unpacker ''out/a.zpkg'' ''restored'' ?w"
  let ?g = "example_store garbled_archive []"
  let ?q = "unpack example_lib example_unpacker ''out/a.zpkg'' ''restored'' ?g"
  have nd: "\<not> dict_truthy (unpacker_dict example_unpacker)"
    by (simp add: example_unpacker_def dict_truthy_def)
  have nf: "faults ?w = []" by (simp add: example_store_def)
  have pk: "files ?w ''out/a.zpkg'' = Some ?a" by (simp add: example_store_def)
  have nfg: "faults ?g = []" by (simp add: example_store_def)
  have pkg: "files ?g ''out/a.zpkg'' = Some garbled_archive" by (simp add: example_store_def)
  have hd: "map_of ?kvs ''has_dict'' = Some (JBool True)"
    by simp
  have nm: "map_of ?kvs ''original_filename'' = Some (JStr ''a.txt'')"
    by simp
  have ok: "\<not> truthy (case map_of ?kvs ''checksum'' of Some c \<Rightarrow> c | None \<Rightarrow> JNull)
      \<or> (case map_of ?kvs ''checksum'' of Some c \<Rightarrow> c | None \<Rightarrow> JNull)
         = JStr (sha256_hexdigest example_lib example_content)"
    by (simp add: example_lib_def)
  have md: "(case map_of ?kvs ''mode'' of Some m \<Rightarrow> m | None \<Rightarrow> JNull) \<noteq> JStr ''visual''"
    by simp
  have rj: "zstd_decompress example_lib None [0, 0, 0, 0]
       = ([], Some (OtherError ''ZstdError'' ''unknown frame descriptor''))"
    by (simp add: example_lib_def)
  note good = missing_dictionary_falls_back [OF nd hd nf pk example_header [unfolded example_manifest_def]
      example_store_fresh example_decompress prod.collapse [symmetric]]
  note bad = missing_dictionary_falls_back [OF nd hd nfg pkg garbled_header [unfolded example_manifest_def]
      example_store_fresh rj prod.collapse [symmetric]]
  from good have bd: "build_decompressor example_unpacker (JBool True) = None"
    by (rule conjunct1)
  from good [THEN conjunct2, THEN conjunct2, THEN conjunct2, THEN mp, OF conjI [OF refl conjI [OF ok md]],
      THEN conjunct2, THEN spec, THEN mp, OF nm]
  have res: "(\<exists>res. fst ?r = Inr res \<and> restored_path res = path_div ''restored'' ''a.txt'')
      \<and> files (snd ?r) = (files ?w)(path_div ''restored'' ''a.txt'' \<mapsto> example_content)" .
  then have r1: "\<exists>res. fst ?r = Inr res \<and> restored_path res = ''restored/a.txt''"
    and r2: "files (snd ?r) ''restored/a.txt'' = Some example_content"
    by (simp_all add: path_div_def strip_slashes_def)
  from bad [THEN conjunct2, THEN conjunct1, THEN spec, THEN mp, OF refl]
  have q: "fst ?q = Inl (OtherError ''ZstdError'' ''unknown frame descriptor'')
      \<and> files (snd ?q) = files ?g" .
  show ?thesis
    by (intro conjI) (rule nd bd r1 r2 rj q [THEN conjunct1] q [THEN conjunct2])+
qed

text \<open>
  C1.  A lossless pack followed by an unpack restores the file.  Let \<open>F\<close> be a
  non-empty file with a supported extension, within the size ceiling of the packager.
  Assume that no I/O failure is injected, that a temp name is free for the pack and one for
  the unpack, that the manifest is shorter than \<open>2\<^sup>3\<^sup>2\<close> bytes, that the callback does
  not raise, that the unpacker has loaded the dictionary the packager has, and, of the
  libraries, that \<^verbatim>\<open>json.loads\<close> reads back the manifest \<^verbatim>\<open>json.dumps\<close> wrote and that
  decompressing what the compressor wrote for the chunks of \<open>F\<close>, with the compressor's
  dictionary, yields \<open>F\<close>.  Then \<^verbatim>\<open>compress_file\<close> returns, \<^verbatim>\<open>unpack\<close> of the archive it
  wrote returns, the restored file is \<open>F\<close> byte for byte under the original file name in
  the output directory, and the checksum the manifest of the archive records is the SHA-256
  of \<open>F\<close>, which is also the SHA-256 of the restored bytes.
\<close>


theorem pack_unpack_round_trip:
  assumes nf: "faults w = []"
    and inp: "files w inp = Some F" and ne: "F \<noteq> []"
    and sup: "lower (path_suffix inp) \<in> set SUPPORTED_FORMATS"
    and sz: "int (length F) \<le> MAX_FILE_SIZE p"
    and len: "length (json_dumps lib (packed_manifest lib p inp lvl F)) < 4294967296"
    and tmp1: "pick_fresh (files w) (path_parent out) ''.zpkg.tmp'' (tmp_names w) = Some (tmp1, ns1)"
    and tmp2: "pick_fresh ((files w)(out \<mapsto> packed_archive lib p inp lvl cb F)) outdir ''.tmp'' ns1
                 = Some (tmp2, ns2)"
    and cb: "never_raises cb"
    and js: "json_loads lib (json_dumps lib (packed_manifest lib p inp lvl F))
               = Inr (packed_manifest lib p inp lvl F)"
    and zs: "zstd_decompress lib (dict_data (packed_cctx p lvl cb F)) (packed_payload lib p lvl cb F)
               = (F, None)"
    and same: "unpacker_dict u = cached_dict p"
  shows "\<exists>res w1 restored w2 v kvs payload.
      compress_file lib p inp out lvl cb w = (Inr res, w1)
    \<and> unpack lib u out outdir w1 = (Inr restored, w2)
    \<and> restored_path restored = path_div outdir (path_name inp)
    \<and> files w2 (restored_path restored) = Some F
    \<and> files w1 out = Some (packed_archive lib p inp lvl cb F)
    \<and> read_header lib (packed_archive lib p inp lvl cb F) = Inr (v, JObj kvs, payload)
    \<and> map_of kvs ''checksum'' = Some (JStr (sha256_hexdigest lib F))
    \<and> sha256_hexdigest lib (the (files w2 (restored_path restored))) = sha256_hexdigest lib F"
proof -
  let ?A = "packed_archive lib p inp lvl cb F"
  let ?kvs = "[(''original_filename'', JStr (path_name inp)),
           (''original_size'', JInt (int (length F))),
           (''compression_level'', JStr lvl),
           (''format'', JStr (lstrip_dot (lower (path_suffix inp)))),
           (''checksum'', JStr (sha256_hexdigest lib F)),
           (''has_dict'', JBool (cached_dict p \<noteq> None))]"
  have man: "packed_manifest lib p inp lvl F = JObj ?kvs"
    by (simp add: packed_manifest_def build_manifest_def)
  let ?w1 = "w\<lparr>files := (files w)(out \<mapsto> ?A),
        tmp_names := ns1,
        progress := progress w @ (if cb = None then []
           else progress_calls (length F) 0 (read_chunks (get_chunk_size (length F)) F)),
        attempt_log := attempt_log w @ [None],
        fs_log := fs_log w @ [Created tmp1, Written tmp1, Written tmp1, Written tmp1, Written tmp1,
                              Renamed tmp1 out]\<rparr>"
  from compress_file_succeeds [OF nf inp ne sup sz len tmp1 cb]
  have pack: "compress_file lib p inp out lvl cb w =
     (Inr \<lparr>output_file = out, original_size = length F, compressed_size = length ?A\<rparr>, ?w1)" .
  have nf1: "faults ?w1 = []" using nf by simp
  have pk1: "files ?w1 out = Some ?A" by simp
  have hdr: "read_header lib ?A = Inr (VERSION, JObj ?kvs, packed_payload lib p lvl cb F)"
    using read_header_packed [OF len js, of cb] man by simp
  have dec: "zstd_decompress lib
      (build_decompressor u (case map_of ?kvs ''has_dict'' of Some x \<Rightarrow> x | None \<Rightarrow> JBool False))
      (packed_payload lib p lvl cb F) = (F, None)"
    using zs decompressor_matches_compressor [OF same, of lvl cb F] by simp
  have t2: "pick_fresh (files ?w1) outdir ''.tmp'' (tmp_names ?w1) = Some (tmp2, ns2)"
    using tmp2 by simp
  have ok: "\<not> truthy (case map_of ?kvs ''checksum'' of Some c \<Rightarrow> c | None \<Rightarrow> JNull)
      \<or> (case map_of ?kvs ''checksum'' of Some c \<Rightarrow> c | None \<Rightarrow> JNull)
           = JStr (sha256_hexdigest lib F)"
    by simp
  have mode: "(case map_of ?kvs ''mode'' of Some m \<Rightarrow> m | None \<Rightarrow> JNull) \<noteq> JStr ''visual''"
    by simp
  have name: "map_of ?kvs ''original_filename'' = Some (JStr (path_name inp))"
    by simp
  note un = unpack_succeeds [OF nf1 pk1 hdr dec t2 ok mode name]
  have ck: "map_of ?kvs ''checksum'' = Some (JStr (sha256_hexdigest lib F))" by simp
  show ?thesis
    apply (rule exI [of _ "\<lparr>output_file = out, original_size = length F, compressed_size = length ?A\<rparr>"])
    apply (rule exI [of _ ?w1])
    apply (intro exI conjI)
           apply (rule pack)
          apply (rule un)
         apply simp
        apply simp
       apply simp
      apply (rule hdr)
     apply (rule ck)
    apply simp
    done
qed


theorem pack_unpack_round_trip_witness:
  "faults (example_world []) = []
   \<and> files (example_world []) ''in/a.txt'' = Some example_content
   \<and> unpacker_dict example_unpacker = cached_dict example_packager
   \<and> json_loads example_lib (json_dumps example_lib
         (packed_manifest example_lib example_packager ''in/a.txt'' ''high'' example_content))
       = Inr (packed_manifest example_lib example_packager ''in/a.txt'' ''high'' example_content)
   \<and> files (snd (unpack example_lib example_unpacker ''out/a.zpkg'' ''restored''
                (snd (compress_file example_lib example_packager ''in/a.txt'' ''out/a.zpkg''
                        ''high'' None (example_world [])))))
         ''restored/a.txt''
       = Some example_content"
proof -
  let ?w = "example_world []"
  have nf: "faults ?w = []" by (simp add: example_world_def)
  have ne: "example_content \<noteq> []" by (simp add: example_content_def)
  have sz: "int (length example_content) \<le> MAX_FILE_SIZE example_packager"
    by (simp add: example_content_def example_packager_def Packager_init_def)
  have man: "packed_manifest example_lib example_packager ''in/a.txt'' ''high'' example_content
       = example_manifest ''high'' False"
    by (simp add: packed_manifest_def build_manifest_def example_lib_def example_manifest_def
          example_packager_def Packager_init_def path_name_def strip_slashes_def path_suffix_def
          lower_def lower_char_def lstrip_dot_def example_content_def)
  have mb: "json_dumps example_lib (example_manifest ''high'' False)
       = example_manifest_bytes ''high'' False"
    by (simp add: example_lib_def)
  have len: "length (json_dumps example_lib
       (packed_manifest example_lib example_packager ''in/a.txt'' ''high'' example_content))
       < 4294967296"
    by (simp add: man mb example_manifest_bytes_def ascii_def)
  have js: "json_loads example_lib (json_dumps example_lib
         (packed_manifest example_lib example_packager ''in/a.txt'' ''high'' example_content))
       = Inr (packed_manifest example_lib example_packager ''in/a.txt'' ''high'' example_content)"
    unfolding man mb by (simp add: example_lib_def)
  have pl: "packed_payload example_lib example_packager ''high'' None example_content
       = raw_frame example_content"
    by (simp add: packed_payload_def example_lib_def example_content_def get_chunk_size_def
          read_chunks.simps)
  have zs: "zstd_decompress example_lib
       (dict_data (packed_cctx example_packager ''high'' None example_content))
       (packed_payload example_lib example_packager ''high'' None example_content)
       = (example_content, None)"
    unfolding pl by (rule example_decompress)
  have t2: "pick_fresh ((files ?w)(''out/a.zpkg'' \<mapsto>
        packed_archive example_lib example_packager ''in/a.txt'' ''high'' None example_content))
        ''restored'' ''.tmp'' [''p07dmw1z''] = Some (''restored/tmpp07dmw1z.tmp'', [])"
    by (simp add: example_world_def path_div_def strip_slashes_def)
  have cb: "never_raises None" by (simp add: never_raises_def)
  have same: "unpacker_dict example_unpacker = cached_dict example_packager"
    by (simp add: example_unpacker_def example_packager_def Packager_init_def)
  have nm: "path_div ''restored'' (path_name ''in/a.txt'') = ''restored/a.txt''"
    by (simp add: path_div_def path_name_def strip_slashes_def)
  from pack_unpack_round_trip [OF nf example_input ne example_supported sz len example_fresh t2 cb
      js zs same]
  obtain res w1 restored w2 where
    "compress_file example_lib example_packager ''in/a.txt'' ''out/a.zpkg'' ''high'' None ?w
       = (Inr res, w1)"
    "unpack example_lib example_unpacker ''out/a.zpkg'' ''restored'' w1 = (Inr restored, w2)"
    "restored_path restored = path_div ''restored'' (path_name ''in/a.txt'')"
    "files w2 (restored_path restored) = Some example_content"
    by blast
  then have "files (snd (unpack example_lib example_unpacker ''out/a.zpkg'' ''restored''
                (snd (compress_file example_lib example_packager ''in/a.txt'' ''out/a.zpkg''
                        ''high'' None ?w))))
         ''restored/a.txt'' = Some example_content"
    by (simp add: nm)
  with nf example_input same js show ?thesis by simp
qed


text \<open>
  C5.  \<^verbatim>\<open>compress_with_retry\<close> with a maximum \<open>N \<ge> 1\<close> and a base delay \<open>d \<ge> 0\<close>
  calls \<^verbatim>\<open>compress_file\<close> at least once and at most \<open>N\<close> times.  Every call but the
  last one raised an exception that is not a \<^verbatim>\<open>ValueError\<close>; the outcome of the last call
  is the outcome of \<^verbatim>\<open>compress_with_retry\<close>.  So a \<^verbatim>\<open>ValueError\<close> is re-raised by the
  call that met it, whatever its message, and when \<^verbatim>\<open>compress_with_retry\<close> raises
  anything else, all \<open>N\<close> calls were made and the exception is that of the last.  Before
  each call after the first the loop slept, \<open>d\<close>, \<open>2d\<close>, \<open>4d\<close>, ... in this order: one
  sleep less than there were calls.  An unsupported extension, an empty file and a file
  over the size ceiling raise a \<^verbatim>\<open>ValueError\<close> in the first call: one call, no sleep.
\<close>


theorem retry_policy:
  assumes "1 \<le> N" and "0 \<le> d"
    and "compress_with_retry lib self inp out lvl cb N d w = (r, w')"
  shows "attempt_log w' = attempt_log w @ new_attempts w w'
    \<and> 1 \<le> length (new_attempts w w') \<and> int (length (new_attempts w w')) \<le> N
    \<and> (\<forall>x \<in> set (butlast (new_attempts w w')). \<exists>e. x = Some e \<and> \<not> is_ValueError e)
    \<and> last (new_attempts w w') = (case r of Inl e \<Rightarrow> Some e | Inr res \<Rightarrow> None)
    \<and> ((\<exists>e. r = Inl e \<and> \<not> is_ValueError e) \<longrightarrow> int (length (new_attempts w w')) = N)
    \<and> sleeps w' = sleeps w @ map (\<lambda>i. d * 2 ^ i) [0..<length (new_attempts w w') - 1]
    \<and> (lower (path_suffix inp) \<notin> set SUPPORTED_FORMATS
         \<or> ((faults w = [] \<or> (\<exists>fs. faults w = None # fs))
             \<and> (\<exists>F. files w inp = Some F \<and> (F = [] \<or> MAX_FILE_SIZE self < int (length F))))
        \<longrightarrow> (\<exists>m. r = Inl (ValueError m)) \<and> length (new_attempts w w') = 1
            \<and> sleeps w' = sleeps w)"
proof -
  from assms(1) obtain k where k: "nat N = Suc k" by (cases "nat N") auto
  from assms(3) have run: "retry_loop lib self inp out lvl cb (nat N) d None w = (r, w')"
    by (simp add: compress_with_retry_def)
  from retry_loop_spec [OF assms(2) run] k obtain log where
    al: "attempt_log w' = attempt_log w @ log" and ln: "length log \<le> nat N" and ne: "log \<noteq> []"
    and tr: "\<forall>x \<in> set (butlast log). \<exists>e. x = Some e \<and> \<not> is_ValueError e"
    and la: "last log = (case r of Inl e \<Rightarrow> Some e | Inr res \<Rightarrow> None)"
    and ex: "(\<exists>e. r = Inl e \<and> \<not> is_ValueError e) \<longrightarrow> length log = nat N"
    and sl: "sleeps w' = sleeps w @ map (\<lambda>i. d * 2 ^ i) [0..<length log - 1]"
    by auto
  from al have na: "new_attempts w w' = log" by (simp add: new_attempts_def)
  from ne have l1: "1 \<le> length log" by (cases log) auto
  have perm: "(\<exists>m. r = Inl (ValueError m)) \<and> length log = 1 \<and> sleeps w' = sleeps w"
    if p: "lower (path_suffix inp) \<notin> set SUPPORTED_FORMATS
         \<or> ((faults w = [] \<or> (\<exists>fs. faults w = None # fs))
             \<and> (\<exists>F. files w inp = Some F \<and> (F = [] \<or> MAX_FILE_SIZE self < int (length F))))"
  proof -
    obtain r1 w1 where cf: "compress_file lib self inp out lvl cb w = (r1, w1)"
      by (cases "compress_file lib self inp out lvl cb w")
    from permanent_input_raises [OF p, of lib out lvl cb] cf obtain m where m: "r1 = Inl (ValueError m)"
      by auto
    from run k cf m have "r = Inl (ValueError m)" and "w' = w1" by simp_all
    with compress_file_logs [OF cf] m al have "log = [Some (ValueError m)]" and "sleeps w' = sleeps w"
      by simp_all
    with \<open>r = Inl (ValueError m)\<close> show ?thesis by simp
  qed
  from al ln l1 tr la ex sl perm assms(1) show ?thesis
    unfolding na by (simp add: nat_le_iff)
qed



theorem retry_policy_witness:
  "fst (compress_with_retry example_lib example_packager ''in/a.txt'' ''out/a.zpkg'' ''high'' None 3 1
          (example_world [Some disk_full, Some disk_full, Some disk_full]))
     = Inl disk_full
   \<and> \<not> is_ValueError disk_full
   \<and> new_attempts (example_world [Some disk_full, Some disk_full, Some disk_full])
        (snd (compress_with_retry example_lib example_packager ''in/a.txt'' ''out/a.zpkg'' ''high''
                None 3 1 (example_world [Some disk_full, Some disk_full, Some disk_full])))
       = [Some disk_full, Some disk_full, Some disk_full]
   \<and> sleeps (snd (compress_with_retry example_lib example_packager ''in/a.txt'' ''out/a.zpkg'' ''high''
                None 3 1 (example_world [Some disk_full, Some disk_full, Some disk_full])))
       = [1, 2]
   \<and> lower (path_suffix ''in/a.exe'') \<notin> set SUPPORTED_FORMATS
   \<and> fst (compress_with_retry example_lib example_packager ''in/a.exe'' ''out/a.zpkg'' ''high'' None 3 1
          (example_world []))
       = Inl (ValueError (UnsupportedFormat ''.exe''))
   \<and> sleeps (snd (compress_with_retry example_lib example_packager ''in/a.exe'' ''out/a.zpkg'' ''high''
                None 3 1 (example_world [])))
       = []"
proof -
  let ?wt = "example_world [Some disk_full, Some disk_full, Some disk_full]"
  let ?rt = "compress_with_retry example_lib example_packager ''in/a.txt'' ''out/a.zpkg'' ''high''
                None 3 1 ?wt"
  let ?wp = "example_world []"
  let ?rp = "compress_with_retry example_lib example_packager ''in/a.exe'' ''out/a.zpkg'' ''high''
                None 3 1 ?wp"
  have rt: "fst ?rt = Inl disk_full"
    by (simp add: retry_eval example_eval)
  have nv: "\<not> is_ValueError disk_full" by (simp add: disk_full_def)
  have un: "lower (path_suffix ''in/a.exe'') \<notin> set SUPPORTED_FORMATS"
    by (simp add: path_suffix_def path_name_def strip_slashes_def lower_def lower_char_def
          SUPPORTED_FORMATS_def)
  have rp: "fst ?rp = Inl (ValueError (UnsupportedFormat ''.exe''))"
    by (simp add: retry_eval example_eval)
  have lt: "new_attempts ?wt (snd ?rt) = [Some disk_full, Some disk_full, Some disk_full]"
    by (simp add: retry_eval example_eval new_attempts_def)
  from retry_policy [of 3 1 example_lib example_packager "''in/a.txt''" "''out/a.zpkg''" "''high''"
      None ?wt "fst ?rt" "snd ?rt"] lt
  have st': "sleeps (snd ?rt) = [1, 2]"
    by (simp add: example_world_def)
  from retry_policy [of 3 1 example_lib example_packager "''in/a.exe''" "''out/a.zpkg''" "''high''"
      None ?wp "fst ?rp" "snd ?rp"] un
  have "sleeps (snd ?rp) = sleeps ?wp" by simp
  then have sp: "sleeps (snd ?rp) = []" by (simp add: example_world_def)
  from rt nv lt st' un rp sp show ?thesis by simp
qed


text \<open>
  C6 fails on the code.  \<^verbatim>\<open>compress_files\<close> on the example file and a file with an
  unsupported extension, with no progress callback, returns a summary whose \<^verbatim>\<open>success\<close>
  flag is false and whose failure list holds the second file with its \<^verbatim>\<open>ValueError\<close>.
  With a progress callback that reads a key of the result, as the docstring
  \<^verbatim>\<open>callback(completed, total, result)\<close> invites, the same call raises \<^verbatim>\<open>KeyError\<close> and
  returns no summary: the failure of the second file is reported to the callback inside
  the \<^verbatim>\<open>except\<close> clause, where nothing catches what the callback raises.  In the
  \<^verbatim>\<open>try\<close> block of the same loop an exception of the callback is caught and recorded:
  with a callback that raises on every result, the call on the example file alone
  returns a summary that lists the file as a result and as a failure.
\<close>

theorem batch_callback_exception_escapes:
  "fst (compress_files example_lib example_batch example_files ''out''
          (Some result_reader) [0, 1] (example_world []))
     = Inl (OtherError ''KeyError'' ''space_saved_percent'')
   \<and> fst (compress_files example_lib example_batch example_files ''out''
          None [0, 1] (example_world []))
     = Inr \<lparr>success = False, total_files = 2, succeeded = 1, failed = 1,
            summary_failures =
              [\<lparr>failed_file = ''in/b.exe'', failed_error = ValueError (UnsupportedFormat ''.exe'')\<rparr>],
            summary_results =
              [\<lparr>output_file = ''out/a.zpkg'', original_size = 2, compressed_size = 215,
                input_file = ''in/a.txt''\<rparr>],
            total_original_size = 2, total_compressed_size = 215\<rparr>
   \<and> fst (compress_files example_lib example_batch [''in/a.txt''] ''out''
          (Some result_refuser) [0] (example_world []))
     = Inr \<lparr>success = False, total_files = 2, succeeded = 1, failed = 1,
            summary_failures =
              [\<lparr>failed_file = ''in/a.txt'', failed_error = OtherError ''RuntimeError'' ''callback''\<rparr>],
            summary_results =
              [\<lparr>output_file = ''out/a.zpkg'', original_size = 2, compressed_size = 215,
                input_file = ''in/a.txt''\<rparr>],
            total_original_size = 2, total_compressed_size = 215\<rparr>"
proof -
  have escape: "fst (compress_files example_lib example_batch example_files ''out''
          (Some result_reader) [0, 1] (example_world []))
     = Inl (OtherError ''KeyError'' ''space_saved_percent'')"
    by (simp add: batch_eval retry_eval example_eval)
  have plain: "fst (compress_files example_lib example_batch example_files ''out''
          None [0, 1] (example_world []))
     = Inr \<lparr>success = False, total_files = 2, succeeded = 1, failed = 1,
            summary_failures =
              [\<lparr>failed_file = ''in/b.exe'', failed_error = ValueError (UnsupportedFormat ''.exe'')\<rparr>],
            summary_results =
              [\<lparr>output_file = ''out/a.zpkg'', original_size = 2, compressed_size = 215,
                input_file = ''in/a.txt''\<rparr>],
            total_original_size = 2, total_compressed_size = 215\<rparr>"
    by (simp add: batch_eval retry_eval example_eval)
  have caught: "fst (compress_files example_lib example_batch [''in/a.txt''] ''out''
          (Some result_refuser) [0] (example_world []))
     = Inr \<lparr>success = False, total_files = 2, succeeded = 1, failed = 1,
            summary_failures =
              [\<lparr>failed_file = ''in/a.txt'', failed_error = OtherError ''RuntimeError'' ''callback''\<rparr>],
            summary_results =
              [\<lparr>output_file = ''out/a.zpkg'', original_size = 2, compressed_size = 215,
                input_file = ''in/a.txt''\<rparr>],
            total_original_size = 2, total_compressed_size = 215\<rparr>"
    by (simp add: batch_eval retry_eval example_eval)
  from escape plain caught show ?thesis by (intro conjI)
qed

end
